(* ===== verification/CronHive_Prelude.thy ===== *)
theory CronHive_Prelude
  imports Main
begin

text \<open>
  Shared vocabulary of the development. It holds the proof collections, the type synonyms
  that name the model's basic values, the JavaScript string operations the sources use
  (\<open>split\<close>, \<open>trim\<close>, \<open>startsWith\<close>, \<open>includes\<close>, \<open>toLowerCase\<close>, number-to-string in
  template literals), and the generic lemmas on lists, options and decimal text that the
  component theories share.

  A JavaScript string is modelled as a \<open>string\<close> (a list of 8-bit characters). Every string
  operation below is exact on ASCII text, which is all the sources inspect: keys, IP
  literals, header values and status messages.
\<close>

section \<open>Proof collections\<close>

named_theorems prog_defs \<open>definitions of the service-call wrappers\<close>

section \<open>Basic types\<close>

type_synonym time = int \<comment> \<open>milliseconds since the epoch, \<open>Date.getTime()\<close>\<close>
type_synonym uuid = string

section \<open>Decimal text of numbers\<close>

definition digit_char :: "nat \<Rightarrow> char" where
  "digit_char d = char_of (48 + d)"

definition is_digit :: "char \<Rightarrow> bool" where
  "is_digit c \<longleftrightarrow> 48 \<le> (of_char c :: nat) \<and> (of_char c :: nat) \<le> 57"

definition digit_val :: "char \<Rightarrow> nat" where
  "digit_val c = of_char c - 48"

fun nat_to_string :: "nat \<Rightarrow> string" where
  "nat_to_string n =
     (if n < 10 then [digit_char n] else nat_to_string (n div 10) @ [digit_char (n mod 10)])"

declare nat_to_string.simps [simp del]

definition int_to_string :: "int \<Rightarrow> string" where
  "int_to_string i =
     (if i < 0 then CHR ''-'' # nat_to_string (nat (- i)) else nat_to_string (nat i))"

definition string_to_nat :: "string \<Rightarrow> nat" where
  "string_to_nat s = foldl (\<lambda>n c. 10 * n + digit_val c) 0 s"

lemma is_digit_digit_char [simp]: "d < 10 \<Longrightarrow> is_digit (digit_char d)"
  by (simp add: is_digit_def digit_char_def)

lemma digit_val_digit_char [simp]: "d < 10 \<Longrightarrow> digit_val (digit_char d) = d"
  by (simp add: digit_val_def digit_char_def)

lemma nat_to_string_nonempty [simp]: "nat_to_string n \<noteq> []"
  by (subst nat_to_string.simps) simp

lemma nat_to_string_digits: "\<forall>c \<in> set (nat_to_string n). is_digit c"
proof (induction n rule: nat_to_string.induct)
  case (1 n)
  then show ?case by (subst nat_to_string.simps) auto
qed

lemma string_to_nat_snoc [simp]:
  "string_to_nat (s @ [c]) = 10 * string_to_nat s + digit_val c"
  by (simp add: string_to_nat_def)

lemma string_to_nat_nat_to_string [simp]: "string_to_nat (nat_to_string n) = n"
proof (induction n rule: nat_to_string.induct)
  case (1 n)
  show ?case
  proof (cases "n < 10")
    case True
    then show ?thesis
      by (subst nat_to_string.simps) (simp add: string_to_nat_def)
  next
    case False
    with 1 show ?thesis by (subst nat_to_string.simps) simp
  qed
qed

lemma nat_to_string_inject [simp]: "nat_to_string m = nat_to_string n \<longleftrightarrow> m = n"
  by (metis string_to_nat_nat_to_string)

lemma not_digit_chars [simp]:
  "\<not> is_digit CHR '':''" "\<not> is_digit CHR ''-''" "\<not> is_digit CHR ''.''" "\<not> is_digit CHR '',''" "\<not> is_digit CHR ''m''"
  by (simp_all add: is_digit_def)

lemma nat_to_string_no:
  assumes "\<not> is_digit c"
  shows "c \<notin> set (nat_to_string n)"
  using assms nat_to_string_digits by blast

lemma int_to_string_inject [simp]: "int_to_string i = int_to_string j \<longleftrightarrow> i = j"
proof -
  have "CHR ''-'' # s \<noteq> nat_to_string n" for s n
    using nat_to_string_no [of "CHR ''-''" n] by (metis list.set_intros(1) not_digit_chars(2))
  then show ?thesis
    unfolding int_to_string_def by (auto simp: nat_to_string_inject dest: sym)
qed

lemma int_to_string_no_colon [simp]: "CHR '':'' \<notin> set (int_to_string i)"
  by (simp add: int_to_string_def nat_to_string_no)

lemma int_to_string_no_comma: "CHR '','' \<notin> set (int_to_string i)"
  by (simp add: int_to_string_def nat_to_string_no)

lemma int_to_string_not_manual [simp]:
  "int_to_string i \<noteq> ''manual''" "''manual'' \<noteq> int_to_string i"
proof -
  have "CHR ''m'' \<notin> set (int_to_string i)"
    by (simp add: int_to_string_def nat_to_string_no)
  then show "int_to_string i \<noteq> ''manual''" "''manual'' \<noteq> int_to_string i"
    by (metis list.set_intros(1))+
qed

section \<open>JavaScript string operations\<close>

definition startsWith :: "string \<Rightarrow> string \<Rightarrow> bool" where
  "startsWith s p \<longleftrightarrow> take (length p) s = p"

fun split_on :: "char \<Rightarrow> string \<Rightarrow> string list" where
  "split_on c [] = [[]]"
| "split_on c (x # xs) =
     (if x = c then [] # split_on c xs
      else (case split_on c xs of [] \<Rightarrow> [[x]] | y # ys \<Rightarrow> (x # y) # ys))"

fun includes_str :: "string \<Rightarrow> string \<Rightarrow> bool" where
  "includes_str [] p \<longleftrightarrow> p = []"
| "includes_str (x # xs) p \<longleftrightarrow> startsWith (x # xs) p \<or> includes_str xs p"

definition is_space :: "char \<Rightarrow> bool" where
  "is_space c \<longleftrightarrow> of_char c \<in> {9, 10, 11, 12, 13, 32, 160 :: nat}"

definition trim :: "string \<Rightarrow> string" where
  "trim s = rev (dropWhile is_space (rev (dropWhile is_space s)))"

definition lower_char :: "char \<Rightarrow> char" where
  "lower_char c =
     (if 65 \<le> (of_char c :: nat) \<and> (of_char c :: nat) \<le> 90
      then char_of (of_char c + 32 :: nat) else c)"

definition toLowerCase :: "string \<Rightarrow> string" where
  "toLowerCase s = map lower_char s"

lemma split_on_nonempty [simp]: "split_on c s \<noteq> []"
  by (induction s) (auto split: list.splits)

lemma split_on_absent: "c \<notin> set s \<Longrightarrow> split_on c s = [s]"
  by (induction s) auto

lemma split_on_append_sep:
  "c \<notin> set s \<Longrightarrow> split_on c (s @ c # t) = s # split_on c t"
  by (induction s) auto

lemma split_on_pieces: "p \<in> set (split_on c s) \<Longrightarrow> c \<notin> set p"
  by (induction s arbitrary: p) (auto split: if_splits list.splits)

lemma startsWith_append [simp]: "startsWith (p @ s) p"
  by (simp add: startsWith_def)

lemma lower_char_digit: "is_digit c \<Longrightarrow> lower_char c = c"
  by (simp add: is_digit_def lower_char_def)

section \<open>Lists and options\<close>

text \<open>A text with a separator-free tail splits uniquely at its last separator.\<close>

lemma append_sep_inject:
  assumes "c \<notin> set t" "c \<notin> set t'" "s @ c # t = s' @ c # t'"
  shows "s = s' \<and> t = t'"
proof -
  let ?tail = "\<lambda>u. takeWhile (\<lambda>x. x \<noteq> c) (rev u)"
  have "?tail (u @ c # v) = rev v" if "c \<notin> set v" for u v
    using that by (subst rev_append) (simp, subst takeWhile_append2, auto)
  with assms have "rev t = rev t'" by metis
  then have "t = t'" by simp
  with assms(3) show ?thesis by simp
qed

text \<open>A text with a separator-free head splits uniquely at its first separator.\<close>

lemma append_first_sep:
  assumes "c \<notin> set s" "c \<notin> set s'"
  shows "s @ c # t = s' @ c # t' \<longleftrightarrow> s = s' \<and> t = t'"
proof
  assume eq: "s @ c # t = s' @ c # t'"
  have "takeWhile (\<lambda>x. x \<noteq> c) (u @ c # v) = u" if "c \<notin> set u" for u v
    using that by (subst takeWhile_append2) auto
  with assms eq have "s = s'" by metis
  with eq show "s = s' \<and> t = t'" by simp
qed simp

lemma list_update_sets:
  "i < length Hs \<Longrightarrow> (\<Union>(set (Hs[i := X]))) \<subseteq> X \<union> \<Union>(set Hs)"
  using set_update_subset_insert [of Hs i X] by blast

text \<open>A sequence that starts at or below a value and passes it has a step that crosses it.\<close>

lemma crossing_step:
  fixes tick :: "nat \<Rightarrow> int"
  assumes "tick 0 \<le> f" "f < tick n"
  shows "\<exists>k. tick k \<le> f \<and> f < tick (Suc k)"
  using assms(2)
proof (induction n)
  case (Suc n)
  then show ?case by (cases "f < tick n") (auto simp: not_less)
qed (use assms(1) in simp)

definition option_get_or :: "'a option \<Rightarrow> 'a \<Rightarrow> 'a" where \<comment> \<open>the \<open>??\<close> operator\<close>
  "option_get_or x d = (case x of None \<Rightarrow> d | Some y \<Rightarrow> y)"

lemma option_get_or_simps [simp]:
  "option_get_or None d = d" "option_get_or (Some y) d = y"
  by (simp_all add: option_get_or_def)

lemma ex_insert_row:
  "m a = None \<Longrightarrow> (\<exists>k v. (m(a \<mapsto> b)) k = Some v \<and> P v) \<longleftrightarrow> P b \<or> (\<exists>k v. m k = Some v \<and> P v)"
  by (auto split: if_splits) (metis option.distinct(1))

end
