(* ===== verification/Js_Number.thy ===== *)
theory Js_Number
  imports CronHive_Prelude Complex_Main "HOL-Library.Log_Nat"
begin

text \<open>
  JavaScript numbers. A number is NaN, an infinity or a finite double; a finite double is
  represented by its exact rational value (the sign of zero is not observed by the sources).
  \<open>dbl\<close> rounds a rational to the nearest double, ties to even, as every arithmetic operation of
  the language does; integers up to \<open>2 ^ 53\<close> in absolute value are doubles. \<open>js_Number\<close> is the
  conversion \<open>Number(s)\<close> of a string (also zod's \<open>coerce.number()\<close>).
\<close>

section \<open>Rounding to double precision\<close>

text \<open>The exponent of the leading bit: \<open>2 ^ E \<le> x < 2 ^ (E + 1)\<close>.\<close>

definition lead_exp :: "rat \<Rightarrow> int" where
  "lead_exp x =
     (if 1 \<le> x then int (floorlog 2 (nat \<lfloor>x\<rfloor>)) - 1
      else let l = int (floorlog 2 (nat \<lfloor>1 / x\<rfloor>)) - 1 in if x = 2 powi (- l) then - l else - l - 1)"

definition half_even :: "rat \<Rightarrow> int" where
  "half_even y =
     (let f = \<lfloor>y\<rfloor>; d = y - of_int f
      in if d < 1 / 2 then f else if d > 1 / 2 then f + 1 else if even f then f else f + 1)"

definition dbl_pos :: "rat \<Rightarrow> rat" where
  "dbl_pos x = (let e = max (lead_exp x - 52) (- 1074) in of_int (half_even (x / 2 powi e)) * 2 powi e)"

definition is_int :: "rat \<Rightarrow> bool" where
  "is_int x \<longleftrightarrow> of_int \<lfloor>x\<rfloor> = x"

definition dbl :: "rat \<Rightarrow> rat" where
  "dbl x = (if is_int x \<and> \<bar>x\<bar> \<le> 2 ^ 53 then x else if x < 0 then - dbl_pos (- x) else dbl_pos x)"

lemma dbl_of_int [simp]: "\<bar>n\<bar> \<le> 2 ^ 53 \<Longrightarrow> dbl (of_int n) = of_int n"
proof -
  assume "\<bar>n\<bar> \<le> 2 ^ 53"
  then have "of_int \<bar>n\<bar> \<le> (of_int (2 ^ 53) :: rat)" by (rule of_int_le_iff [THEN iffD2])
  then show ?thesis by (simp add: dbl_def is_int_def)
qed

lemma half_even_error: "\<bar>of_int (half_even y) - y\<bar> \<le> 1 / 2"
proof -
  obtain f where f: "\<lfloor>y\<rfloor> = f" by simp
  then have "of_int f \<le> y" "y < of_int f + 1"
    using floor_correct [of y] by simp_all
  then show ?thesis unfolding half_even_def Let_def f by (auto simp: abs_if field_simps)
qed

lemma half_even_between: "\<lfloor>y\<rfloor> \<le> half_even y" "half_even y \<le> \<lceil>y\<rceil>"
proof -
  show "\<lfloor>y\<rfloor> \<le> half_even y" by (simp add: half_even_def Let_def)
  show "half_even y \<le> \<lceil>y\<rceil>"
  proof (cases "y - of_int \<lfloor>y\<rfloor> < 1 / 2")
    case True
    then show ?thesis by (simp add: half_even_def Let_def floor_le_ceiling)
  next
    case False
    then have "\<lceil>y\<rceil> = \<lfloor>y\<rfloor> + 1"
      by (simp add: ceiling_altdef)
    then show ?thesis by (simp add: half_even_def Let_def)
  qed
qed

text \<open>The leading exponent of a number at least one is right.\<close>

lemma lead_exp_bounds:
  assumes "1 \<le> x"
  shows "0 \<le> lead_exp x" "2 powi (lead_exp x) \<le> x" "x < 2 powi (lead_exp x + 1)"
proof -
  obtain n where ndef: "nat \<lfloor>x\<rfloor> = n" by simp
  have n: "1 \<le> n" unfolding ndef [symmetric] using assms by (simp add: le_nat_iff)
  have fl: "of_nat n \<le> x" "x < of_nat n + 1"
    using assms floor_correct [of x] by (simp_all add: ndef [symmetric])
  let ?l = "floorlog 2 n"
  have l: "0 < ?l" using n by (simp add: floorlog_def)
  have up: "n < 2 ^ ?l" and lo: "2 ^ (?l - 1) \<le> n"
    using floorlog_bounds [of n 2] n by auto
  have e: "lead_exp x = int (?l - 1)"
    using assms l by (simp add: lead_exp_def ndef of_nat_diff)
  then show "0 \<le> lead_exp x" by simp
  have "(2 :: rat) powi (lead_exp x) = of_nat (2 ^ (?l - 1))"
    by (simp add: e)
  also have "\<dots> \<le> of_nat n" using lo by (rule of_nat_le_iff [THEN iffD2])
  finally show "2 powi (lead_exp x) \<le> x" using fl by simp
  have "x < of_nat (n + 1)" using fl by simp
  also have "of_nat (n + 1) \<le> (of_nat (2 ^ ?l) :: rat)"
    using up by (intro of_nat_le_iff [THEN iffD2]) simp
  also have "(of_nat (2 ^ ?l) :: rat) = 2 powi (int ?l)" by simp
  also have "int ?l = lead_exp x + 1" using e l by simp
  finally show "x < 2 powi (lead_exp x + 1)" .
qed

text \<open>The relative rounding error is at most \<open>2 ^ -53\<close>.\<close>

lemma dbl_pos_error:
  assumes "1 \<le> x"
  shows "\<bar>dbl_pos x - x\<bar> \<le> x / 2 ^ 53"
proof -
  define e where "e = lead_exp x - 52"
  have m: "max (lead_exp x - 52) (- 1074) = e"
    using lead_exp_bounds(1) [OF assms] by (simp add: e_def)
  have p: "(2 :: rat) powi e > 0" by simp
  have "dbl_pos x - x = (of_int (half_even (x / 2 powi e)) - x / 2 powi e) * 2 powi e"
    using p by (simp add: dbl_pos_def m field_simps)
  then have "\<bar>dbl_pos x - x\<bar> = \<bar>of_int (half_even (x / 2 powi e)) - x / 2 powi e\<bar> * 2 powi e"
    using p by (simp add: abs_mult)
  also have "\<dots> \<le> 1 / 2 * 2 powi e"
    using half_even_error p by (intro mult_right_mono) auto
  also have "\<dots> = 2 powi (lead_exp x) / 2 ^ 53"
    by (simp add: e_def power_int_diff)
  also have "\<dots> \<le> x / 2 ^ 53"
    using lead_exp_bounds(2) [OF assms] by (simp add: divide_right_mono)
  finally show ?thesis .
qed

lemma dbl_half: "1 \<le> x \<Longrightarrow> x / 2 \<le> dbl x"
proof -
  assume x: "1 \<le> x"
  have "x - x / 2 ^ 53 \<le> dbl_pos x" using dbl_pos_error [OF x] by linarith
  with x have "x / 2 \<le> dbl_pos x" by simp
  with x show ?thesis by (simp add: dbl_def)
qed

lemma dbl_nonneg: "0 \<le> x \<Longrightarrow> 0 \<le> dbl x"
proof -
  assume x: "0 \<le> x"
  let ?e = "max (lead_exp x - 52) (- 1074)"
  have "0 \<le> half_even (x / 2 powi ?e)"
    using half_even_between(1) [of "x / 2 powi ?e"] x by (meson order_trans zero_le_floor divide_nonneg_nonneg zero_le_power_int zero_le_numeral)
  then have "0 \<le> dbl_pos x" by (simp add: dbl_pos_def Let_def)
  with x show ?thesis by (simp add: dbl_def)
qed

text \<open>Below one: the leading exponent is right too, and a number rounds to a positive one of at most one.\<close>

lemma lead_exp_small:
  assumes "0 < x" "x < 1"
  shows "2 powi (lead_exp x) \<le> x" "x < 2 powi (lead_exp x + 1)"
proof -
  define k where "k = 1 / x"
  have k: "1 \<le> k" "x = 1 / k" using assms by (simp_all add: k_def)
  obtain n where ndef: "nat \<lfloor>k\<rfloor> = n" by simp
  define l where "l = int (floorlog 2 n) - 1"
  have "l = lead_exp k" using k(1) by (simp add: lead_exp_def l_def ndef)
  then have l: "2 powi l \<le> k" "k < 2 powi (l + 1)" using lead_exp_bounds [OF k(1)] by simp_all
  have e: "lead_exp x = (if x = 2 powi (- l) then - l else - l - 1)"
    using assms by (simp add: lead_exp_def Let_def l_def flip: ndef k_def)
  have "x \<le> 1 / 2 powi l" using l(1) k by (simp add: frac_le)
  then have up: "x \<le> 2 powi (- l)" by (simp add: power_int_minus field_simps)
  have "1 / 2 powi (l + 1) < x" using l(2) k by (simp add: frac_less2)
  then have lo: "2 powi (- l - 1) < x" by (simp add: power_int_minus power_int_add power_int_diff field_simps)
  show "2 powi (lead_exp x) \<le> x" using lo by (simp add: e)
  show "x < 2 powi (lead_exp x + 1)" using up by (auto simp: e power_int_diff power_int_add)
qed

lemma powi_two_less: "(2 :: rat) powi a < 2 powi b \<Longrightarrow> a < b"
  by (rule ccontr) (use power_int_increasing [of b a "2 :: rat"] in auto)

lemma dbl_unit:
  assumes "1 / 2 ^ 53 \<le> x" "x < 1"
  shows "0 < dbl x" "dbl x \<le> 1"
proof -
  have "0 < (1 :: rat) / 2 ^ 53" by simp
  with assms(1) have pos: "0 < x" by linarith
  let ?E = "lead_exp x"
  note E = lead_exp_small [OF pos assms(2)]
  have "(2 :: rat) powi (- 53) < 2 powi (?E + 1)" using assms(1) E(2) by (simp add: power_int_minus field_simps)
  then have "- 53 < ?E + 1" by (rule powi_two_less)
  then have m: "max (?E - 52) (- 1074) = ?E - 52" by simp
  have "(2 :: rat) powi ?E < 2 powi 0" using E(1) assms(2) by simp
  then have neg: "?E < 0" by (rule powi_two_less)
  let ?y = "x / 2 powi (?E - 52)"
  have p: "(0 :: rat) < 2 powi (?E - 52)" by simp
  have "2 ^ 52 \<le> ?y" using E(1) by (simp add: power_int_diff field_simps)
  then have "1 \<le> ?y" by (rule order_trans [rotated]) simp
  then have "1 \<le> \<lfloor>?y\<rfloor>" by (simp only: le_floor_iff of_int_1)
  then have "1 \<le> half_even ?y" using half_even_between(1) [of ?y] by linarith
  then have "0 < dbl_pos x" using p by (simp add: dbl_pos_def m Let_def)
  moreover have "?y \<le> 2 ^ 53" using E(2) by (simp add: power_int_diff power_int_add field_simps)
  then have "\<lceil>?y\<rceil> \<le> 2 ^ 53" by (simp add: ceiling_le_iff)
  then have "half_even ?y \<le> 2 ^ 53" using half_even_between(2) [of ?y] by linarith
  then have "of_int (half_even ?y) \<le> (of_int (2 ^ 53) :: rat)" by (rule of_int_le_iff [THEN iffD2])
  then have "of_int (half_even ?y) * 2 powi (?E - 52) \<le> (of_int (2 ^ 53) :: rat) * 2 powi (?E - 52)"
    by (rule mult_right_mono) simp
  then have "dbl_pos x \<le> 2 powi (?E + 1)" by (simp add: dbl_pos_def m power_int_diff power_int_add Let_def)
  moreover have "(2 :: rat) powi (?E + 1) \<le> 2 powi 0" using neg by (intro power_int_increasing) simp_all
  ultimately have "0 < dbl_pos x" "dbl_pos x \<le> 1" by simp_all
  moreover have "\<not> is_int x"
  proof
    assume "is_int x"
    moreover have "\<lfloor>x\<rfloor> = 0" using pos assms(2) by (simp add: floor_eq_iff)
    ultimately show False using pos by (simp add: is_int_def)
  qed
  ultimately show "0 < dbl x" "dbl x \<le> 1" using pos by (simp_all add: dbl_def)
qed

text \<open>Rounding a quotient of integers up is not disturbed by the double precision of the quotient.\<close>

lemma ceiling_dbl_quotient:
  assumes "0 \<le> m" "m < 2 ^ 53" "1 \<le> d" "d \<le> 2 ^ 53"
  shows "\<lceil>dbl (of_int m / of_int d)\<rceil> = \<lceil>(of_int m :: rat) / of_int d\<rceil>"
proof -
  let ?x = "(of_int m :: rat) / of_int d"
  have m53: "(of_int m :: rat) < of_int (2 ^ 53)" using assms by (intro of_int_less_iff [THEN iffD2])
  have d1: "of_int 1 \<le> (of_int d :: rat)" using assms by (intro of_int_le_iff [THEN iffD2])
  have d53: "(of_int d :: rat) \<le> of_int (2 ^ 53)" using assms by (intro of_int_le_iff [THEN iffD2])
  have m0: "0 \<le> (of_int m :: rat)" using assms by simp
  have xm: "?x \<le> of_int m" using m0 d1 by (simp add: divide_le_eq mult_le_cancel_left1 flip: of_int_mult)
  consider "is_int ?x" | "\<not> is_int ?x" "1 \<le> ?x" | "\<not> is_int ?x" "?x < 1" by fastforce
  then show ?thesis
  proof cases
    case 1
    with m53 m0 d1 xm have "dbl ?x = ?x" by (simp add: dbl_def)
    then show ?thesis by (simp only:)
  next
    case 2
    define k r where "k = m div d" and "r = m mod d"
    have "m = d * k + r" by (simp add: k_def r_def)
    then have "of_int m = (of_int d * of_int k + of_int r :: rat)" by (simp flip: of_int_mult of_int_add)
    then have split: "?x = of_int k + of_int r / of_int d" using d1 by (simp add: field_simps)
    have r: "1 \<le> r" "r \<le> d - 1"
    proof -
      have "r \<noteq> 0" using 2(1) split by (auto simp: is_int_def)
      moreover have "0 \<le> r" "r < d" using assms(3) by (simp_all add: r_def)
      ultimately show "1 \<le> r" "r \<le> d - 1" by simp_all
    qed
    then have "of_int 1 \<le> (of_int r :: rat)" "of_int r \<le> (of_int (d - 1) :: rat)"
      by (simp_all only: of_int_le_iff)
    then have rr: "1 / of_int d \<le> (of_int r :: rat) / of_int d" "(of_int r :: rat) / of_int d \<le> 1 - 1 / of_int d"
      using d1 by (simp_all add: field_simps)
    have err: "\<bar>dbl ?x - ?x\<bar> < 1 / of_int d"
    proof -
      have "dbl ?x = dbl_pos ?x" using 2 by (simp add: dbl_def)
      then have "\<bar>dbl ?x - ?x\<bar> \<le> ?x / 2 ^ 53" using dbl_pos_error [of ?x] 2 by simp
      also have "\<dots> < 1 / of_int d" using m53 d1 by (simp add: field_simps)
      finally show ?thesis .
    qed
    have "of_int k < dbl ?x" "dbl ?x < of_int k + 1"
      using err split rr by linarith+
    then have "\<lceil>dbl ?x\<rceil> = k + 1" by (simp add: ceiling_eq_iff)
    moreover have "of_int k < ?x" "?x \<le> of_int k + 1" using split rr d1 by (simp_all add: field_simps)
    then have "\<lceil>?x\<rceil> = k + 1" by (simp add: ceiling_eq_iff)
    ultimately show ?thesis by simp
  next
    case 3
    have "m \<noteq> 0" using 3 by (auto simp: is_int_def)
    then have "1 \<le> m" using assms(1) by simp
    then have "of_int 1 \<le> (of_int m :: rat)" by (rule of_int_le_iff [THEN iffD2])
    then have "1 / 2 ^ 53 \<le> ?x" using d53 d1 by (intro frac_le) simp_all
    note u = dbl_unit [OF this 3(2)]
    have "\<lceil>dbl ?x\<rceil> = 1" using u by (simp add: ceiling_eq_iff)
    moreover have "0 < ?x" using \<open>1 \<le> m\<close> d1 by simp
    then have "\<lceil>?x\<rceil> = 1" using 3(2) by (simp add: ceiling_eq_iff)
    ultimately show ?thesis by simp
  qed
qed

section \<open>Numbers and \<open>Number(s)\<close>\<close>

datatype jsnum = NaN | PosInf | NegInf | Fin rat

definition js_of_rat :: "rat \<Rightarrow> jsnum" where
  "js_of_rat x =
     (if x \<ge> 2 ^ 1024 - 2 ^ 970 then PosInf else if x \<le> - (2 ^ 1024 - 2 ^ 970) then NegInf
      else Fin (dbl x))"

fun falsy_num :: "jsnum \<Rightarrow> bool" where
  "falsy_num NaN = True"
| "falsy_num (Fin x) = (x = 0)"
| "falsy_num _ = False"

definition all_digits :: "string \<Rightarrow> bool" where
  "all_digits s \<longleftrightarrow> list_all is_digit s"

definition radix_digit :: "nat \<Rightarrow> char \<Rightarrow> nat option" where
  "radix_digit b c =
     (let d = (if is_digit c then digit_val c else of_char (lower_char c) - 87)
      in if (is_digit c \<or> (97 \<le> (of_char (lower_char c) :: nat) \<and> (of_char (lower_char c) :: nat) \<le> 102))
            \<and> d < b then Some d else None)"

fun radix_val :: "nat \<Rightarrow> nat \<Rightarrow> string \<Rightarrow> nat option" where
  "radix_val b acc [] = Some acc"
| "radix_val b acc (c # cs) =
     (case radix_digit b c of None \<Rightarrow> None | Some d \<Rightarrow> radix_val b (b * acc + d) cs)"

definition radix_literal :: "nat \<Rightarrow> string \<Rightarrow> jsnum" where
  "radix_literal b s =
     (if s = [] then NaN else case radix_val b 0 s of None \<Rightarrow> NaN | Some n \<Rightarrow> js_of_rat (of_nat n))"

definition exponent_part :: "string \<Rightarrow> int option" where \<comment> \<open>after the \<open>e\<close>\<close>
  "exponent_part s = (case s of
     [] \<Rightarrow> None
   | c # cs \<Rightarrow>
      if c = CHR ''+'' then if cs \<noteq> [] \<and> all_digits cs then Some (int (string_to_nat cs)) else None
      else if c = CHR ''-'' then if cs \<noteq> [] \<and> all_digits cs then Some (- int (string_to_nat cs)) else None
      else if all_digits s then Some (int (string_to_nat s)) else None)"

definition mantissa_part :: "string \<Rightarrow> (nat \<times> nat) option" where
  \<comment> \<open>the digits as a number and how many of them follow the point\<close>
  "mantissa_part s = (case split_on CHR ''.'' s of
     [ip] \<Rightarrow> if ip \<noteq> [] \<and> all_digits ip then Some (string_to_nat ip, 0) else None
   | [ip, fp] \<Rightarrow> if (ip \<noteq> [] \<or> fp \<noteq> []) \<and> all_digits (ip @ fp)
       then Some (string_to_nat (ip @ fp), length fp) else None
   | _ \<Rightarrow> None)"

definition unsigned_decimal :: "string \<Rightarrow> rat option" where
  "unsigned_decimal s =
     (let isE = (\<lambda>c. c = CHR ''e'' \<or> c = CHR ''E'');
          m = takeWhile (\<lambda>c. \<not> isE c) s; rest = dropWhile (\<lambda>c. \<not> isE c) s
      in case mantissa_part m of
           None \<Rightarrow> None
         | Some (n, k) \<Rightarrow>
             (case (if rest = [] then Some 0 else exponent_part (tl rest)) of
                None \<Rightarrow> None
              | Some e \<Rightarrow> Some (of_nat n * 10 powi (e - int k))))"

fun sign_and_rest :: "string \<Rightarrow> bool \<times> string" where
  "sign_and_rest [] = (False, [])"
| "sign_and_rest (c # cs) =
     (if c = CHR ''-'' then (True, cs) else if c = CHR ''+'' then (False, cs) else (False, c # cs))"

definition js_Number :: "string \<Rightarrow> jsnum" where
  "js_Number s =
     (let t = trim s in
      if t = [] then Fin 0
      else if startsWith (toLowerCase t) ''0x'' then radix_literal 16 (drop 2 t)
      else if startsWith (toLowerCase t) ''0o'' then radix_literal 8 (drop 2 t)
      else if startsWith (toLowerCase t) ''0b'' then radix_literal 2 (drop 2 t)
      else case sign_and_rest t of (neg, u) \<Rightarrow>
        if u = ''Infinity'' then (if neg then NegInf else PosInf)
        else case unsigned_decimal u of None \<Rightarrow> NaN
             | Some x \<Rightarrow> js_of_rat (if neg then - x else x))"

section \<open>Decimal digits\<close>

lemma digit_not_space: "is_digit c \<Longrightarrow> \<not> is_space c"
  by (auto simp: is_digit_def is_space_def)

lemma trim_digits: "all_digits s \<Longrightarrow> trim s = s"
proof -
  have none: "list_all (\<lambda>c. \<not> is_space c) t \<Longrightarrow> dropWhile is_space t = t" for t by (cases t) auto
  assume "all_digits s"
  then have "list_all (\<lambda>c. \<not> is_space c) s"
    by (auto simp: all_digits_def list_all_iff digit_not_space)
  with none [of s] none [of "rev s"] show ?thesis by (simp add: trim_def)
qed

lemma digits_lower: "all_digits s \<Longrightarrow> toLowerCase s = s"
  by (induction s) (auto simp: all_digits_def toLowerCase_def lower_char_digit)

lemma js_Number_digits:
  assumes "s \<noteq> []" "all_digits s" "string_to_nat s \<le> 2 ^ 53"
  shows "js_Number s = Fin (of_nat (string_to_nat s))"
proof -
  obtain c cs where s: "s = c # cs" using assms(1) by (cases s) auto
  have dig: "is_digit c" "\<forall>d \<in> set s. is_digit d" using assms(2) by (auto simp: s all_digits_def list_all_iff)
  have radix: "\<not> startsWith s [CHR ''0'', x]" if "\<not> is_digit x" for x
  proof
    assume "startsWith s [CHR ''0'', x]"
    then have "take (length [CHR ''0'', x]) s = [CHR ''0'', x]" unfolding startsWith_def .
    then have "x \<in> set (take (length [CHR ''0'', x]) s)" by (metis list.set_intros)
    with dig(2) that show False by (meson in_set_takeD)
  qed
  have plain: "sign_and_rest s = (False, s)" "s \<noteq> ''Infinity''"
    using dig(1) by (auto simp: s is_digit_def)
  have noE: "takeWhile (\<lambda>c. \<not> (c = CHR ''e'' \<or> c = CHR ''E'')) s = s" "dropWhile (\<lambda>c. \<not> (c = CHR ''e'' \<or> c = CHR ''E'')) s = []"
    using dig(2) by (auto simp: is_digit_def)
  have "CHR ''.'' \<notin> set s" using dig(2) not_digit_chars(3) by blast
  then have "mantissa_part s = Some (string_to_nat s, 0)"
    using assms(1,2) by (simp add: mantissa_part_def split_on_absent)
  then have "unsigned_decimal s = Some (of_nat (string_to_nat s))"
    unfolding unsigned_decimal_def Let_def noE by simp
  moreover have "js_of_rat (of_nat (string_to_nat s)) = Fin (of_nat (string_to_nat s))"
  proof -
    have "(of_nat (string_to_nat s) :: rat) \<le> of_nat (2 ^ 53)" using assms(3) by (rule of_nat_le_iff [THEN iffD2])
    moreover have "dbl (of_int (int (string_to_nat s))) = of_int (int (string_to_nat s))"
      using assms(3) by (intro dbl_of_int) simp
    ultimately show ?thesis by (simp add: js_of_rat_def)
  qed
  moreover have "\<not> is_digit CHR ''x''" "\<not> is_digit CHR ''o''" "\<not> is_digit CHR ''b''" by (simp_all add: is_digit_def)
  ultimately show ?thesis
    using plain radix assms(1) unfolding js_Number_def
    by (simp add: trim_digits [OF assms(2)] digits_lower [OF assms(2)] Let_def)
qed

lemma js_Number_nat: "n \<le> 2 ^ 53 \<Longrightarrow> js_Number (nat_to_string n) = Fin (of_nat n)"
  using js_Number_digits [of "nat_to_string n"] nat_to_string_digits [of n]
  by (simp add: all_digits_def list_all_iff)

end
