(* ===== verification/Env_Config.thy ===== *)
theory Env_Config
  imports Js_Number
begin

text \<open>
  The configuration of \<open>src/config/env.ts\<close>: the record \<open>Env\<close> that \<open>loadEnv\<close> returns, with one
  field per variable of the zod schema.
\<close>

datatype node_env = Development | Production | Test

record env =
  NODE_ENV :: node_env
  DATABASE_URL :: string
  REDIS_URL :: string
  API_PORT :: int
  LOCK_BUFFER_MS :: int
  CIRCUIT_BREAKER_CONSECUTIVE_DEAD :: int
  DEFAULT_CALLBACK_TIMEOUT_MS :: int
  SCHEDULER_SCAN_MS :: int
  CRONHIVE_SIGNING_SECRET :: string
  WORKER_CONCURRENCY :: int
  LOG_LEVEL :: string
  SCHEDULER_METRICS_PORT :: int
  WORKER_METRICS_PORT :: int
  LEADER_LEASE_MS :: int
  SCHEDULER_LEADER_ELECTION :: bool
  CRONHIVE_API_KEYS :: string
  CRONHIVE_ALLOW_PRIVATE_CALLBACKS :: bool
  RATE_LIMIT_MAX :: int
  RATE_LIMIT_WINDOW_MS :: int

text \<open>What every loaded configuration satisfies: the numeric checks of the schema.\<close>

definition env_wf :: "env \<Rightarrow> bool" where
  "env_wf c \<longleftrightarrow>
     DATABASE_URL c \<noteq> [] \<and> REDIS_URL c \<noteq> [] \<and> 0 < API_PORT c \<and> 0 \<le> LOCK_BUFFER_MS c \<and>
     0 < CIRCUIT_BREAKER_CONSECUTIVE_DEAD c \<and> 0 < DEFAULT_CALLBACK_TIMEOUT_MS c \<and>
     0 < SCHEDULER_SCAN_MS c \<and> CRONHIVE_SIGNING_SECRET c \<noteq> [] \<and> 0 < WORKER_CONCURRENCY c \<and>
     LOG_LEVEL c \<in> {''fatal'', ''error'', ''warn'', ''info'', ''debug'', ''trace''} \<and>
     0 < SCHEDULER_METRICS_PORT c \<and> 0 < WORKER_METRICS_PORT c \<and> 0 < LEADER_LEASE_MS c \<and>
     0 < RATE_LIMIT_MAX c \<and> 0 < RATE_LIMIT_WINDOW_MS c"

section \<open>Parsing \<open>process.env\<close>\<close>

text \<open>
  One field of the schema: an absent variable takes its default, a present one must satisfy its
  check. A failed field makes \<open>safeParse\<close> fail; \<open>None\<close> is that failure.
\<close>

type_synonym process_env = "string \<Rightarrow> string option"

text \<open>\<open>z.coerce.number().int()\<close> with a lower bound, and its default.\<close>

definition env_int :: "(int \<Rightarrow> bool) \<Rightarrow> int \<Rightarrow> string option \<Rightarrow> int option" where
  "env_int ok d v = (case v of None \<Rightarrow> Some d
     | Some s \<Rightarrow> (case js_Number s of
          Fin x \<Rightarrow> if is_int x \<and> ok \<lfloor>x\<rfloor> then Some \<lfloor>x\<rfloor> else None
        | _ \<Rightarrow> None))"

abbreviation (input) positive :: "int \<Rightarrow> bool" where "positive n \<equiv> 0 < n"
abbreviation (input) nonnegative :: "int \<Rightarrow> bool" where "nonnegative n \<equiv> 0 \<le> n"

definition env_nonempty :: "string option \<Rightarrow> string option" where \<comment> \<open>\<open>z.string().min(1)\<close>\<close>
  "env_nonempty v = (case v of None \<Rightarrow> None | Some s \<Rightarrow> if s = [] then None else Some s)"

definition env_bool :: "bool \<Rightarrow> string option \<Rightarrow> bool option" where
  \<comment> \<open>\<open>z.enum(["true", "false"]).default(d).transform(v => v === "true")\<close>\<close>
  "env_bool d v = (case v of None \<Rightarrow> Some d
     | Some s \<Rightarrow> if s = ''true'' then Some True else if s = ''false'' then Some False else None)"

definition env_node :: "string option \<Rightarrow> node_env option" where
  "env_node v = (case v of None \<Rightarrow> Some Development
     | Some s \<Rightarrow> if s = ''development'' then Some Development
        else if s = ''production'' then Some Production
        else if s = ''test'' then Some Test else None)"

definition env_level :: "string option \<Rightarrow> string option" where
  "env_level v = (case v of None \<Rightarrow> Some ''info''
     | Some s \<Rightarrow> if s \<in> {''fatal'', ''error'', ''warn'', ''info'', ''debug'', ''trace''}
         then Some s else None)"

definition envSchema :: "process_env \<Rightarrow> env option" where
  "envSchema p =
     Option.bind (env_node (p ''NODE_ENV'')) (\<lambda>node.
     Option.bind (env_nonempty (p ''DATABASE_URL'')) (\<lambda>db.
     Option.bind (env_nonempty (p ''REDIS_URL'')) (\<lambda>rd.
     Option.bind (env_int positive 3000 (p ''API_PORT'')) (\<lambda>port.
     Option.bind (env_int nonnegative 10000 (p ''LOCK_BUFFER_MS'')) (\<lambda>buf.
     Option.bind (env_int positive 10 (p ''CIRCUIT_BREAKER_CONSECUTIVE_DEAD'')) (\<lambda>cb.
     Option.bind (env_int positive 30000 (p ''DEFAULT_CALLBACK_TIMEOUT_MS'')) (\<lambda>cto.
     Option.bind (env_int positive 60000 (p ''SCHEDULER_SCAN_MS'')) (\<lambda>scan.
     Option.bind (case p ''CRONHIVE_SIGNING_SECRET'' of
         None \<Rightarrow> Some ''replace_this_with_a_secure_secret'' | Some s \<Rightarrow> env_nonempty (Some s)) (\<lambda>sec.
     Option.bind (env_int positive 5 (p ''WORKER_CONCURRENCY'')) (\<lambda>wc.
     Option.bind (env_level (p ''LOG_LEVEL'')) (\<lambda>lvl.
     Option.bind (env_int positive 9101 (p ''SCHEDULER_METRICS_PORT'')) (\<lambda>smp.
     Option.bind (env_int positive 9102 (p ''WORKER_METRICS_PORT'')) (\<lambda>wmp.
     Option.bind (env_int positive 10000 (p ''LEADER_LEASE_MS'')) (\<lambda>lease.
     Option.bind (env_bool True (p ''SCHEDULER_LEADER_ELECTION'')) (\<lambda>elect.
     Option.bind (env_bool False (p ''CRONHIVE_ALLOW_PRIVATE_CALLBACKS'')) (\<lambda>priv.
     Option.bind (env_int positive 100 (p ''RATE_LIMIT_MAX'')) (\<lambda>rmax.
     Option.bind (env_int positive 60000 (p ''RATE_LIMIT_WINDOW_MS'')) (\<lambda>rwin.
     Some \<lparr>NODE_ENV = node, DATABASE_URL = db, REDIS_URL = rd, API_PORT = port,
       LOCK_BUFFER_MS = buf, CIRCUIT_BREAKER_CONSECUTIVE_DEAD = cb,
       DEFAULT_CALLBACK_TIMEOUT_MS = cto, SCHEDULER_SCAN_MS = scan,
       CRONHIVE_SIGNING_SECRET = sec, WORKER_CONCURRENCY = wc, LOG_LEVEL = lvl,
       SCHEDULER_METRICS_PORT = smp, WORKER_METRICS_PORT = wmp, LEADER_LEASE_MS = lease,
       SCHEDULER_LEADER_ELECTION = elect,
       CRONHIVE_API_KEYS = option_get_or (p ''CRONHIVE_API_KEYS'') [],
       CRONHIVE_ALLOW_PRIVATE_CALLBACKS = priv, RATE_LIMIT_MAX = rmax,
       RATE_LIMIT_WINDOW_MS = rwin\<rparr>))))))))))))))))))"

section \<open>The cached configuration\<close>

text \<open>
  \<open>loadEnv\<close> parses once and caches; \<open>Inl ()\<close> is the thrown \<open>Invalid environment\<close>. The module
  variable \<open>cached\<close> is the state it threads.
\<close>

definition loadEnv :: "process_env \<Rightarrow> env option \<Rightarrow> (unit + env) \<times> env option" where
  "loadEnv p cached = (case cached of
     Some c \<Rightarrow> (Inr c, cached)
   | None \<Rightarrow> (case envSchema p of
        None \<Rightarrow> (Inl (), None)
      | Some c \<Rightarrow> (Inr c, Some c)))"

definition resetEnvCache :: "env option \<Rightarrow> env option" where
  "resetEnvCache cached = None"

lemma env_int_ok: "env_int ok d v = Some n \<Longrightarrow> ok d \<Longrightarrow> ok n"
  by (auto simp: env_int_def split: option.splits jsnum.splits if_splits)

lemma env_nonempty_ok: "env_nonempty v = Some s \<Longrightarrow> s \<noteq> []"
  by (auto simp: env_nonempty_def split: option.splits if_splits)

lemma env_level_ok: "env_level v = Some s \<Longrightarrow>
    s \<in> {''fatal'', ''error'', ''warn'', ''info'', ''debug'', ''trace''}"
  by (auto simp: env_level_def split: option.splits if_splits)

text \<open>The configuration of a process with only the two required variables set.\<close>

definition default_env :: env where
  "default_env = \<lparr>NODE_ENV = Development, DATABASE_URL = ''postgresql://localhost/cronhive'',
     REDIS_URL = ''redis://localhost:6379'', API_PORT = 3000, LOCK_BUFFER_MS = 10000,
     CIRCUIT_BREAKER_CONSECUTIVE_DEAD = 10, DEFAULT_CALLBACK_TIMEOUT_MS = 30000,
     SCHEDULER_SCAN_MS = 60000, CRONHIVE_SIGNING_SECRET = ''replace_this_with_a_secure_secret'',
     WORKER_CONCURRENCY = 5, LOG_LEVEL = ''info'', SCHEDULER_METRICS_PORT = 9101,
     WORKER_METRICS_PORT = 9102, LEADER_LEASE_MS = 10000, SCHEDULER_LEADER_ELECTION = True,
     CRONHIVE_API_KEYS = [], CRONHIVE_ALLOW_PRIVATE_CALLBACKS = False, RATE_LIMIT_MAX = 100,
     RATE_LIMIT_WINDOW_MS = 60000\<rparr>"

lemma envSchema_default:
  "envSchema [''DATABASE_URL'' \<mapsto> ''postgresql://localhost/cronhive'',
     ''REDIS_URL'' \<mapsto> ''redis://localhost:6379''] = Some default_env"
  by (simp add: envSchema_def env_node_def env_nonempty_def env_int_def env_level_def env_bool_def
      default_env_def)

lemma bind_SomeE: "Option.bind x f = Some c \<Longrightarrow> (\<And>y. x = Some y \<Longrightarrow> f y = Some c \<Longrightarrow> P) \<Longrightarrow> P"
  by (cases x) simp_all

lemma env_int_pos: "env_int (\<lambda>n. 0 < n) d v = Some n \<Longrightarrow> 0 < d \<Longrightarrow> 0 < n"
  by (rule env_int_ok)

lemma env_int_nonneg: "env_int (\<lambda>n. 0 \<le> n) d v = Some n \<Longrightarrow> 0 \<le> d \<Longrightarrow> 0 \<le> n"
  by (rule env_int_ok)

lemma env_secret_ok:
  "(case v of None \<Rightarrow> Some (c # cs) | Some s \<Rightarrow> env_nonempty (Some s)) = Some t \<Longrightarrow> t \<noteq> []"
  by (auto simp: env_nonempty_def split: option.splits if_splits)

text \<open>
  Every configuration that the schema accepts satisfies the bounds the rest of the code
  relies on (positive intervals, timeouts, thresholds and ports, non-empty URLs and secret, a
  known log level); so does every configuration that \<open>loadEnv\<close> returns or caches.
\<close>

theorem loadEnv_wf:
  assumes "\<forall>c. cached = Some c \<longrightarrow> env_wf c" "loadEnv p cached = (res, cached')"
  shows "(\<forall>c. res = Inr c \<longrightarrow> env_wf c \<and> cached' = Some c) \<and> (\<forall>c. cached' = Some c \<longrightarrow> env_wf c)"
proof -
  have wf: "env_wf c" if "envSchema p = Some c" for c
    using that unfolding envSchema_def
    by - (elim bind_SomeE, drule option.inject [THEN iffD1], hypsubst, simp add: env_wf_def, intro conjI;
       (erule env_int_pos, simp | erule env_int_nonneg, simp | erule env_nonempty_ok |
        erule env_secret_ok | drule env_level_ok, simp))
  with assms show ?thesis by (auto simp: loadEnv_def split: option.splits)
qed

theorem loadEnv_wf_witness:
  "let p = [''DATABASE_URL'' \<mapsto> ''postgresql://localhost/cronhive'', ''REDIS_URL'' \<mapsto> ''redis://localhost:6379'']
   in loadEnv p None = (Inr default_env, Some default_env) \<and> env_wf default_env"
proof -
  let ?p = "[''DATABASE_URL'' \<mapsto> ''postgresql://localhost/cronhive'', ''REDIS_URL'' \<mapsto> ''redis://localhost:6379'']"
  have l: "loadEnv ?p None = (Inr default_env, Some default_env)"
    by (simp only: loadEnv_def envSchema_default option.simps)
  from loadEnv_wf [OF _ l] have "env_wf default_env" by simp
  with l show ?thesis by (simp only: Let_def simp_thms)
qed

end
