(* ===== verification/Connections.thy ===== *)
theory Connections
  imports Env_Config
begin

text \<open>
  The clients that \<open>src/lib/redis.ts\<close>, \<open>src/lib/prisma.ts\<close> and \<open>src/lib/logger.ts\<close> construct: the options that the
  code passes. What the clients do with them is the libraries'; their calls are the services of theory \<open>Service_Calls\<close>.
\<close>

record redis_options =
  ro_url :: string
  ro_maxRetriesPerRequest :: "int option" \<comment> \<open>\<open>null\<close> is \<open>None\<close>: retry for ever\<close>
  ro_enableReadyCheck :: bool

definition createRedis :: "env \<Rightarrow> redis_options" where
  "createRedis cfg = \<lparr>ro_url = REDIS_URL cfg, ro_maxRetriesPerRequest = None, ro_enableReadyCheck = True\<rparr>"

text \<open>The log levels of Prisma depend on the variable itself, not on the parsed configuration with its default.\<close>

definition prisma_log :: "process_env \<Rightarrow> string list" where
  "prisma_log vars = (if vars ''NODE_ENV'' = Some ''development'' then [''error'', ''warn''] else [''error''])"

record logger_options =
  lo_level :: string
  lo_service :: string

definition logger :: "env \<Rightarrow> logger_options" where
  "logger cfg = \<lparr>lo_level = LOG_LEVEL cfg, lo_service = ''cronhive''\<rparr>"

end
