(* ===== verification/Schema.thy ===== *)
theory Schema
  imports CronHive_Prelude
begin

text \<open>
  The data CronHive stores and passes around: the two tables of \<open>prisma/schema.prisma\<close> with
  the values its client sends to them, the queue payloads of \<open>src/lib/queues.ts\<close>, the events of
  \<open>src/lib/events.ts\<close> and the metrics of \<open>src/lib/metrics.ts\<close>. A \<open>DateTime\<close> is its
  \<open>getTime()\<close>, a nullable column an option.
\<close>

section \<open>The tables\<close>

datatype ExecutionStatus = PENDING | RUNNING | SUCCESS | FAILED | DEAD

record job =
  job_id :: string
  job_name :: string
  cronExpression :: string
  callbackUrl :: string
  timezone :: string
  maxRetries :: int
  backoffMs :: int
  callbackTimeoutMs :: int
  enabled :: bool
  paused :: bool
  consecutiveDeadCount :: int
  createdAt :: time
  updatedAt :: time

record execution =
  exec_id :: string
  exec_jobId :: string
  triggeredAt :: time
  scheduledFor :: "time option"
  startedAt :: "time option"
  finishedAt :: "time option"
  status :: ExecutionStatus
  attemptNumber :: int
  responseCode :: "int option"
  durationMs :: "int option"
  errorMessage :: "string option"
  triggerSource :: string

section \<open>What the client sends\<close>

record exec_data =
  ed_jobId :: string
  ed_scheduledFor :: "time option"
  ed_status :: ExecutionStatus
  ed_attemptNumber :: int
  ed_triggerSource :: string

text \<open>An update names the columns it writes; an absent column keeps its value.\<close>

record exec_patch =
  ep_status :: "ExecutionStatus option"
  ep_startedAt :: "time option option"
  ep_attemptNumber :: "int option"
  ep_finishedAt :: "time option option"
  ep_responseCode :: "int option option"
  ep_durationMs :: "int option option"
  ep_errorMessage :: "string option option"

definition no_exec_patch :: exec_patch where
  "no_exec_patch = \<lparr>ep_status = None, ep_startedAt = None, ep_attemptNumber = None,
     ep_finishedAt = None, ep_responseCode = None, ep_durationMs = None, ep_errorMessage = None\<rparr>"

definition apply_exec_patch :: "exec_patch \<Rightarrow> execution \<Rightarrow> execution" where
  "apply_exec_patch p e = e\<lparr>
     status := option_get_or (ep_status p) (status e),
     startedAt := option_get_or (ep_startedAt p) (startedAt e),
     attemptNumber := option_get_or (ep_attemptNumber p) (attemptNumber e),
     finishedAt := option_get_or (ep_finishedAt p) (finishedAt e),
     responseCode := option_get_or (ep_responseCode p) (responseCode e),
     durationMs := option_get_or (ep_durationMs p) (durationMs e),
     errorMessage := option_get_or (ep_errorMessage p) (errorMessage e)\<rparr>"

record job_data =
  jd_name :: string
  jd_cronExpression :: string
  jd_callbackUrl :: string
  jd_timezone :: string
  jd_maxRetries :: int
  jd_backoffMs :: int
  jd_callbackTimeoutMs :: int
  jd_enabled :: bool
  jd_paused :: bool

datatype count_update = SetTo int | Increment int

record job_patch =
  jp_name :: "string option"
  jp_cronExpression :: "string option"
  jp_callbackUrl :: "string option"
  jp_timezone :: "string option"
  jp_maxRetries :: "int option"
  jp_backoffMs :: "int option"
  jp_callbackTimeoutMs :: "int option"
  jp_enabled :: "bool option"
  jp_paused :: "bool option"
  jp_consecutiveDeadCount :: "count_update option"

definition no_job_patch :: job_patch where
  "no_job_patch = \<lparr>jp_name = None, jp_cronExpression = None, jp_callbackUrl = None,
     jp_timezone = None, jp_maxRetries = None, jp_backoffMs = None, jp_callbackTimeoutMs = None,
     jp_enabled = None, jp_paused = None, jp_consecutiveDeadCount = None\<rparr>"

fun apply_count :: "count_update option \<Rightarrow> int \<Rightarrow> int" where
  "apply_count None n = n"
| "apply_count (Some (SetTo m)) n = m"
| "apply_count (Some (Increment m)) n = n + m"

definition apply_job_patch :: "job_patch \<Rightarrow> job \<Rightarrow> job" where
  "apply_job_patch p j = j\<lparr>
     job_name := option_get_or (jp_name p) (job_name j),
     cronExpression := option_get_or (jp_cronExpression p) (cronExpression j),
     callbackUrl := option_get_or (jp_callbackUrl p) (callbackUrl j),
     timezone := option_get_or (jp_timezone p) (timezone j),
     maxRetries := option_get_or (jp_maxRetries p) (maxRetries j),
     backoffMs := option_get_or (jp_backoffMs p) (backoffMs j),
     callbackTimeoutMs := option_get_or (jp_callbackTimeoutMs p) (callbackTimeoutMs j),
     enabled := option_get_or (jp_enabled p) (enabled j),
     paused := option_get_or (jp_paused p) (paused j),
     consecutiveDeadCount := apply_count (jp_consecutiveDeadCount p) (consecutiveDeadCount j)\<rparr>"

text \<open>The columns of the unique index on \<open>(jobId, scheduledFor)\<close> never change by an update.\<close>

lemma apply_exec_patch_keys [simp]:
  "exec_id (apply_exec_patch p e) = exec_id e"
  "exec_jobId (apply_exec_patch p e) = exec_jobId e"
  "scheduledFor (apply_exec_patch p e) = scheduledFor e"
  "triggeredAt (apply_exec_patch p e) = triggeredAt e"
  "triggerSource (apply_exec_patch p e) = triggerSource e"
  by (simp_all add: apply_exec_patch_def)

lemma apply_job_patch_keys [simp]:
  "job_id (apply_job_patch p j) = job_id j"
  by (simp add: apply_job_patch_def)

section \<open>Queue payloads (\<open>src/lib/queues.ts\<close>)\<close>

datatype fire_slot = Slot time | Manual

record exec_job_data =
  ej_executionId :: string
  ej_jobId :: string
  ej_fireSlot :: fire_slot

record dead_letter_data =
  dl_executionId :: string
  dl_jobId :: string
  dl_reason :: string
  dl_lastError :: "string option"

datatype backoff = ExponentialBackoff int

record jobs_options =
  jo_attempts :: int
  jo_backoff :: backoff

record bull_job =
  bj_data :: exec_job_data
  bj_attemptsMade :: int
  bj_attempts :: "int option"

section \<open>Events (\<open>src/lib/events.ts\<close>)\<close>

record started_payload =
  sp_jobId :: string
  sp_executionId :: string
  sp_attemptNumber :: int
  sp_triggerSource :: "string option"

record finished_payload =
  fp_jobId :: string
  fp_executionId :: string
  fp_status :: string
  fp_responseCode :: "int option"
  fp_durationMs :: "int option"
  fp_attemptNumber :: int

datatype alert_kind = AlertDead | AlertCircuitOpen

record alert_payload =
  ap_jobId :: string
  ap_executionId :: string
  ap_kind :: alert_kind
  ap_message :: string

datatype event =
  JobStarted started_payload
| JobSuccess finished_payload
| JobFailed finished_payload
| JobAlert alert_payload

section \<open>Metrics (\<open>src/lib/metrics.ts\<close>)\<close>

datatype metric =
  ExecutionsTotal ExecutionStatus
| ExecutionDuration ExecutionStatus int \<comment> \<open>observed value in milliseconds\<close>
| CallbackAttemptsTotal string
| SchedulerTicksTotal
| SlotsEnqueuedTotal
| SlotsDedupedTotal
| SchedulerTickDurationEnd
| CircuitOpenTotal
| IsLeaderGauge int

end
