(* ===== verification/Service_Calls.thy ===== *)
theory Service_Calls
  imports Schema Js_Number
begin

text \<open>
  Asynchronous TypeScript as programs over service calls. CronHive's code computes locally and
  awaits Redis, PostgreSQL (through Prisma), BullMQ, the clock, DNS and HTTP. None of these
  services is code of the repository, so none is defined here: a handler is modelled as a
  program, a tree whose nodes are the requests the code awaits and whose branches are the
  responses it may receive. The services are a parameter \<open>svc\<close> of the semantics \<open>run\<close>.

  Every \<open>await\<close> of the source is one \<open>Call\<close>; a rejected promise is the response \<open>RErr\<close>, which
  the wrappers turn into \<open>Throw\<close>; \<open>try/catch\<close> is \<open>try_catch\<close>; a \<open>for\<close> loop over a list is
  \<open>for_each\<close>. Since JavaScript runs a process to its next \<open>await\<close>, the \<open>Call\<close> nodes are exactly
  the points where other processes can interleave, which theory \<open>Interleaving\<close> uses.
\<close>

section \<open>Errors, requests and responses\<close>

datatype err =
  PrismaKnownRequestError string string \<comment> \<open>code and message\<close>
| JsError string "string option" \<comment> \<open>name and message of any other thrown error\<close>
| ZodError
| UnsafeCallbackUrlError string \<comment> \<open>the whole message\<close>
| BadResponse \<comment> \<open>a response of the wrong shape, which the services never give\<close>

definition err_text :: "err \<Rightarrow> string" where \<comment> \<open>\<open>String(err)\<close>\<close>
  "err_text e = (case e of
     PrismaKnownRequestError c m \<Rightarrow> ''PrismaClientKnownRequestError: '' @ m
   | JsError n m \<Rightarrow> n @ (case m of Some t \<Rightarrow> '': '' @ t | None \<Rightarrow> '''')
   | ZodError \<Rightarrow> ''ZodError''
   | UnsafeCallbackUrlError m \<Rightarrow> ''UnsafeCallbackUrlError: '' @ m
   | BadResponse \<Rightarrow> ''TypeError'')"

datatype expiry = EX_s int | PX_ms int \<comment> \<open>the \<open>EX\<close> and \<open>PX\<close> options of SET\<close>

text \<open>A string stored in Redis: plain text, or the JSON text of a job.\<close>

datatype rvalue = Plain string | JobJson job

text \<open>
  An \<open>eval\<close> request: which script, with its arguments (the lease in milliseconds, which the code
  sends as decimal text, as the number).
\<close>

datatype lua_script = ReleaseScript string | RenewScript string int

datatype job_query = EnabledNotPaused | NewestFirst

record exec_query =
  eq_jobId :: string
  eq_skip :: jsnum
  eq_take :: jsnum

record fetch_request =
  fr_url :: string
  fr_signature :: string
  fr_body :: string
  fr_timeoutMs :: int

text \<open>
  What a process opens, closes and arms for itself: listeners, sockets, subscriptions, the queue consumer,
  connections and timers.
\<close>

datatype process_req =
  Listen int
| CloseListener
| CloseSockets
| Subscribe string
| Unsubscribe
| Consume string string int \<comment> \<open>queue, prefix, concurrency\<close>
| StopConsuming
| CloseQueue string
| RedisQuit
| DbDisconnect
| SetInterval int
| ClearInterval
| Exit int

datatype req =
  RedisGet string
| RedisSet string rvalue expiry
| RedisSetNX string rvalue expiry
| RedisDel string
| RedisPexpire string int
| RedisEval lua_script string
| RedisPublish string event
| RedisPing
| DbPing
| JobFindMany job_query
| JobFindUnique string
| JobCreate job_data
| JobUpdate string job_patch
| JobUpdateMany "string list" bool
| JobDelete string
| ExecCreate exec_data
| ExecFindUnique string
| ExecUpdate string exec_patch
| ExecFindMany exec_query
| ExecFindFinished string time
| ExecCount string
| QueueAdd exec_job_data jobs_options
| DeadQueueAdd dead_letter_data
| Fetch fetch_request
| DnsLookup string
| Now
| RandomUUID
| Metric metric
| Process process_req

datatype resp =
  RErr err
| RUnit
| RBool bool
| RInt int
| RText string
| RVal "rvalue option"
| RJob job
| RJobOpt "job option"
| RJobs "job list"
| RExec execution
| RExecOpt "execution option"
| RExecs "execution list"
| RTime time
| RAddresses "string list"
| RHttp int \<comment> \<open>the status of an HTTP response\<close>

section \<open>Programs\<close>

datatype 'a prog =
  Ret 'a
| Throw err
| Call req "resp \<Rightarrow> 'a prog"

primrec bind :: "'a prog \<Rightarrow> ('a \<Rightarrow> 'b prog) \<Rightarrow> 'b prog" where
  "bind (Ret a) f = f a"
| "bind (Throw e) f = Throw e"
| "bind (Call q k) f = Call q (\<lambda>r. bind (k r) f)"

primrec try_catch :: "'a prog \<Rightarrow> (err \<Rightarrow> 'a prog) \<Rightarrow> 'a prog" where
  "try_catch (Ret a) h = Ret a"
| "try_catch (Throw e) h = h e"
| "try_catch (Call q k) h = Call q (\<lambda>r. try_catch (k r) h)"

primrec for_each :: "('a \<Rightarrow> unit prog) \<Rightarrow> 'a list \<Rightarrow> unit prog" where
  "for_each f [] = Ret ()"
| "for_each f (x # xs) = bind (f x) (\<lambda>_. for_each f xs)"

definition silent :: "'a prog \<Rightarrow> unit prog" where \<comment> \<open>the result is not used\<close>
  "silent p = bind p (\<lambda>_. Ret ())"

section \<open>Running a program against the services\<close>

type_synonym 'w services = "req \<Rightarrow> 'w \<Rightarrow> resp \<times> 'w"
type_synonym 'a outcome = "err + 'a"

primrec run :: "'w services \<Rightarrow> 'a prog \<Rightarrow> 'w \<Rightarrow> 'a outcome \<times> 'w" where
  "run svc (Ret a) w = (Inr a, w)"
| "run svc (Throw e) w = (Inl e, w)"
| "run svc (Call q k) w = (case svc q w of (r, w') \<Rightarrow> run svc (k r) w')"

lemma bind_assoc: "bind (bind p f) g = bind p (\<lambda>x. bind (f x) g)"
  by (induction p) simp_all

lemma bind_Ret [simp]: "bind p Ret = p"
  by (induction p) simp_all

lemma run_bind:
  "run svc (bind p f) w =
     (case run svc p w of (Inl e, w') \<Rightarrow> (Inl e, w') | (Inr a, w') \<Rightarrow> run svc (f a) w')"
  by (induction p arbitrary: w) (auto split: prod.splits)

lemma run_try_catch:
  "run svc (try_catch p h) w =
     (case run svc p w of (Inl e, w') \<Rightarrow> run svc (h e) w' | (Inr a, w') \<Rightarrow> (Inr a, w'))"
  by (induction p arbitrary: w) (auto split: prod.splits)

lemma for_each_append: "for_each f (xs @ ys) = bind (for_each f xs) (\<lambda>_. for_each f ys)"
  by (induction xs) (simp_all add: bind_assoc)

section \<open>Typed calls\<close>

definition call_unit :: "req \<Rightarrow> unit prog" where [prog_defs]:
  "call_unit q = Call q (\<lambda>r. case r of RErr e \<Rightarrow> Throw e | _ \<Rightarrow> Ret ())"

definition call_bool :: "req \<Rightarrow> bool prog" where [prog_defs]:
  "call_bool q = Call q (\<lambda>r. case r of RErr e \<Rightarrow> Throw e | RBool b \<Rightarrow> Ret b | _ \<Rightarrow> Throw BadResponse)"

definition call_int :: "req \<Rightarrow> int prog" where [prog_defs]:
  "call_int q = Call q (\<lambda>r. case r of RErr e \<Rightarrow> Throw e | RInt i \<Rightarrow> Ret i | _ \<Rightarrow> Throw BadResponse)"

definition call_text :: "req \<Rightarrow> string prog" where [prog_defs]:
  "call_text q = Call q (\<lambda>r. case r of RErr e \<Rightarrow> Throw e | RText s \<Rightarrow> Ret s | _ \<Rightarrow> Throw BadResponse)"

definition call_val :: "req \<Rightarrow> rvalue option prog" where [prog_defs]:
  "call_val q = Call q (\<lambda>r. case r of RErr e \<Rightarrow> Throw e | RVal v \<Rightarrow> Ret v | _ \<Rightarrow> Throw BadResponse)"

definition call_job :: "req \<Rightarrow> job prog" where [prog_defs]:
  "call_job q = Call q (\<lambda>r. case r of RErr e \<Rightarrow> Throw e | RJob j \<Rightarrow> Ret j | _ \<Rightarrow> Throw BadResponse)"

definition call_job_opt :: "req \<Rightarrow> job option prog" where [prog_defs]:
  "call_job_opt q =
     Call q (\<lambda>r. case r of RErr e \<Rightarrow> Throw e | RJobOpt j \<Rightarrow> Ret j | _ \<Rightarrow> Throw BadResponse)"

definition call_jobs :: "req \<Rightarrow> job list prog" where [prog_defs]:
  "call_jobs q = Call q (\<lambda>r. case r of RErr e \<Rightarrow> Throw e | RJobs js \<Rightarrow> Ret js | _ \<Rightarrow> Throw BadResponse)"

definition call_exec :: "req \<Rightarrow> execution prog" where [prog_defs]:
  "call_exec q = Call q (\<lambda>r. case r of RErr e \<Rightarrow> Throw e | RExec x \<Rightarrow> Ret x | _ \<Rightarrow> Throw BadResponse)"

definition call_exec_opt :: "req \<Rightarrow> execution option prog" where [prog_defs]:
  "call_exec_opt q =
     Call q (\<lambda>r. case r of RErr e \<Rightarrow> Throw e | RExecOpt x \<Rightarrow> Ret x | _ \<Rightarrow> Throw BadResponse)"

definition call_execs :: "req \<Rightarrow> execution list prog" where [prog_defs]:
  "call_execs q =
     Call q (\<lambda>r. case r of RErr e \<Rightarrow> Throw e | RExecs xs \<Rightarrow> Ret xs | _ \<Rightarrow> Throw BadResponse)"

definition call_time :: "req \<Rightarrow> time prog" where [prog_defs]:
  "call_time q = Call q (\<lambda>r. case r of RErr e \<Rightarrow> Throw e | RTime t \<Rightarrow> Ret t | _ \<Rightarrow> Throw BadResponse)"

definition call_addresses :: "req \<Rightarrow> string list prog" where [prog_defs]:
  "call_addresses q =
     Call q (\<lambda>r. case r of RErr e \<Rightarrow> Throw e | RAddresses a \<Rightarrow> Ret a | _ \<Rightarrow> Throw BadResponse)"

definition call_http :: "req \<Rightarrow> int prog" where [prog_defs]:
  "call_http q = Call q (\<lambda>r. case r of RErr e \<Rightarrow> Throw e | RHttp s \<Rightarrow> Ret s | _ \<Rightarrow> Throw BadResponse)"

text \<open>
  \<open>new Date()\<close>, \<open>Date.now()\<close> and \<open>randomUUID()\<close> are local, and so are the metric updates; they
  are requests because their values (or, for metrics, their effects) lie outside the code.
\<close>

definition date_now :: "time prog" where [prog_defs]:
  "date_now = call_time Now"

definition randomUUID :: "string prog" where [prog_defs]:
  "randomUUID = call_text RandomUUID"

definition metric_inc :: "metric \<Rightarrow> unit prog" where [prog_defs]:
  "metric_inc m = Call (Metric m) (\<lambda>_. Ret ())"

section \<open>Programs that make only some calls\<close>

primrec calls_only :: "(req \<Rightarrow> bool) \<Rightarrow> 'a prog \<Rightarrow> bool" where
  "calls_only P (Ret a) = True"
| "calls_only P (Throw e) = True"
| "calls_only P (Call q k) = (P q \<and> (\<forall>r. calls_only P (k r)))"

lemma calls_only_bind [intro]: "calls_only P p \<Longrightarrow> (\<And>a. calls_only P (f a)) \<Longrightarrow> calls_only P (bind p f)"
  by (induction p) auto

lemma calls_only_try_catch [intro]: "calls_only P p \<Longrightarrow> (\<And>e. calls_only P (h e)) \<Longrightarrow> calls_only P (try_catch p h)"
  by (induction p) auto

lemma calls_only_for_each [intro]: "(\<And>x. x \<in> set xs \<Longrightarrow> calls_only P (f x)) \<Longrightarrow> calls_only P (for_each f xs)"
  by (induction xs) auto

lemma calls_only_mono: "calls_only P p \<Longrightarrow> (\<And>q. P q \<Longrightarrow> P' q) \<Longrightarrow> calls_only P' p"
  by (induction p) auto

lemma calls_only_calls [simp]:
  "calls_only P (call_unit q) = P q" "calls_only P (call_bool q) = P q" "calls_only P (call_int q) = P q"
  "calls_only P (call_text q) = P q" "calls_only P (call_val q) = P q" "calls_only P (call_job q) = P q"
  "calls_only P (call_job_opt q) = P q" "calls_only P (call_jobs q) = P q" "calls_only P (call_exec q) = P q"
  "calls_only P (call_exec_opt q) = P q" "calls_only P (call_execs q) = P q" "calls_only P (call_time q) = P q"
  "calls_only P (call_addresses q) = P q" "calls_only P (call_http q) = P q" "calls_only P date_now = P Now"
  "calls_only P randomUUID = P RandomUUID" "calls_only P (metric_inc m) = P (Metric m)"
  by (auto simp: prog_defs split: resp.splits)

section \<open>Rules for running the wrappers\<close>

lemma run_for_each_Nil [simp]: "run svc (for_each f []) w = (Inr (), w)"
  by simp

lemma run_for_each_Cons_ok:
  "run svc (f x) w = (Inr (), w') \<Longrightarrow> run svc (for_each f (x # xs)) w = run svc (for_each f xs) w'"
  by (simp add: run_bind)

lemma run_for_each_Cons_err:
  "run svc (f x) w = (Inl e, w') \<Longrightarrow> run svc (for_each f (x # xs)) w = (Inl e, w')"
  by (simp add: run_bind)

lemmas run_rules = run_bind run_try_catch

end
