(* ===== verification/Cron_Utils.thy ===== *)
theory Cron_Utils
  imports Env_Config Service_Calls
begin

text \<open>
  \<open>src/lib/cron-utils.ts\<close>: which cron fire-time is due in the current scheduler window. The
  package \<open>cron-parser\<close> is a parameter: \<open>cp_parse\<close> is the error that parsing an expression in a
  time zone throws, if any, and \<open>cp_prev\<close> is \<open>parse(\<dots>, currentDate).prev()\<close>, \<open>None\<close> when it
  throws. \<open>cron_contract\<close> states what its documentation promises of \<open>prev\<close>: the latest fire-time
  before the current date.

  The locale \<open>slot_source\<close> is the interface between the scheduler and this module: what a due
  slot is, whether ticks agree on it, and which fire-times a sequence of ticks resolves.
\<close>

record cron_parser =
  cp_parse :: "string \<Rightarrow> string \<Rightarrow> err option"
  cp_prev :: "string \<Rightarrow> string \<Rightarrow> time \<Rightarrow> time option"

definition tz_or_utc :: "string \<Rightarrow> string" where \<comment> \<open>\<open>timezone || "UTC"\<close>\<close>
  "tz_or_utc tz = (if tz = [] then ''UTC'' else tz)"

definition dueFireSlot :: "cron_parser \<Rightarrow> env \<Rightarrow> string \<Rightarrow> string \<Rightarrow> time \<Rightarrow> time option" where
  "dueFireSlot cp cfg cronExpr tz now =
     (if cp_parse cp cronExpr (tz_or_utc tz) \<noteq> None then None
      else case cp_prev cp cronExpr (tz_or_utc tz) now of
        None \<Rightarrow> None
      | Some prev \<Rightarrow>
          (let diff = now - prev; windowMs = SCHEDULER_SCAN_MS cfg + 5000
           in if 0 \<le> diff \<and> diff \<le> windowMs then Some prev else None))"

definition isCronDueNow :: "cron_parser \<Rightarrow> env \<Rightarrow> string \<Rightarrow> string \<Rightarrow> time \<Rightarrow> bool" where
  "isCronDueNow cp cfg cronExpr tz now \<longleftrightarrow> dueFireSlot cp cfg cronExpr tz now \<noteq> None"

definition assertValidCron :: "cron_parser \<Rightarrow> string \<Rightarrow> string \<Rightarrow> unit prog" where
  "assertValidCron cp cronExpr tz =
     (case cp_parse cp cronExpr (tz_or_utc tz) of Some e \<Rightarrow> Throw e | None \<Rightarrow> Ret ())"

section \<open>The interface of a slot source\<close>

locale slot_source =
  fixes due :: "'c \<Rightarrow> time \<Rightarrow> time option"
    and fires :: "'c \<Rightarrow> time set"
    and window :: "'c \<Rightarrow> int"
    and ok :: "'c \<Rightarrow> bool"
  assumes due_sound: "ok c \<Longrightarrow> due c now = Some t \<Longrightarrow>
      t \<in> fires c \<and> t < now \<and> now - t \<le> window c \<and> (\<forall>u \<in> fires c. \<not> (t < u \<and> u < now))"
    and due_complete: "ok c \<Longrightarrow> f \<in> fires c \<Longrightarrow> f < now \<Longrightarrow> now - f \<le> window c \<Longrightarrow>
      \<forall>u \<in> fires c. \<not> (f < u \<and> u < now) \<Longrightarrow> due c now = Some f"
begin

text \<open>Two evaluations with no fire-time between them name the same slot.\<close>

lemma due_agree:
  assumes "ok c" "n1 \<le> n2" "\<forall>u \<in> fires c. \<not> (n1 \<le> u \<and> u < n2)"
    "due c n1 = Some a" "due c n2 = Some b"
  shows "a = b"
proof -
  note A = due_sound [OF assms(1,4)] and B = due_sound [OF assms(1,5)]
  from B assms(3) have "b < n1" by force
  with A B assms(2) show ?thesis by (metis linorder_neqE order_less_le_trans)
qed

text \<open>A fire-time with no other one before the next tick is resolved by that tick.\<close>

lemma every_isolated_fire_resolved:
  assumes "ok c" "f \<in> fires c" "tick 0 \<le> f" "f < tick n"
    "\<And>k. tick (Suc k) - tick k \<le> window c"
    "\<And>k u. tick k \<le> f \<Longrightarrow> f < tick (Suc k) \<Longrightarrow> u \<in> fires c \<Longrightarrow> \<not> (f < u \<and> u < tick (Suc k))"
  shows "\<exists>k. due c (tick k) = Some f"
proof -
  obtain k where k: "tick k \<le> f" "f < tick (Suc k)"
    using crossing_step [of tick f n] assms(3,4) by blast
  have "due c (tick (Suc k)) = Some f"
    using assms(1,2,5,6) k by (intro due_complete) (auto, smt (verit))
  then show ?thesis by blast
qed

text \<open>A fire-time overtaken by the next one before any tick is never resolved.\<close>

lemma overtaken_fire_lost:
  assumes "ok c" "g \<in> fires c" "f < g" "\<And>k. \<not> (f < tick k \<and> tick k \<le> g)"
  shows "due c (tick k) \<noteq> Some f"
  using assms due_sound [of c "tick k" f] by (metis not_less)

end

section \<open>The cron parser as a slot source\<close>

record cron_job =
  cj_parser :: cron_parser
  cj_env :: env
  cj_expr :: string
  cj_tz :: string
  cj_fires :: "time set" \<comment> \<open>the fire-times of the expression in the time zone\<close>

definition cron_contract :: "cron_parser \<Rightarrow> string \<Rightarrow> string \<Rightarrow> time set \<Rightarrow> bool" where
  "cron_contract cp e z fs \<longleftrightarrow>
     (\<forall>now t. cp_prev cp e z now = Some t \<longrightarrow>
        t \<in> fs \<and> t < now \<and> (\<forall>u \<in> fs. \<not> (t < u \<and> u < now))) \<and>
     (\<forall>now. (\<exists>t \<in> fs. t < now) \<longrightarrow> cp_prev cp e z now \<noteq> None)"

definition cron_due :: "cron_job \<Rightarrow> time \<Rightarrow> time option" where
  "cron_due c now = dueFireSlot (cj_parser c) (cj_env c) (cj_expr c) (cj_tz c) now"

definition cron_window :: "cron_job \<Rightarrow> int" where
  "cron_window c = SCHEDULER_SCAN_MS (cj_env c) + 5000"

definition cron_ok :: "cron_job \<Rightarrow> bool" where
  "cron_ok c \<longleftrightarrow> cp_parse (cj_parser c) (cj_expr c) (tz_or_utc (cj_tz c)) = None \<and>
     cron_contract (cj_parser c) (cj_expr c) (tz_or_utc (cj_tz c)) (cj_fires c)"

interpretation cron: slot_source cron_due cj_fires cron_window cron_ok
proof
  fix c now t
  assume "cron_ok c" "cron_due c now = Some t"
  then show "t \<in> cj_fires c \<and> t < now \<and> now - t \<le> cron_window c \<and>
      (\<forall>u \<in> cj_fires c. \<not> (t < u \<and> u < now))"
    by (auto simp: cron_ok_def cron_due_def cron_window_def dueFireSlot_def cron_contract_def Let_def
      split: option.splits if_splits)
next
  fix c f now
  assume A: "cron_ok c" "f \<in> cj_fires c" "f < now" "now - f \<le> cron_window c"
    "\<forall>u \<in> cj_fires c. \<not> (f < u \<and> u < now)"
  let ?prev = "cp_prev (cj_parser c) (cj_expr c) (tz_or_utc (cj_tz c)) now"
  obtain t where t: "?prev = Some t"
    using A(1-3) by (auto simp: cron_ok_def cron_contract_def)
  with A(1) have "t \<in> cj_fires c" "t < now" "\<forall>u \<in> cj_fires c. \<not> (t < u \<and> u < now)"
    by (auto simp: cron_ok_def cron_contract_def)
  with A have "t = f" by (metis linorder_neqE)
  with t A show "cron_due c now = Some f"
    by (simp add: cron_due_def dueFireSlot_def cron_ok_def cron_window_def Let_def)
qed

text \<open>A parser for the expression that fires every minute, for the witnesses.\<close>

definition minute_parser :: cron_parser where
  "minute_parser = \<lparr>cp_parse = (\<lambda>e z. None), cp_prev = (\<lambda>e z now. Some (60000 * ((now - 1) div 60000)))\<rparr>"

definition minute_job :: cron_job where
  "minute_job = \<lparr>cj_parser = minute_parser, cj_env = default_env, cj_expr = ''* * * * *'', cj_tz = ''UTC'',
     cj_fires = range (\<lambda>k. 60000 * k)\<rparr>"

lemma minute_fires: "u \<in> cj_fires minute_job \<longleftrightarrow> (\<exists>k. u = 60000 * k)"
  by (auto simp: minute_job_def)

lemma minute_floor: "60000 * ((now - 1) div 60000) < now" "now \<le> 60000 * ((now - 1) div 60000) + 60000" for now :: int
proof -
  have "now - 1 = 60000 * ((now - 1) div 60000) + (now - 1) mod 60000" by simp
  moreover have "0 \<le> (now - 1) mod 60000" "(now - 1) mod 60000 < 60000" by simp_all
  ultimately show "60000 * ((now - 1) div 60000) < now" "now \<le> 60000 * ((now - 1) div 60000) + 60000"
    by linarith+
qed

lemma minute_job_ok: "cron_ok minute_job"
proof -
  have gap: "\<not> (60000 * ((now - 1) div 60000) < 60000 * k \<and> 60000 * k < now)" for k now :: int
    using minute_floor(2) [of now] by auto
  show ?thesis
    unfolding cron_ok_def cron_contract_def minute_fires
    using gap minute_floor(1) by (auto simp: minute_job_def minute_parser_def)
qed

lemma minute_due: "dueFireSlot (cj_parser minute_job) (cj_env minute_job) (cj_expr minute_job) (cj_tz minute_job) now
    = Some (60000 * ((now - 1) div 60000))"
proof -
  have "0 \<le> now - 60000 * ((now - 1) div 60000)" "now - 60000 * ((now - 1) div 60000) \<le> 65000"
    using minute_floor [of now] by linarith+
  then show ?thesis by (simp add: dueFireSlot_def minute_job_def minute_parser_def default_env_def)
qed

text \<open>
  A slot that \<open>dueFireSlot\<close> returns is at most the current time and at most the scan interval
  plus five seconds old, for every parser and configuration; an unparsable expression or a
  parser failure gives no slot instead of an exception.
\<close>

theorem dueFireSlot_window:
  "(\<forall>t. dueFireSlot cp cfg e tz now = Some t \<longrightarrow>
      t \<le> now \<and> now - (SCHEDULER_SCAN_MS cfg + 5000) \<le> t \<and>
      cp_prev cp e (tz_or_utc tz) now = Some t) \<and>
   (cp_parse cp e (tz_or_utc tz) \<noteq> None \<or> cp_prev cp e (tz_or_utc tz) now = None \<longrightarrow>
      dueFireSlot cp cfg e tz now = None)"
  by (auto simp: dueFireSlot_def Let_def split: option.splits if_splits)

theorem dueFireSlot_window_witness:
  "dueFireSlot minute_parser default_env ''* * * * *'' ''UTC'' 60500 = Some 60000 \<and>
   60500 - (SCHEDULER_SCAN_MS default_env + 5000) \<le> 60000"
  using dueFireSlot_window [of minute_parser default_env "''* * * * *''" "''UTC''" 60500]
    minute_due [of 60500] by (simp add: minute_job_def)

text \<open>
  C29: the slot is an idempotency key. Two evaluations of the same job, on any two scheduler
  nodes, with no fire-time between their clock readings resolve to the same slot.
\<close>

theorem dueFireSlot_idempotency_key:
  assumes "cron_ok c" "n1 \<le> n2" "\<forall>u \<in> cj_fires c. \<not> (n1 \<le> u \<and> u < n2)"
    "dueFireSlot (cj_parser c) (cj_env c) (cj_expr c) (cj_tz c) n1 = Some a"
    "dueFireSlot (cj_parser c) (cj_env c) (cj_expr c) (cj_tz c) n2 = Some b"
  shows "a = b"
  using assms by (intro cron.due_agree [of c n1 n2 a b]) (auto simp: cron_due_def)

theorem dueFireSlot_idempotency_key_witness:
  "dueFireSlot minute_parser default_env ''* * * * *'' ''UTC'' 60500 =
   dueFireSlot minute_parser default_env ''* * * * *'' ''UTC'' 119000"
proof -
  have gap: "\<forall>u \<in> cj_fires minute_job. \<not> (60500 \<le> u \<and> u < 119000)"
    by (auto simp: minute_fires) presburger
  from dueFireSlot_idempotency_key [OF minute_job_ok _ gap minute_due minute_due] minute_due [of 60500]
    minute_due [of 119000] show ?thesis by (simp add: minute_job_def)
qed

text \<open>
  C30: no drift misses. If consecutive ticks are at most the scan interval plus five seconds
  apart, every fire-time from the first tick on that is not followed by another fire-time before
  the next tick is resolved by some tick.
\<close>

theorem dueFireSlot_no_drift_miss:
  assumes "cron_ok c" "f \<in> cj_fires c" "tick 0 \<le> f" "f < tick n"
    "\<And>k. tick (Suc k) - tick k \<le> SCHEDULER_SCAN_MS (cj_env c) + 5000"
    "\<And>k u. tick k \<le> f \<Longrightarrow> f < tick (Suc k) \<Longrightarrow> u \<in> cj_fires c \<Longrightarrow> \<not> (f < u \<and> u < tick (Suc k))"
  shows "\<exists>k. dueFireSlot (cj_parser c) (cj_env c) (cj_expr c) (cj_tz c) (tick k) = Some f"
  using cron.every_isolated_fire_resolved [of c f tick n] assms
  by (simp add: cron_due_def cron_window_def)

theorem dueFireSlot_no_drift_miss_witness:
  "\<exists>k. dueFireSlot minute_parser default_env ''* * * * *'' ''UTC'' (60000 * int k + 500) = Some 120000"
proof -
  have "\<exists>k. dueFireSlot (cj_parser minute_job) (cj_env minute_job) (cj_expr minute_job) (cj_tz minute_job)
      (60000 * int k + 500) = Some 120000"
  proof (rule dueFireSlot_no_drift_miss [OF minute_job_ok, of 120000 "\<lambda>k. 60000 * int k + 500" 5])
    show "120000 \<in> cj_fires minute_job" using minute_fires [of 120000] by auto
    show "\<not> (120000 < u \<and> u < 60000 * int (Suc k) + 500)"
      if "60000 * int k + 500 \<le> 120000" "u \<in> cj_fires minute_job" for k u
      using that by (auto simp: minute_fires)
  qed (simp_all add: minute_job_def default_env_def)
  then show ?thesis by (simp add: minute_job_def)
qed

text \<open>
  C31: the scan resolves only the latest fire-time. A fire-time that is followed by another one
  before any tick (an expression that fires more often than the scan interval) is resolved by
  no tick at all.
\<close>

theorem dueFireSlot_overtaken_fire_lost:
  fixes tick :: "nat \<Rightarrow> time"
  assumes "cron_ok c" "g \<in> cj_fires c" "f < g" "\<And>k. \<not> (f < tick k \<and> tick k \<le> g)"
  shows "\<forall>k. dueFireSlot (cj_parser c) (cj_env c) (cj_expr c) (cj_tz c) (tick k) \<noteq> Some f"
  using cron.overtaken_fire_lost [of c g f tick] assms by (simp add: cron_due_def)

lemma three_minutes: "\<not> (60000 < 180000 * int k + 500 \<and> 180000 * int k + 500 \<le> 120000)"
  by (cases k) auto

theorem dueFireSlot_overtaken_fire_lost_witness:
  "\<forall>k :: nat. dueFireSlot minute_parser default_env ''* * * * *'' ''UTC'' (180000 * int k + 500) \<noteq> Some 60000"
proof -
  have "\<forall>k. dueFireSlot (cj_parser minute_job) (cj_env minute_job) (cj_expr minute_job) (cj_tz minute_job)
      ((\<lambda>k. 180000 * int k + 500) k) \<noteq> Some 60000"
    by (rule dueFireSlot_overtaken_fire_lost [OF minute_job_ok, of 120000])
      (use minute_fires [of 120000] three_minutes in auto)
  then show ?thesis by (simp add: minute_job_def)
qed

end
