(* ===== verification/Redis_Scripts.thy ===== *)
theory Redis_Scripts
  imports Service_Calls
begin

text \<open>
  The Lua scripts CronHive sends to Redis: compare-and-delete (\<open>RELEASE_SCRIPT\<close> of
  \<open>src/lib/lock.ts\<close> and, with the same text, of \<open>src/lib/leader.ts\<close>) and compare-and-extend
  (\<open>RENEW_SCRIPT\<close> of \<open>src/lib/leader.ts\<close>). They are source code of the repository, so they are
  translated like the TypeScript: a script is a program over \<open>redis.call\<close>. That Redis runs a
  script as one atomic step is part of its contract (theory \<open>Service_Contract\<close>).
\<close>

definition RELEASE_SCRIPT :: "string \<Rightarrow> string \<Rightarrow> int prog" where
  "RELEASE_SCRIPT key1 argv1 =
     bind (call_val (RedisGet key1)) (\<lambda>v.
       if v = Some (Plain argv1) then call_int (RedisDel key1) else Ret 0)"

definition RENEW_SCRIPT :: "string \<Rightarrow> string \<Rightarrow> int \<Rightarrow> int prog" where
  "RENEW_SCRIPT key1 argv1 argv2 =
     bind (call_val (RedisGet key1)) (\<lambda>v.
       if v = Some (Plain argv1) then call_int (RedisPexpire key1 argv2) else Ret 0)"

text \<open>\<open>eval\<close> of a script with one key and its arguments.\<close>

fun lua_program :: "lua_script \<Rightarrow> string \<Rightarrow> int prog" where
  "lua_program (ReleaseScript token) key = RELEASE_SCRIPT key token"
| "lua_program (RenewScript token ttl) key = RENEW_SCRIPT key token ttl"

end
