(* ===== verification/Service_Contract.thy ===== *)
theory Service_Contract
  imports Redis_Scripts
begin

text \<open>
  What CronHive relies on from the services it calls, as named hypotheses on the parameter
  \<open>svc\<close>. A view \<open>V\<close> maps the services' own state to a \<open>store\<close>: the two tables, the identifiers
  issued so far, the Redis keys with their deadlines, the entries added to the two BullMQ
  queues, the published events, the HTTP requests sent, the metrics, and the clock.

  \<^item> \<open>ok_effect\<close> says, per request, what a successful call returns and how it changes the store:
    Prisma over the PostgreSQL schema of \<open>prisma/schema.prisma\<close> and its migrations (primary keys,
    the unique index on \<open>(jobId, scheduledFor)\<close> in which NULLs are distinct, the foreign key
    with \<open>ON DELETE CASCADE\<close>), the Redis commands with expiry, BullMQ \<open>add\<close>, PUBLISH, \<open>fetch\<close>.
  \<^item> \<open>instant_effect\<close> adds failures: a failed call may or may not have taken effect, as with a
    lost reply, but the Prisma codes P2002, P2003 and P2025 mean that nothing was written and why.
  \<^item> \<open>call_effect\<close> adds time: a call takes effect at any instant from the clock of the store on,
    and the clock stands at that instant afterwards. A key whose deadline is reached by then is
    no longer live.
  \<^item> \<open>services_ok svc V\<close>: every call of \<open>svc\<close> has a \<open>call_effect\<close>.
  \<^item> \<open>reliable svc V\<close>: in addition the only failures are the documented constraint violations,
    SET with an invalid expiry, paging arguments out of range, and DNS and HTTP failures. This is the hypothesis of the theorems about fault-free runs.

  Theory \<open>Reference_Services\<close> shows that the hypotheses can hold.
\<close>

section \<open>The observable store\<close>

record store =
  st_jobs :: "string \<Rightarrow> job option"
  st_execs :: "string \<Rightarrow> execution option"
  st_ids :: "string set"
  st_kv :: "string \<Rightarrow> (rvalue \<times> time) option"
  st_uuids :: "string set"
  st_queue :: "(exec_job_data \<times> jobs_options) list"
  st_dead :: "dead_letter_data list"
  st_events :: "event list"
  st_fetched :: "(fetch_request \<times> int option) list" \<comment> \<open>with the status received, if any\<close>
  st_metrics :: "metric list"
  st_clock :: time

type_synonym 'w view = "'w \<Rightarrow> store"

text \<open>A key is live until its deadline.\<close>

definition live_at :: "(string \<Rightarrow> (rvalue \<times> time) option) \<Rightarrow> time \<Rightarrow> string \<Rightarrow> rvalue option" where
  "live_at m t k = (case m k of None \<Rightarrow> None
     | Some (v, d) \<Rightarrow> if t < d then Some v else None)"

abbreviation live :: "store \<Rightarrow> string \<Rightarrow> rvalue option" where
  "live s k \<equiv> live_at (st_kv s) (st_clock s) k"

lemma live_at_update [simp]:
  "live_at (m(k \<mapsto> (v, d))) t k' = (if k' = k then (if t < d then Some v else None) else live_at m t k')"
  "live_at (m(k := None)) t k' = (if k' = k then None else live_at m t k')"
  by (simp_all add: live_at_def)

fun deadline :: "store \<Rightarrow> expiry \<Rightarrow> time" where
  "deadline s (EX_s n) = st_clock s + 1000 * n"
| "deadline s (PX_ms n) = st_clock s + n"

text \<open>
  The expiry times that SET accepts: positive, and a number of milliseconds that fits a signed
  64-bit integer. With any other expiry the command fails and changes nothing.
\<close>

fun expiry_valid :: "expiry \<Rightarrow> bool" where
  "expiry_valid (EX_s n) \<longleftrightarrow> 0 < n \<and> 1000 * n \<le> 2 ^ 63 - 1"
| "expiry_valid (PX_ms n) \<longleftrightarrow> 0 < n \<and> n \<le> 2 ^ 63 - 1"

text \<open>
  The paging arguments that Prisma accepts: \<open>skip\<close> and \<open>take\<close> are integers, not negative, of at most 64 bits.
  With any other argument \<open>findMany\<close> fails before it queries.
\<close>

definition page_arg :: "jsnum \<Rightarrow> nat option" where
  "page_arg n = (case n of Fin x \<Rightarrow> if is_int x \<and> 0 \<le> x \<and> x < 2 ^ 63 then Some (nat \<lfloor>x\<rfloor>) else None | _ \<Rightarrow> None)"

definition slot_taken :: "store \<Rightarrow> string \<Rightarrow> time \<Rightarrow> bool" where
  "slot_taken s j t \<longleftrightarrow>
     (\<exists>i e. st_execs s i = Some e \<and> exec_jobId e = j \<and> scheduledFor e = Some t)"

section \<open>Effects of successful calls\<close>

definition exec_inserted :: "exec_data \<Rightarrow> execution \<Rightarrow> store \<Rightarrow> store \<Rightarrow> bool" where
  "exec_inserted d e s s' \<longleftrightarrow>
     exec_id e \<notin> st_ids s \<and> st_jobs s (ed_jobId d) \<noteq> None \<and>
     (\<forall>t. ed_scheduledFor d = Some t \<longrightarrow> \<not> slot_taken s (ed_jobId d) t) \<and>
     e = \<lparr>exec_id = exec_id e, exec_jobId = ed_jobId d, triggeredAt = st_clock s,
          scheduledFor = ed_scheduledFor d, startedAt = None, finishedAt = None,
          status = ed_status d, attemptNumber = ed_attemptNumber d, responseCode = None,
          durationMs = None, errorMessage = None, triggerSource = ed_triggerSource d\<rparr> \<and>
     s' = s\<lparr>st_execs := (st_execs s)(exec_id e \<mapsto> e), st_ids := insert (exec_id e) (st_ids s)\<rparr>"

definition job_inserted :: "job_data \<Rightarrow> job \<Rightarrow> store \<Rightarrow> store \<Rightarrow> bool" where
  "job_inserted d j s s' \<longleftrightarrow>
     job_id j \<notin> st_ids s \<and>
     j = \<lparr>job_id = job_id j, job_name = jd_name d, cronExpression = jd_cronExpression d,
          callbackUrl = jd_callbackUrl d, timezone = jd_timezone d, maxRetries = jd_maxRetries d,
          backoffMs = jd_backoffMs d, callbackTimeoutMs = jd_callbackTimeoutMs d,
          enabled = jd_enabled d, paused = jd_paused d, consecutiveDeadCount = 0,
          createdAt = st_clock s, updatedAt = st_clock s\<rparr> \<and>
     s' = s\<lparr>st_jobs := (st_jobs s)(job_id j \<mapsto> j), st_ids := insert (job_id j) (st_ids s)\<rparr>"

definition patched_job :: "store \<Rightarrow> job_patch \<Rightarrow> job \<Rightarrow> job" where
  "patched_job s p j = (apply_job_patch p j)\<lparr>updatedAt := st_clock s\<rparr>"

text \<open>\<open>updateMany\<close> sets \<open>enabled\<close> (and \<open>updatedAt\<close>) of the listed jobs that exist.\<close>

definition enable_jobs :: "string list \<Rightarrow> bool \<Rightarrow> store \<Rightarrow> store" where
  "enable_jobs ids b s = s\<lparr>st_jobs := (\<lambda>i. if i \<in> set ids
     then map_option (\<lambda>j. j\<lparr>enabled := b, updatedAt := st_clock s\<rparr>) (st_jobs s i)
     else st_jobs s i)\<rparr>"

definition delete_job :: "string \<Rightarrow> store \<Rightarrow> store" where
  "delete_job i s = s\<lparr>st_jobs := (st_jobs s)(i := None),
     st_execs := (\<lambda>x. case st_execs s x of None \<Rightarrow> None
        | Some e \<Rightarrow> if exec_jobId e = i then None else Some e)\<rparr>"

definition ok_effect :: "req \<Rightarrow> resp \<Rightarrow> store \<Rightarrow> store \<Rightarrow> bool" where
  "ok_effect q r s s' = (case q of
     RedisGet k \<Rightarrow> r = RVal (live s k) \<and> s' = s
   | RedisSet k v x \<Rightarrow> expiry_valid x \<and> r = RUnit \<and> s' = s\<lparr>st_kv := (st_kv s)(k \<mapsto> (v, deadline s x))\<rparr>
   | RedisSetNX k v x \<Rightarrow> expiry_valid x \<and>
       (if live s k = None
        then r = RBool True \<and> s' = s\<lparr>st_kv := (st_kv s)(k \<mapsto> (v, deadline s x))\<rparr>
        else r = RBool False \<and> s' = s)
   | RedisDel k \<Rightarrow> r = RInt (if live s k = None then 0 else 1) \<and>
       s' = s\<lparr>st_kv := (st_kv s)(k := None)\<rparr>
   | RedisPexpire k t \<Rightarrow>
       (case live s k of
          None \<Rightarrow> r = RInt 0 \<and> s' = s
        | Some v \<Rightarrow> r = RInt 1 \<and>
            s' = s\<lparr>st_kv := (st_kv s)(k \<mapsto> (v, st_clock s + t))\<rparr>)
   | RedisPublish c ev \<Rightarrow> (\<exists>n. r = RInt n) \<and> s' = s\<lparr>st_events := st_events s @ [ev]\<rparr>
   | RedisPing \<Rightarrow> (\<exists>x. r = RText x) \<and> s' = s
   | JobFindMany c \<Rightarrow> s' = s \<and> (\<exists>js. r = RJobs js \<and> distinct (map job_id js) \<and>
       set js = {j. st_jobs s (job_id j) = Some j \<and>
                    (c = EnabledNotPaused \<longrightarrow> enabled j \<and> \<not> paused j)} \<and>
       (c = NewestFirst \<longrightarrow> sorted (map (\<lambda>j. - createdAt j) js)))
   | JobFindUnique i \<Rightarrow> r = RJobOpt (st_jobs s i) \<and> s' = s
   | JobCreate d \<Rightarrow> (\<exists>j. r = RJob j \<and> job_inserted d j s s')
   | JobUpdate i p \<Rightarrow> (\<exists>j. st_jobs s i = Some j \<and> r = RJob (patched_job s p j) \<and>
       s' = s\<lparr>st_jobs := (st_jobs s)(i \<mapsto> patched_job s p j)\<rparr>)
   | JobUpdateMany ids b \<Rightarrow> r = RInt (int (card {i \<in> set ids. st_jobs s i \<noteq> None})) \<and>
       s' = enable_jobs ids b s
   | JobDelete i \<Rightarrow> (\<exists>j. st_jobs s i = Some j \<and> r = RJob j) \<and> s' = delete_job i s
   | ExecCreate d \<Rightarrow> (\<exists>e. r = RExec e \<and> exec_inserted d e s s')
   | ExecFindUnique i \<Rightarrow> r = RExecOpt (st_execs s i) \<and> s' = s
   | ExecUpdate i p \<Rightarrow> (\<exists>e. st_execs s i = Some e \<and> r = RExec (apply_exec_patch p e) \<and>
       s' = s\<lparr>st_execs := (st_execs s)(i \<mapsto> apply_exec_patch p e)\<rparr>)
   | ExecFindMany eq \<Rightarrow> s' = s \<and> (\<exists>sk tk all. page_arg (eq_skip eq) = Some sk \<and> page_arg (eq_take eq) = Some tk \<and>
       r = RExecs (take tk (drop sk all)) \<and>
       distinct (map exec_id all) \<and> sorted (map (\<lambda>e. - triggeredAt e) all) \<and>
       set all = {e. st_execs s (exec_id e) = Some e \<and> exec_jobId e = eq_jobId eq})
   | ExecFindFinished j since \<Rightarrow> s' = s \<and> (\<exists>xs. r = RExecs xs \<and> distinct (map exec_id xs) \<and>
       set xs = {e. st_execs s (exec_id e) = Some e \<and> exec_jobId e = j \<and> since \<le> triggeredAt e \<and>
                    status e \<in> {SUCCESS, FAILED, DEAD} \<and> finishedAt e \<noteq> None})
   | ExecCount j \<Rightarrow> s' = s \<and>
       r = RInt (int (card {e. st_execs s (exec_id e) = Some e \<and> exec_jobId e = j}))
   | QueueAdd d opt \<Rightarrow> r = RUnit \<and> s' = s\<lparr>st_queue := st_queue s @ [(d, opt)]\<rparr>
   | DeadQueueAdd d \<Rightarrow> r = RUnit \<and> s' = s\<lparr>st_dead := st_dead s @ [d]\<rparr>
   | Fetch f \<Rightarrow> (\<exists>n. r = RHttp n \<and> s' = s\<lparr>st_fetched := st_fetched s @ [(f, Some n)]\<rparr>)
   | DnsLookup h \<Rightarrow> (\<exists>a. r = RAddresses a) \<and> s' = s
   | Now \<Rightarrow> r = RTime (st_clock s) \<and> s' = s
   | RandomUUID \<Rightarrow> (\<exists>u. r = RText u \<and> u \<notin> st_uuids s \<and>
       s' = s\<lparr>st_uuids := insert u (st_uuids s)\<rparr>)
   | Metric m \<Rightarrow> r = RUnit \<and> s' = s\<lparr>st_metrics := st_metrics s @ [m]\<rparr>
   | DbPing \<Rightarrow> r = RUnit \<and> s' = s
   | Process pq \<Rightarrow> r = RUnit \<and> s' = s
   | RedisEval sc k \<Rightarrow> False)"

text \<open>A script runs as one atomic step: the effects of its commands, one after the other.\<close>

primrec script_effect :: "int prog \<Rightarrow> int \<Rightarrow> store \<Rightarrow> store \<Rightarrow> bool" where
  "script_effect (Ret a) n s s' \<longleftrightarrow> n = a \<and> s' = s"
| "script_effect (Throw e) n s s' \<longleftrightarrow> False"
| "script_effect (Call q k) n s s' \<longleftrightarrow>
     (\<exists>r s1. ok_effect q r s s1 \<and> script_effect (k r) n s1 s')"

definition done_effect :: "req \<Rightarrow> resp \<Rightarrow> store \<Rightarrow> store \<Rightarrow> bool" where
  "done_effect q r s s' = (case q of
     RedisEval sc k \<Rightarrow> (\<exists>n. r = RInt n \<and> script_effect (lua_program sc k) n s s')
   | _ \<Rightarrow> ok_effect q r s s')"

section \<open>Failures\<close>

definition error_justified :: "req \<Rightarrow> err \<Rightarrow> store \<Rightarrow> store \<Rightarrow> bool" where
  "error_justified q e s s' = (case e of
     PrismaKnownRequestError c m \<Rightarrow>
       (if c = ''P2002'' then s' = s \<and> (\<exists>d t. q = ExecCreate d \<and> ed_scheduledFor d = Some t \<and>
          slot_taken s (ed_jobId d) t)
        else if c = ''P2003'' then s' = s \<and> (\<exists>d. q = ExecCreate d \<and> st_jobs s (ed_jobId d) = None)
        else if c = ''P2025'' then s' = s \<and>
          ((\<exists>i p. q = JobUpdate i p \<and> st_jobs s i = None) \<or>
           (\<exists>i. q = JobDelete i \<and> st_jobs s i = None) \<or>
           (\<exists>i p. q = ExecUpdate i p \<and> st_execs s i = None))
        else True)
   | _ \<Rightarrow> True)"

text \<open>A failed HTTP request counts as sent, with no status received.\<close>

definition attempted :: "req \<Rightarrow> store \<Rightarrow> store" where
  "attempted q s = (case q of Fetch f \<Rightarrow> s\<lparr>st_fetched := st_fetched s @ [(f, None)]\<rparr> | _ \<Rightarrow> s)"

text \<open>The clock, the random generator and the metrics are local to a process and never fail.\<close>

fun local_call :: "req \<Rightarrow> bool" where
  "local_call Now = True"
| "local_call RandomUUID = True"
| "local_call (Metric m) = True"
| "local_call _ = False"

definition fail_effect :: "req \<Rightarrow> err \<Rightarrow> store \<Rightarrow> store \<Rightarrow> bool" where
  "fail_effect q e s s' \<longleftrightarrow> \<not> local_call q \<and> error_justified q e s s' \<and>
     (s' = attempted q s \<or> ((\<nexists>f. q = Fetch f) \<and> (\<exists>r. done_effect q r s s')))"

text \<open>The effect of a call at the instant it reaches the service, and after any delay.\<close>

definition instant_effect :: "req \<Rightarrow> resp \<Rightarrow> store \<Rightarrow> store \<Rightarrow> bool" where
  "instant_effect q r s s' = (case r of RErr e \<Rightarrow> fail_effect q e s s' | _ \<Rightarrow> done_effect q r s s')"

definition call_effect :: "req \<Rightarrow> resp \<Rightarrow> store \<Rightarrow> store \<Rightarrow> bool" where
  "call_effect q r s s' \<longleftrightarrow> (\<exists>t \<ge> st_clock s. instant_effect q r (s\<lparr>st_clock := t\<rparr>) s')"

section \<open>The contract\<close>

definition services_ok :: "'w services \<Rightarrow> 'w view \<Rightarrow> bool" where
  "services_ok svc V \<longleftrightarrow> (\<forall>q w r w'. svc q w = (r, w') \<longrightarrow> call_effect q r (V w) (V w'))"

definition expected_error :: "req \<Rightarrow> err \<Rightarrow> bool" where
  "expected_error q e \<longleftrightarrow> (\<exists>k v x. q \<in> {RedisSet k v x, RedisSetNX k v x} \<and> \<not> expiry_valid x) \<or>
     (\<exists>eq. q = ExecFindMany eq \<and> (page_arg (eq_skip eq) = None \<or> page_arg (eq_take eq) = None)) \<or>
     (\<exists>f. q = Fetch f) \<or> (\<exists>h. q = DnsLookup h) \<or>
     (\<exists>c m. e = PrismaKnownRequestError c m \<and> c \<in> {''P2002'', ''P2003'', ''P2025''})"

definition reliable :: "'w services \<Rightarrow> 'w view \<Rightarrow> bool" where
  "reliable svc V \<longleftrightarrow> services_ok svc V \<and>
     (\<forall>q w e w'. svc q w = (RErr e, w') \<longrightarrow> expected_error q e)"

text \<open>Rows carry their key, their identifiers were issued, and an execution's job exists.\<close>

definition tables_wf :: "store \<Rightarrow> bool" where
  "tables_wf s \<longleftrightarrow>
     (\<forall>i j. st_jobs s i = Some j \<longrightarrow> job_id j = i \<and> i \<in> st_ids s) \<and>
     (\<forall>i e. st_execs s i = Some e \<longrightarrow>
        exec_id e = i \<and> i \<in> st_ids s \<and> st_jobs s (exec_jobId e) \<noteq> None)"

section \<open>Laws derived from the contract\<close>

lemma reliable_ok: "reliable svc V \<Longrightarrow> services_ok svc V"
  by (simp add: reliable_def)

lemma services_okD: "services_ok svc V \<Longrightarrow> svc q w = (r, w') \<Longrightarrow> call_effect q r (V w) (V w')"
  by (simp add: services_ok_def)

lemma ok_effect_not_err: "ok_effect q (RErr e) s s' \<Longrightarrow> False"
  by (cases q) (auto simp: ok_effect_def split: if_splits option.splits)

lemma done_effect_not_err: "done_effect q (RErr e) s s' \<Longrightarrow> False"
  unfolding done_effect_def using ok_effect_not_err by (cases q) auto

lemma instant_effect_done: "\<forall>e. r \<noteq> RErr e \<Longrightarrow> instant_effect q r s s' = done_effect q r s s'"
  by (cases r) (simp_all add: instant_effect_def)

lemma instant_effect_RErr: "instant_effect q (RErr e) s s' = fail_effect q e s s'"
  by (simp add: instant_effect_def)

lemma done_instant: "done_effect q r s s' \<Longrightarrow> instant_effect q r s s'"
  using done_effect_not_err by (cases r) (auto simp: instant_effect_def)

lemma call_effect_cases:
  assumes "call_effect q r s s'"
  obtains (completed) t r' where "st_clock s \<le> t" "done_effect q r' (s\<lparr>st_clock := t\<rparr>) s'"
      "r = r' \<or> (\<exists>e. r = RErr e)"
  | (failed) t e where "st_clock s \<le> t" "r = RErr e" "s' = attempted q (s\<lparr>st_clock := t\<rparr>)"
proof -
  from assms obtain t where t: "st_clock s \<le> t" "instant_effect q r (s\<lparr>st_clock := t\<rparr>) s'"
    by (auto simp: call_effect_def)
  show thesis
  proof (cases "\<exists>e. r = RErr e")
    case True
    with t that show thesis by (auto simp: instant_effect_RErr fail_effect_def)
  next
    case False
    with t have "done_effect q r (s\<lparr>st_clock := t\<rparr>) s'" by (simp add: instant_effect_done)
    with t that(1) show thesis by blast
  qed
qed

text \<open>A fault-free call completes, or fails in an expected way.\<close>

definition reliable_effect :: "req \<Rightarrow> resp \<Rightarrow> store \<Rightarrow> store \<Rightarrow> bool" where
  "reliable_effect q r s s' \<longleftrightarrow>
     done_effect q r s s' \<or> (\<exists>e. r = RErr e \<and> expected_error q e \<and> fail_effect q e s s')"

lemma reliable_reliable_effect:
  assumes "reliable svc V" "svc q w = (r, w')"
  shows "\<exists>t \<ge> st_clock (V w). reliable_effect q r ((V w)\<lparr>st_clock := t\<rparr>) (V w')"
proof -
  from assms have "call_effect q r (V w) (V w')"
    by (auto simp: reliable_def services_ok_def)
  then obtain t where t: "st_clock (V w) \<le> t" "instant_effect q r ((V w)\<lparr>st_clock := t\<rparr>) (V w')"
    by (auto simp: call_effect_def)
  have "reliable_effect q r ((V w)\<lparr>st_clock := t\<rparr>) (V w')"
  proof (cases "\<exists>e. r = RErr e")
    case True
    then obtain e where e: "r = RErr e" by blast
    with assms have "expected_error q e" by (simp add: reliable_def) blast
    with e t show ?thesis by (simp add: reliable_effect_def instant_effect_RErr)
  next
    case False
    with t show ?thesis by (simp add: reliable_effect_def instant_effect_done)
  qed
  with t(1) show ?thesis by blast
qed

section \<open>The tables stay well-formed\<close>

lemma tables_wf_clock: "tables_wf s \<Longrightarrow> tables_wf (s\<lparr>st_clock := t\<rparr>)"
  by (simp add: tables_wf_def)

lemma attempted_tables [simp]:
  "st_jobs (attempted q s) = st_jobs s" "st_execs (attempted q s) = st_execs s"
  "st_ids (attempted q s) = st_ids s" "st_queue (attempted q s) = st_queue s"
  "st_kv (attempted q s) = st_kv s" "st_clock (attempted q s) = st_clock s"
  by (cases q; simp add: attempted_def)+

section \<open>The clock never goes back\<close>

lemma ok_effect_clock: "ok_effect q r s s' \<Longrightarrow> st_clock s' = st_clock s"
  by (cases q) (auto simp: ok_effect_def job_inserted_def exec_inserted_def enable_jobs_def delete_job_def
      split: if_splits option.splits)

lemma script_effect_clock: "script_effect p n s s' \<Longrightarrow> st_clock s' = st_clock s"
proof (induction p arbitrary: s)
  case (Call q k)
  then show ?case by (metis ok_effect_clock rangeI script_effect.simps(3))
qed simp_all

lemma done_effect_clock: "done_effect q r s s' \<Longrightarrow> st_clock s' = st_clock s"
  unfolding done_effect_def
  by (cases q) (auto dest: ok_effect_clock script_effect_clock)

lemma call_effect_clock: "call_effect q r s s' \<Longrightarrow> st_clock s \<le> st_clock s'"
  by (erule call_effect_cases) (auto dest: done_effect_clock)

lemma run_clock:
  assumes "services_ok svc V" "run svc p w = (res, w')"
  shows "st_clock (V w) \<le> st_clock (V w')"
  using assms(2)
proof (induction p arbitrary: w)
  case (Call q k)
  obtain r u where u: "svc q w = (r, u)" by fastforce
  from call_effect_clock [OF services_okD [OF assms(1) u]] Call u show ?case by fastforce
qed simp_all

section \<open>What a call leaves unchanged\<close>

lemma ok_effect_fetched: "ok_effect q r s s' \<Longrightarrow> \<nexists>f. q = Fetch f \<Longrightarrow> st_fetched s' = st_fetched s"
  by (cases q) (auto simp: ok_effect_def job_inserted_def exec_inserted_def enable_jobs_def delete_job_def
      split: if_splits option.splits)

text \<open>The scripts only touch Redis keys.\<close>

lemma script_effect_keys: "script_effect (lua_program sc k) n s s' \<Longrightarrow> s' = s\<lparr>st_kv := st_kv s'\<rparr>"
  by (cases sc) (auto simp: RELEASE_SCRIPT_def RENEW_SCRIPT_def prog_defs ok_effect_def
      split: if_splits option.splits)

lemma done_effect_fetched: "done_effect q r s s' \<Longrightarrow> \<nexists>f. q = Fetch f \<Longrightarrow> st_fetched s' = st_fetched s"
proof (cases "\<exists>sc k. q = RedisEval sc k")
  case True
  assume "done_effect q r s s'"
  with True obtain sc k n where "script_effect (lua_program sc k) n s s'" by (auto simp: done_effect_def)
  then have "s' = s\<lparr>st_kv := st_kv s'\<rparr>" by (rule script_effect_keys)
  then show ?thesis by (metis store.select_convs(9) store.surjective store.update_convs(4))
next
  case False
  assume "done_effect q r s s'" "\<nexists>f. q = Fetch f"
  moreover from False have "done_effect q r s s' = ok_effect q r s s'"
    unfolding done_effect_def by (cases q) simp_all
  ultimately show ?thesis using ok_effect_fetched by blast
qed

section \<open>Slots stay claimed\<close>

text \<open>
  A claim of a slot is backed by its row, or by the deletion of its job, whose identifier is never
  issued again. A backed claim stays backed whatever is called, which is why a slot that was
  claimed once can never be claimed again.
\<close>

definition backed :: "store \<Rightarrow> string \<times> string \<times> time \<Rightarrow> bool" where
  "backed s c \<longleftrightarrow> (case c of (x, j, t) \<Rightarrow>
     (\<exists>e. st_execs s x = Some e \<and> exec_jobId e = j \<and> scheduledFor e = Some t) \<or>
     (st_jobs s j = None \<and> j \<in> st_ids s))"

definition tables_kept :: "store \<Rightarrow> store \<Rightarrow> bool" where
  "tables_kept s s' \<longleftrightarrow> tables_wf s' \<and> st_ids s \<subseteq> st_ids s' \<and> (\<forall>c. backed s c \<longrightarrow> backed s' c)"

lemma tables_kept_same:
  "tables_wf s \<Longrightarrow> st_jobs s' = st_jobs s \<Longrightarrow> st_execs s' = st_execs s \<Longrightarrow> st_ids s' = st_ids s \<Longrightarrow> tables_kept s s'"
  by (simp add: tables_kept_def tables_wf_def backed_def)

lemma tables_kept_trans: "tables_kept s s' \<Longrightarrow> tables_kept s' s'' \<Longrightarrow> tables_kept s s''"
  by (auto simp: tables_kept_def)

lemma exec_inserted_select:
  assumes "exec_inserted d e s s'"
  shows "exec_jobId e = ed_jobId d" "scheduledFor e = ed_scheduledFor d" "status e = ed_status d"
    "attemptNumber e = ed_attemptNumber d" "triggerSource e = ed_triggerSource d"
    "triggeredAt e = st_clock s" "exec_id e \<notin> st_ids s" "st_jobs s (ed_jobId d) \<noteq> None"
    "s' = s\<lparr>st_execs := (st_execs s)(exec_id e \<mapsto> e), st_ids := insert (exec_id e) (st_ids s)\<rparr>"
  using assms unfolding exec_inserted_def by (metis execution.select_convs)+

lemma exec_inserted_kept: "tables_wf s \<Longrightarrow> exec_inserted d e s s' \<Longrightarrow> tables_kept s s'"
  using exec_inserted_select [of d e s s']
  unfolding tables_kept_def tables_wf_def backed_def by (auto split: if_splits)

lemma job_inserted_kept: "tables_wf s \<Longrightarrow> job_inserted d j s s' \<Longrightarrow> tables_kept s s'"
  unfolding tables_kept_def tables_wf_def backed_def job_inserted_def
  by (auto split: if_splits)

lemma job_patched_kept:
  "tables_wf s \<Longrightarrow> st_jobs s i = Some j \<Longrightarrow> tables_kept s (s\<lparr>st_jobs := (st_jobs s)(i \<mapsto> patched_job s p j)\<rparr>)"
  unfolding tables_kept_def tables_wf_def backed_def patched_job_def
  by (auto split: if_splits)

lemma exec_patched_kept:
  "tables_wf s \<Longrightarrow> st_execs s i = Some e \<Longrightarrow> tables_kept s (s\<lparr>st_execs := (st_execs s)(i \<mapsto> apply_exec_patch p e)\<rparr>)"
  unfolding tables_kept_def tables_wf_def backed_def
  by (auto split: if_splits)

lemma enable_jobs_kept: "tables_wf s \<Longrightarrow> tables_kept s (enable_jobs ids b s)"
  unfolding tables_kept_def tables_wf_def backed_def enable_jobs_def
  by (auto split: if_splits)

lemma delete_job_kept: "tables_wf s \<Longrightarrow> st_jobs s i = Some j \<Longrightarrow> tables_kept s (delete_job i s)"
  unfolding tables_kept_def tables_wf_def backed_def delete_job_def
  by (auto split: if_splits option.splits)

lemma ok_effect_kept:
  assumes "tables_wf s" "ok_effect q r s s'"
  shows "tables_kept s s'"
proof (cases q)
  case ExecCreate
  with assms show ?thesis by (auto simp: ok_effect_def intro: exec_inserted_kept)
next
  case JobCreate
  with assms show ?thesis by (auto simp: ok_effect_def intro: job_inserted_kept)
next
  case JobUpdate
  with assms show ?thesis by (auto simp: ok_effect_def intro: job_patched_kept)
next
  case ExecUpdate
  with assms show ?thesis by (auto simp: ok_effect_def intro: exec_patched_kept)
next
  case JobUpdateMany
  with assms show ?thesis by (auto simp: ok_effect_def intro: enable_jobs_kept)
next
  case JobDelete
  with assms show ?thesis by (auto simp: ok_effect_def intro: delete_job_kept)
qed (use assms in \<open>auto simp: ok_effect_def intro!: tables_kept_same split: if_splits option.splits\<close>)

lemma done_effect_kept:
  assumes "tables_wf s" "done_effect q r s s'"
  shows "tables_kept s s'"
proof (cases "\<exists>sc k. q = RedisEval sc k")
  case True
  with assms(2) obtain sc k n where "script_effect (lua_program sc k) n s s'" by (auto simp: done_effect_def)
  then have "s' = s\<lparr>st_kv := st_kv s'\<rparr>" by (rule script_effect_keys)
  then have "st_jobs s' = st_jobs s" "st_execs s' = st_execs s" "st_ids s' = st_ids s"
    by (metis store.select_convs store.surjective store.update_convs(4))+
  with assms(1) show ?thesis by (rule tables_kept_same)
next
  case False
  then have "done_effect q r s s' = ok_effect q r s s'" unfolding done_effect_def by (cases q) simp_all
  with assms ok_effect_kept show ?thesis by blast
qed

theorem call_effect_kept:
  assumes "tables_wf s" "call_effect q r s s'"
  shows "tables_kept s s'"
  using assms(2)
proof (cases rule: call_effect_cases)
  case (completed t r')
  let ?s = "s\<lparr>st_clock := t\<rparr>"
  have "tables_kept s ?s" using assms(1) by (intro tables_kept_same) simp_all
  moreover have "tables_kept ?s s'"
    using completed assms(1) by (intro done_effect_kept) (simp_all add: tables_wf_clock)
  ultimately show ?thesis by (rule tables_kept_trans)
next
  case (failed t e)
  with assms(1) show ?thesis by (intro tables_kept_same) simp_all
qed

lemma run_kept:
  assumes "services_ok svc V" "tables_wf (V w)" "run svc p w = (res, w')"
  shows "tables_kept (V w) (V w')"
  using assms(2,3)
proof (induction p arbitrary: w)
  case (Call q k)
  obtain r u where u: "svc q w = (r, u)" by fastforce
  with call_effect_kept [OF Call.prems(1) services_okD [OF assms(1) u]] Call show ?case
    by (fastforce simp: tables_kept_def)
qed (simp_all add: tables_kept_def)

end
