(* ===== verification/Fault_Free.thy ===== *)
theory Fault_Free
  imports Service_Contract
begin

text \<open>
  A weakest-precondition calculus for fault-free runs. \<open>wp p Q s\<close>: every run of the program
  \<open>p\<close> from a store \<open>s\<close>, against any services that satisfy \<open>reliable\<close>, ends with an outcome and a
  store that satisfy \<open>Q\<close>. The rules below compute \<open>wp\<close> through the program constructors and
  through each service call, so that the functional behaviour of a handler is proved by
  rewriting; \<open>wp_run\<close> carries the result to \<open>run\<close>.
\<close>

text \<open>Any amount of time may pass before a call takes effect.\<close>

definition later :: "store \<Rightarrow> (store \<Rightarrow> bool) \<Rightarrow> bool" where
  "later s P \<longleftrightarrow> (\<forall>t \<ge> st_clock s. P (s\<lparr>st_clock := t\<rparr>))"

lemma later_eqI: "(\<And>u. P u = P' u) \<Longrightarrow> later s P = later s P'"
  by (simp add: later_def)

lemma later_mono: "later s P \<Longrightarrow> (\<And>u. P u \<Longrightarrow> P' u) \<Longrightarrow> later s P'"
  by (simp add: later_def)

lemma later_conj: "later s (\<lambda>u. P u \<and> P' u) \<longleftrightarrow> later s P \<and> later s P'"
  by (auto simp: later_def)

primrec wp :: "'a prog \<Rightarrow> ('a outcome \<Rightarrow> store \<Rightarrow> bool) \<Rightarrow> store \<Rightarrow> bool" where
  "wp (Ret a) Q s = Q (Inr a) s"
| "wp (Throw e) Q s = Q (Inl e) s"
| "wp (Call q k) Q s = later s (\<lambda>u. \<forall>r s'. reliable_effect q r u s' \<longrightarrow> wp (k r) Q s')"

theorem wp_run:
  assumes "reliable svc V" "wp p Q (V w)" "run svc p w = (res, w')"
  shows "Q res (V w')"
  using assms(2,3)
proof (induction p arbitrary: w)
  case (Call q k)
  obtain r u where u: "svc q w = (r, u)" by fastforce
  with Call.prems have "wp (k r) Q (V u)" "run svc (k r) u = (res, w')"
    using reliable_reliable_effect [OF assms(1) u] by (auto simp: later_def)
  with Call.IH show ?case by blast
qed simp_all

lemma wp_run_result:
  assumes "reliable svc V" "wp p Q (V w)"
  shows "Q (fst (run svc p w)) (V (snd (run svc p w)))"
  using wp_run [OF assms, of "fst (run svc p w)" "snd (run svc p w)"] by simp

lemma wp_bind [simp]:
  "wp (bind p f) Q s = wp p (\<lambda>res s'. case res of Inl e \<Rightarrow> Q (Inl e) s' | Inr a \<Rightarrow> wp (f a) Q s') s"
  by (induction p arbitrary: s) simp_all

lemma wp_try_catch [simp]:
  "wp (try_catch p h) Q s =
     wp p (\<lambda>res s'. case res of Inl e \<Rightarrow> wp (h e) Q s' | Inr a \<Rightarrow> Q (Inr a) s') s"
  by (induction p arbitrary: s) simp_all

lemma wp_mono: "wp p Q s \<Longrightarrow> (\<And>res s'. Q res s' \<Longrightarrow> Q' res s') \<Longrightarrow> wp p Q' s"
  by (induction p arbitrary: s) (auto simp: later_def)

lemma wp_conj: "wp p (\<lambda>res s'. Q res s' \<and> Q' res s') s \<longleftrightarrow> wp p Q s \<and> wp p Q' s"
  by (induction p arbitrary: s) (auto simp: later_def)

lemma wp_if [simp]: "wp (if b then p else p') Q s = (if b then wp p Q s else wp p' Q s)"
  by simp

text \<open>A loop whose body never throws, with an invariant on the elements done so far.\<close>

lemma wp_for_each:
  assumes "I [] s" "\<And>ys x zs u. xs = ys @ x # zs \<Longrightarrow> I ys u \<Longrightarrow> wp (f x) (\<lambda>res u'. res = Inr () \<and> I (ys @ [x]) u') u"
  shows "wp (for_each f xs) (\<lambda>res u. res = Inr () \<and> I xs u) s"
proof -
  have "wp (for_each f zs) (\<lambda>res u. res = Inr () \<and> I xs u) u" if "xs = ys @ zs" "I ys u" for ys zs u
    using that
  proof (induction zs arbitrary: ys u)
    case (Cons x zs)
    have "wp (f x) (\<lambda>res u'. res = Inr () \<and> I (ys @ [x]) u') u"
      using Cons.prems by (intro assms(2)) auto
    then show ?case
      unfolding for_each.simps wp_bind by (rule wp_mono) (use Cons in auto)
  qed simp
  from this [of "[]" xs s] assms(1) show ?thesis by simp
qed

section \<open>Which responses a request can have\<close>

lemma reliable_effect_unrefused:
  assumes "\<nexists>f. q = Fetch f" "\<nexists>h. q = DnsLookup h" "\<nexists>d. q = ExecCreate d"
    "\<nexists>i p. q = JobUpdate i p" "\<nexists>i. q = JobDelete i" "\<nexists>i p. q = ExecUpdate i p"
    "\<nexists>k v x. q = RedisSet k v x" "\<nexists>k v x. q = RedisSetNX k v x" "\<nexists>eq. q = ExecFindMany eq"
  shows "reliable_effect q r s s' = done_effect q r s s'"
  using assms
  by (auto simp: reliable_effect_def fail_effect_def expected_error_def error_justified_def)

lemma reliable_effect_refusable:
  assumes "\<nexists>f. q = Fetch f" "\<nexists>h. q = DnsLookup h" "\<nexists>k v x. q = RedisSet k v x"
    "\<nexists>k v x. q = RedisSetNX k v x" "\<nexists>eq. q = ExecFindMany eq"
  shows "reliable_effect q r s s' \<longleftrightarrow> done_effect q r s s' \<or>
    (s' = s \<and> (\<exists>m.
      (r = RErr (PrismaKnownRequestError ''P2002'' m) \<and>
        (\<exists>d t. q = ExecCreate d \<and> ed_scheduledFor d = Some t \<and> slot_taken s (ed_jobId d) t)) \<or>
      (r = RErr (PrismaKnownRequestError ''P2003'' m) \<and>
        (\<exists>d. q = ExecCreate d \<and> st_jobs s (ed_jobId d) = None)) \<or>
      (r = RErr (PrismaKnownRequestError ''P2025'' m) \<and>
        ((\<exists>i p. q = JobUpdate i p \<and> st_jobs s i = None) \<or>
         (\<exists>i. q = JobDelete i \<and> st_jobs s i = None) \<or>
         (\<exists>i p. q = ExecUpdate i p \<and> st_execs s i = None)))))"
  using assms
  by (auto simp: reliable_effect_def fail_effect_def expected_error_def error_justified_def
    attempted_def)

text \<open>Requests with no failure: the response and the new store they determine.\<close>

lemma reliable_redis [simp]:
  "reliable_effect (RedisGet k) r s s' \<longleftrightarrow> r = RVal (live s k) \<and> s' = s"
  "reliable_effect (RedisDel k) r s s' \<longleftrightarrow>
     r = RInt (if live s k = None then 0 else 1) \<and> s' = s\<lparr>st_kv := (st_kv s)(k := None)\<rparr>"
  "reliable_effect (RedisPublish c ev) r s s' \<longleftrightarrow>
     (\<exists>n. r = RInt n) \<and> s' = s\<lparr>st_events := st_events s @ [ev]\<rparr>"
  by (subst reliable_effect_unrefused; simp add: done_effect_def ok_effect_def)+

lemma reliable_set:
  "reliable_effect (RedisSet k v x) r s s' \<longleftrightarrow>
     (if expiry_valid x then r = RUnit \<and> s' = s\<lparr>st_kv := (st_kv s)(k \<mapsto> (v, deadline s x))\<rparr>
      else s' = s \<and> (\<exists>e. r = RErr e \<and> error_justified (RedisSet k v x) e s s))"
  by (auto simp: reliable_effect_def done_effect_def ok_effect_def expected_error_def fail_effect_def
      error_justified_def attempted_def)

lemma reliable_setnx:
  "reliable_effect (RedisSetNX k v x) r s s' \<longleftrightarrow>
     (if \<not> expiry_valid x then s' = s \<and> (\<exists>e. r = RErr e \<and> error_justified (RedisSetNX k v x) e s s)
      else if live s k = None
      then r = RBool True \<and> s' = s\<lparr>st_kv := (st_kv s)(k \<mapsto> (v, deadline s x))\<rparr>
      else r = RBool False \<and> s' = s)"
  by (auto simp: reliable_effect_def done_effect_def ok_effect_def expected_error_def fail_effect_def
      error_justified_def attempted_def)

lemma reliable_lookups [simp]:
  "reliable_effect (JobFindUnique i) r s s' \<longleftrightarrow> r = RJobOpt (st_jobs s i) \<and> s' = s"
  "reliable_effect (ExecFindUnique i) r s s' \<longleftrightarrow> r = RExecOpt (st_execs s i) \<and> s' = s"
  "reliable_effect Now r s s' \<longleftrightarrow> r = RTime (st_clock s) \<and> s' = s"
  by (subst reliable_effect_unrefused; simp add: done_effect_def ok_effect_def)+

lemma reliable_writes [simp]:
  "reliable_effect (QueueAdd d opt) r s s' \<longleftrightarrow>
     r = RUnit \<and> s' = s\<lparr>st_queue := st_queue s @ [(d, opt)]\<rparr>"
  "reliable_effect (DeadQueueAdd dd) r s s' \<longleftrightarrow> r = RUnit \<and> s' = s\<lparr>st_dead := st_dead s @ [dd]\<rparr>"
  "reliable_effect (Metric m) r s s' \<longleftrightarrow> r = RUnit \<and> s' = s\<lparr>st_metrics := st_metrics s @ [m]\<rparr>"
  "reliable_effect (JobUpdateMany ids b) r s s' \<longleftrightarrow>
     r = RInt (int (card {i \<in> set ids. st_jobs s i \<noteq> None})) \<and> s' = enable_jobs ids b s"
  "reliable_effect (JobCreate jd) r s s' \<longleftrightarrow> (\<exists>j. r = RJob j \<and> job_inserted jd j s s')"
  "reliable_effect RandomUUID r s s' \<longleftrightarrow>
     (\<exists>u. r = RText u \<and> u \<notin> st_uuids s \<and> s' = s\<lparr>st_uuids := insert u (st_uuids s)\<rparr>)"
  by (subst reliable_effect_unrefused; simp add: done_effect_def ok_effect_def)+

text \<open>Requests that a constraint can refuse, and requests that the network can fail.\<close>

lemma reliable_refusable [simp]:
  "reliable_effect (JobUpdate i p) r s s' \<longleftrightarrow> (case st_jobs s i of
     None \<Rightarrow> s' = s \<and> (\<exists>m. r = RErr (PrismaKnownRequestError ''P2025'' m))
   | Some j \<Rightarrow> r = RJob (patched_job s p j) \<and>
       s' = s\<lparr>st_jobs := (st_jobs s)(i \<mapsto> patched_job s p j)\<rparr>)"
  "reliable_effect (JobDelete i) r s s' \<longleftrightarrow> (case st_jobs s i of
     None \<Rightarrow> s' = s \<and> (\<exists>m. r = RErr (PrismaKnownRequestError ''P2025'' m))
   | Some j \<Rightarrow> r = RJob j \<and> s' = delete_job i s)"
  "reliable_effect (ExecUpdate i ep) r s s' \<longleftrightarrow> (case st_execs s i of
     None \<Rightarrow> s' = s \<and> (\<exists>m. r = RErr (PrismaKnownRequestError ''P2025'' m))
   | Some e \<Rightarrow> r = RExec (apply_exec_patch ep e) \<and>
       s' = s\<lparr>st_execs := (st_execs s)(i \<mapsto> apply_exec_patch ep e)\<rparr>)"
  by (subst reliable_effect_refusable; auto simp: done_effect_def ok_effect_def split: option.splits)+

lemma reliable_exec_create:
  "reliable_effect (ExecCreate d) r s s' \<longleftrightarrow>
     (\<exists>e. r = RExec e \<and> exec_inserted d e s s') \<or>
     (s' = s \<and> (\<exists>m. r = RErr (PrismaKnownRequestError ''P2002'' m)) \<and>
        (\<exists>t. ed_scheduledFor d = Some t \<and> slot_taken s (ed_jobId d) t)) \<or>
     (s' = s \<and> (\<exists>m. r = RErr (PrismaKnownRequestError ''P2003'' m)) \<and> st_jobs s (ed_jobId d) = None)"
  by (subst reliable_effect_refusable; auto simp: done_effect_def ok_effect_def)

lemma reliable_network:
  "reliable_effect (Fetch f) r s s' \<longleftrightarrow>
     (\<exists>n. r = RHttp n \<and> s' = s\<lparr>st_fetched := st_fetched s @ [(f, Some n)]\<rparr>) \<or>
     (s' = s\<lparr>st_fetched := st_fetched s @ [(f, None)]\<rparr> \<and>
      (\<exists>e. r = RErr e \<and> error_justified (Fetch f) e s s'))"
  "reliable_effect (DnsLookup h) r s s' \<longleftrightarrow> s' = s \<and>
     ((\<exists>a. r = RAddresses a) \<or> (\<exists>e. r = RErr e \<and> error_justified (DnsLookup h) e s s'))"
  by (auto simp: reliable_effect_def done_effect_def ok_effect_def expected_error_def
    fail_effect_def attempted_def)

section \<open>Rules for the calls\<close>

lemmas response_split = imp_disjL all_conj_distrib imp_conjL imp_ex

lemma wp_redis [simp]:
  "wp (call_val (RedisGet k)) Qv s = later s (\<lambda>u. Qv (Inr (live u k)) u)"
  "wp (call_unit (RedisDel k)) Qu s = later s (\<lambda>u. Qu (Inr ()) (u\<lparr>st_kv := (st_kv u)(k := None)\<rparr>))"
  by (simp_all add: call_val_def call_unit_def)

lemma all_range: "(\<forall>r. (\<exists>x. r = f x) \<longrightarrow> P r) \<longleftrightarrow> (\<forall>x. P (f x))"
  by blast

lemma wp_publish [simp]:
  "wp (call_unit (RedisPublish c ev)) Qu s =
     later s (\<lambda>u. Qu (Inr ()) (u\<lparr>st_events := st_events u @ [ev]\<rparr>))"
  by (simp add: call_unit_def all_range)

lemma wp_set [simp]:
  "wp (call_unit (RedisSet k v x)) Qu s = later s (\<lambda>u.
     if expiry_valid x then Qu (Inr ()) (u\<lparr>st_kv := (st_kv u)(k \<mapsto> (v, deadline u x))\<rparr>)
     else \<forall>e. error_justified (RedisSet k v x) e u u \<longrightarrow> Qu (Inl e) u)"
  unfolding call_unit_def wp.simps 
  by (rule later_eqI, cases "expiry_valid x") (simp_all add: reliable_set response_split)

lemma wp_setnx [simp]:
  "wp (call_bool (RedisSetNX k v x)) Qb s = later s (\<lambda>u.
     if \<not> expiry_valid x then \<forall>e. error_justified (RedisSetNX k v x) e u u \<longrightarrow> Qb (Inl e) u
     else if live u k = None then Qb (Inr True) (u\<lparr>st_kv := (st_kv u)(k \<mapsto> (v, deadline u x))\<rparr>)
     else Qb (Inr False) u)"
  unfolding call_bool_def wp.simps 
proof (rule later_eqI, goal_cases)
  case (1 u)
  show ?case
    by (cases "expiry_valid x"; cases "live u k") (simp_all add: reliable_setnx response_split)
qed

lemma wp_lookups [simp]:
  "wp (call_job_opt (JobFindUnique i)) Qjo s = later s (\<lambda>u. Qjo (Inr (st_jobs u i)) u)"
  "wp (call_exec_opt (ExecFindUnique i)) Qeo s = later s (\<lambda>u. Qeo (Inr (st_execs u i)) u)"
  "wp date_now Qt s = later s (\<lambda>u. Qt (Inr (st_clock u)) u)"
  by (simp_all add: call_job_opt_def call_exec_opt_def date_now_def call_time_def)

lemma wp_writes [simp]:
  "wp (call_unit (QueueAdd d opt)) Qu s =
     later s (\<lambda>u. Qu (Inr ()) (u\<lparr>st_queue := st_queue u @ [(d, opt)]\<rparr>))"
  "wp (call_unit (DeadQueueAdd dd)) Qu s =
     later s (\<lambda>u. Qu (Inr ()) (u\<lparr>st_dead := st_dead u @ [dd]\<rparr>))"
  "wp (metric_inc m) Qu s = later s (\<lambda>u. Qu (Inr ()) (u\<lparr>st_metrics := st_metrics u @ [m]\<rparr>))"
  "wp (call_int (JobUpdateMany ids b)) Qi s = later s (\<lambda>u.
     Qi (Inr (int (card {i \<in> set ids. st_jobs u i \<noteq> None}))) (enable_jobs ids b u))"
  by (simp_all add: call_unit_def call_int_def metric_inc_def)

lemma wp_fresh [simp]:
  "wp (call_job (JobCreate jd)) Qj s =
     later s (\<lambda>u. \<forall>j s'. job_inserted jd j u s' \<longrightarrow> Qj (Inr j) s')"
  "wp randomUUID Qs s = later s (\<lambda>u.
     \<forall>x. x \<notin> st_uuids u \<longrightarrow> Qs (Inr x) (u\<lparr>st_uuids := insert x (st_uuids u)\<rparr>))"
  unfolding call_job_def randomUUID_def call_text_def wp.simps
  by (rule later_eqI, force)+

lemma wp_refusable [simp]:
  "wp (call_job (JobUpdate i p)) Qj s = later s (\<lambda>u. case st_jobs u i of
     None \<Rightarrow> (\<forall>m. Qj (Inl (PrismaKnownRequestError ''P2025'' m)) u)
   | Some j \<Rightarrow> Qj (Inr (patched_job u p j)) (u\<lparr>st_jobs := (st_jobs u)(i \<mapsto> patched_job u p j)\<rparr>))"
  "wp (call_unit (JobUpdate i p)) Qu s = later s (\<lambda>u. case st_jobs u i of
     None \<Rightarrow> (\<forall>m. Qu (Inl (PrismaKnownRequestError ''P2025'' m)) u)
   | Some j \<Rightarrow> Qu (Inr ()) (u\<lparr>st_jobs := (st_jobs u)(i \<mapsto> patched_job u p j)\<rparr>))"
  "wp (call_unit (JobDelete i)) Qu s = later s (\<lambda>u. case st_jobs u i of
     None \<Rightarrow> (\<forall>m. Qu (Inl (PrismaKnownRequestError ''P2025'' m)) u)
   | Some j \<Rightarrow> Qu (Inr ()) (delete_job i u))"
  "wp (call_unit (ExecUpdate i ep)) Qu s = later s (\<lambda>u. case st_execs u i of
     None \<Rightarrow> (\<forall>m. Qu (Inl (PrismaKnownRequestError ''P2025'' m)) u)
   | Some e \<Rightarrow> Qu (Inr ()) (u\<lparr>st_execs := (st_execs u)(i \<mapsto> apply_exec_patch ep e)\<rparr>))"
  unfolding call_unit_def call_job_def wp.simps
  by (rule later_eqI, force split: option.splits)+

lemma wp_exec_create:
  "wp (call_exec (ExecCreate d)) Qe s \<longleftrightarrow> later s (\<lambda>u.
     (\<forall>e s'. exec_inserted d e u s' \<longrightarrow> Qe (Inr e) s') \<and>
     ((\<exists>t. ed_scheduledFor d = Some t \<and> slot_taken u (ed_jobId d) t) \<longrightarrow>
        (\<forall>m. Qe (Inl (PrismaKnownRequestError ''P2002'' m)) u)) \<and>
     (st_jobs u (ed_jobId d) = None \<longrightarrow> (\<forall>m. Qe (Inl (PrismaKnownRequestError ''P2003'' m)) u)))"
  by (simp add: call_exec_def reliable_exec_create response_split) (rule later_eqI; blast)

lemma wp_network [simp]:
  "wp (call_http (Fetch f)) Qi s = later s (\<lambda>u.
     (\<forall>n. Qi (Inr n) (u\<lparr>st_fetched := st_fetched u @ [(f, Some n)]\<rparr>)) \<and>
     (let s' = u\<lparr>st_fetched := st_fetched u @ [(f, None)]\<rparr>
      in \<forall>e. error_justified (Fetch f) e u s' \<longrightarrow> Qi (Inl e) s'))"
  "wp (call_addresses (DnsLookup h)) Qa s = later s (\<lambda>u.
     (\<forall>a. Qa (Inr a) u) \<and> (\<forall>e. error_justified (DnsLookup h) e u u \<longrightarrow> Qa (Inl e) u))"
  unfolding call_http_def call_addresses_def wp.simps Let_def
  by (rule later_eqI, simp add: reliable_network response_split)+

lemma wp_find_many [simp]:
  "wp (call_jobs (JobFindMany c)) Qjs s = later s (\<lambda>u.
     \<forall>js. distinct (map job_id js) \<and>
        set js = {j. st_jobs u (job_id j) = Some j \<and>
                     (c = EnabledNotPaused \<longrightarrow> enabled j \<and> \<not> paused j)} \<and>
        (c = NewestFirst \<longrightarrow> sorted (map (\<lambda>j. - createdAt j) js)) \<longrightarrow> Qjs (Inr js) u)"
  by (simp add: call_jobs_def reliable_effect_unrefused done_effect_def ok_effect_def)
    (rule later_eqI; fastforce)

section \<open>Atomic scripts\<close>

lemma script_effect_release:
  "script_effect (RELEASE_SCRIPT k token) n s s' \<longleftrightarrow>
     (if live s k = Some (Plain token) then n = 1 \<and> s' = s\<lparr>st_kv := (st_kv s)(k := None)\<rparr>
      else n = 0 \<and> s' = s)"
  by (auto simp: RELEASE_SCRIPT_def prog_defs ok_effect_def)

lemma script_effect_renew:
  "script_effect (RENEW_SCRIPT k token ttl) n s s' \<longleftrightarrow>
     (if live s k = Some (Plain token)
      then n = 1 \<and>
        s' = s\<lparr>st_kv := (st_kv s)(k \<mapsto> (Plain token, st_clock s + ttl))\<rparr>
      else n = 0 \<and> s' = s)"
  by (auto simp: RENEW_SCRIPT_def prog_defs ok_effect_def)

lemma wp_release [simp]:
  "wp (call_unit (RedisEval (ReleaseScript token) k)) Qu s = later s (\<lambda>u.
     if live u k = Some (Plain token) then Qu (Inr ()) (u\<lparr>st_kv := (st_kv u)(k := None)\<rparr>)
     else Qu (Inr ()) u)"
  unfolding call_unit_def wp.simps
  by (rule later_eqI) (simp add: reliable_effect_unrefused done_effect_def script_effect_release)

lemma wp_renew [simp]:
  "wp (call_int (RedisEval (RenewScript token ttl) k)) Qi s = later s (\<lambda>u.
     if live u k = Some (Plain token)
     then Qi (Inr 1) (u\<lparr>st_kv := (st_kv u)(k \<mapsto> (Plain token, st_clock u + ttl))\<rparr>)
     else Qi (Inr 0) u)"
  unfolding call_int_def wp.simps
  by (rule later_eqI) (simp add: reliable_effect_unrefused done_effect_def script_effect_renew)

section \<open>Keys a call leaves alone\<close>

fun written_key :: "req \<Rightarrow> string option" where
  "written_key (RedisSet k v x) = Some k"
| "written_key (RedisSetNX k v x) = Some k"
| "written_key (RedisDel k) = Some k"
| "written_key (RedisPexpire k t) = Some k"
| "written_key (RedisEval sc k) = Some k"
| "written_key _ = None"

lemma done_effect_other_key:
  assumes "done_effect q r s s'" "written_key q \<noteq> Some k"
  shows "st_kv s' k = st_kv s k"
proof (cases q)
  case (RedisEval sc k')
  with assms show ?thesis
    by (cases sc) (auto simp: done_effect_def script_effect_release script_effect_renew split: if_splits)
qed (use assms in \<open>auto simp: done_effect_def ok_effect_def job_inserted_def exec_inserted_def enable_jobs_def
  delete_job_def split: if_splits option.splits\<close>)

lemma call_effect_other_key:
  assumes "call_effect q r s s'" "written_key q \<noteq> Some k"
  shows "st_kv s' k = st_kv s k"
  using assms(1)
proof (cases rule: call_effect_cases)
  case (completed t r')
  with assms(2) done_effect_other_key show ?thesis by fastforce
next
  case (failed t e)
  then show ?thesis by simp
qed

end
