(* ===== verification/Reference_Services.thy ===== *)
theory Reference_Services
  imports Fault_Free
begin

text \<open>
  An executable instance of the services, which shows that the hypotheses \<open>services_ok\<close> and
  \<open>reliable\<close> of the theorems can hold and at which witnesses evaluate. It models no code of the
  repository: tables are lists of rows, identifiers are numbered, every call takes a fixed
  latency, HTTP outcomes and DNS answers are scripted, and \<open>faults\<close> names the requests that fail.
\<close>

datatype http_outcome = Status int | Aborted | Refused

record ref_world =
  rw_jobs :: "job list"
  rw_execs :: "execution list"
  rw_next :: nat
  rw_kv :: "string \<Rightarrow> (rvalue \<times> time) option"
  rw_uuid :: nat
  rw_queue :: "(exec_job_data \<times> jobs_options) list"
  rw_dead :: "dead_letter_data list"
  rw_events :: "event list"
  rw_fetched :: "(fetch_request \<times> int option) list"
  rw_metrics :: "metric list"
  rw_clock :: time
  rw_latency :: nat
  rw_http :: "http_outcome list"
  rw_dns :: "string \<Rightarrow> string list"

definition fresh_id :: "nat \<Rightarrow> string" where
  "fresh_id n = ''id-'' @ nat_to_string n"

definition find_job :: "job list \<Rightarrow> string \<Rightarrow> job option" where
  "find_job js i = find (\<lambda>j. job_id j = i) js"

definition find_exec :: "execution list \<Rightarrow> string \<Rightarrow> execution option" where
  "find_exec es i = find (\<lambda>e. exec_id e = i) es"

definition ref_view :: "ref_world \<Rightarrow> store" where
  "ref_view w = \<lparr>st_jobs = find_job (rw_jobs w), st_execs = find_exec (rw_execs w),
     st_ids = fresh_id ` {..< rw_next w}, st_kv = rw_kv w, st_uuids = fresh_id ` {..< rw_uuid w},
     st_queue = rw_queue w, st_dead = rw_dead w, st_events = rw_events w,
     st_fetched = rw_fetched w, st_metrics = rw_metrics w, st_clock = rw_clock w\<rparr>"

text \<open>The rows a lookup can find, each once.\<close>

definition job_rows :: "job list \<Rightarrow> job list" where
  "job_rows js = List.map_filter (find_job js) (remdups (map job_id js))"

definition exec_rows :: "execution list \<Rightarrow> execution list" where
  "exec_rows es = List.map_filter (find_exec es) (remdups (map exec_id es))"

definition put_job :: "job \<Rightarrow> ref_world \<Rightarrow> ref_world" where
  "put_job j w = w\<lparr>rw_jobs := j # filter (\<lambda>k. job_id k \<noteq> job_id j) (rw_jobs w)\<rparr>"

definition put_exec :: "execution \<Rightarrow> ref_world \<Rightarrow> ref_world" where
  "put_exec e w = w\<lparr>rw_execs := e # filter (\<lambda>k. exec_id k \<noteq> exec_id e) (rw_execs w)\<rparr>"

definition known_error :: "string \<Rightarrow> resp" where
  "known_error c = RErr (PrismaKnownRequestError c ''constraint'')"


definition ref_create_exec :: "exec_data \<Rightarrow> ref_world \<Rightarrow> resp \<times> ref_world" where
  "ref_create_exec d w =
     (if find_job (rw_jobs w) (ed_jobId d) = None then (known_error ''P2003'', w)
      else if ed_scheduledFor d \<noteq> None \<and> list_ex (\<lambda>e. exec_jobId e = ed_jobId d \<and>
        scheduledFor e = ed_scheduledFor d) (exec_rows (rw_execs w)) then (known_error ''P2002'', w)
      else (let e = \<lparr>exec_id = fresh_id (rw_next w), exec_jobId = ed_jobId d,
          triggeredAt = rw_clock w, scheduledFor = ed_scheduledFor d, startedAt = None,
          finishedAt = None, status = ed_status d, attemptNumber = ed_attemptNumber d,
          responseCode = None, durationMs = None, errorMessage = None,
          triggerSource = ed_triggerSource d\<rparr>
        in (RExec e, (put_exec e w)\<lparr>rw_next := Suc (rw_next w)\<rparr>)))"

definition ref_create_job :: "job_data \<Rightarrow> ref_world \<Rightarrow> resp \<times> ref_world" where
  "ref_create_job d w =
     (let j = \<lparr>job_id = fresh_id (rw_next w), job_name = jd_name d,
        cronExpression = jd_cronExpression d, callbackUrl = jd_callbackUrl d,
        timezone = jd_timezone d, maxRetries = jd_maxRetries d, backoffMs = jd_backoffMs d,
        callbackTimeoutMs = jd_callbackTimeoutMs d, enabled = jd_enabled d, paused = jd_paused d,
        consecutiveDeadCount = 0, createdAt = rw_clock w, updatedAt = rw_clock w\<rparr>
      in (RJob j, (put_job j w)\<lparr>rw_next := Suc (rw_next w)\<rparr>))"

definition ref_update_job :: "string \<Rightarrow> job_patch \<Rightarrow> ref_world \<Rightarrow> resp \<times> ref_world" where
  "ref_update_job i p w = (case find_job (rw_jobs w) i of
     None \<Rightarrow> (known_error ''P2025'', w)
   | Some j \<Rightarrow> (let j' = (apply_job_patch p j)\<lparr>updatedAt := rw_clock w\<rparr> in (RJob j', put_job j' w)))"

definition ref_delete_job :: "string \<Rightarrow> ref_world \<Rightarrow> resp \<times> ref_world" where
  "ref_delete_job i w = (case find_job (rw_jobs w) i of
     None \<Rightarrow> (known_error ''P2025'', w)
   | Some j \<Rightarrow> (RJob j, w\<lparr>rw_jobs := filter (\<lambda>k. job_id k \<noteq> i) (rw_jobs w),
       rw_execs := filter (\<lambda>e. exec_jobId e \<noteq> i) (exec_rows (rw_execs w))\<rparr>))"

definition ref_update_exec :: "string \<Rightarrow> exec_patch \<Rightarrow> ref_world \<Rightarrow> resp \<times> ref_world" where
  "ref_update_exec i p w = (case find_exec (rw_execs w) i of
     None \<Rightarrow> (known_error ''P2025'', w)
   | Some e \<Rightarrow> (let e' = apply_exec_patch p e in (RExec e', put_exec e' w)))"

definition ref_fetch :: "fetch_request \<Rightarrow> ref_world \<Rightarrow> resp \<times> ref_world" where
  "ref_fetch f w =
     ((case rw_http w of
        [] \<Rightarrow> RHttp 200
      | Status n # _ \<Rightarrow> RHttp n
      | Aborted # _ \<Rightarrow> RErr (JsError ''AbortError'' (Some ''This operation was aborted''))
      | Refused # _ \<Rightarrow> RErr (JsError ''TypeError'' (Some ''fetch failed''))),
      w\<lparr>rw_http := tl (rw_http w), rw_fetched := rw_fetched w @ [(f,
        (case rw_http w of [] \<Rightarrow> Some 200 | Status n # _ \<Rightarrow> Some n | _ \<Rightarrow> None))]\<rparr>)"

definition invalid_page :: resp where
  "invalid_page = RErr (JsError ''PrismaClientValidationError'' None)"

definition invalid_expire :: resp where
  "invalid_expire = RErr (JsError ''ReplyError'' (Some ''ERR invalid expire time in set command''))"

fun ref_op :: "req \<Rightarrow> ref_world \<Rightarrow> resp \<times> ref_world" where
  "ref_op (RedisGet k) w = (RVal (live_at (rw_kv w) (rw_clock w) k), w)"
| "ref_op (RedisSet k v x) w =
     (if \<not> expiry_valid x then (invalid_expire, w)
      else (RUnit, w\<lparr>rw_kv := (rw_kv w)(k \<mapsto> (v, deadline (ref_view w) x))\<rparr>))"
| "ref_op (RedisSetNX k v x) w =
     (if \<not> expiry_valid x then (invalid_expire, w)
      else if live_at (rw_kv w) (rw_clock w) k = None
      then (RBool True, w\<lparr>rw_kv := (rw_kv w)(k \<mapsto> (v, deadline (ref_view w) x))\<rparr>)
      else (RBool False, w))"
| "ref_op (RedisDel k) w =
     (RInt (if live_at (rw_kv w) (rw_clock w) k = None then 0 else 1), w\<lparr>rw_kv := (rw_kv w)(k := None)\<rparr>)"
| "ref_op (RedisPexpire k t) w = (case live_at (rw_kv w) (rw_clock w) k of
     None \<Rightarrow> (RInt 0, w)
   | Some v \<Rightarrow> (RInt 1, w\<lparr>rw_kv := (rw_kv w)(k \<mapsto> (v, rw_clock w + t))\<rparr>))"
| "ref_op (RedisEval sc k) w = (RErr BadResponse, w)"
| "ref_op (RedisPublish c ev) w = (RInt 0, w\<lparr>rw_events := rw_events w @ [ev]\<rparr>)"
| "ref_op RedisPing w = (RText ''PONG'', w)"
| "ref_op DbPing w = (RUnit, w)"
| "ref_op (Process pq) w = (RUnit, w)"
| "ref_op (JobFindMany EnabledNotPaused) w =
     (RJobs (filter (\<lambda>j. enabled j \<and> \<not> paused j) (job_rows (rw_jobs w))), w)"
| "ref_op (JobFindMany NewestFirst) w =
     (RJobs (sort_key (\<lambda>j. - createdAt j) (job_rows (rw_jobs w))), w)"
| "ref_op (JobFindUnique i) w = (RJobOpt (find_job (rw_jobs w) i), w)"
| "ref_op (JobCreate d) w = ref_create_job d w"
| "ref_op (JobUpdate i p) w = ref_update_job i p w"
| "ref_op (JobUpdateMany ids b) w =
     (RInt (int (length (filter (\<lambda>i. find_job (rw_jobs w) i \<noteq> None) (remdups ids)))),
      w\<lparr>rw_jobs := map (\<lambda>j. if job_id j \<in> set ids
        then j\<lparr>enabled := b, updatedAt := rw_clock w\<rparr> else j) (rw_jobs w)\<rparr>)"
| "ref_op (JobDelete i) w = ref_delete_job i w"
| "ref_op (ExecCreate d) w = ref_create_exec d w"
| "ref_op (ExecFindUnique i) w = (RExecOpt (find_exec (rw_execs w) i), w)"
| "ref_op (ExecUpdate i p) w = ref_update_exec i p w"
| "ref_op (ExecFindMany eq) w =
     (case (page_arg (eq_skip eq), page_arg (eq_take eq)) of
        (Some sk, Some tk) \<Rightarrow> RExecs (take tk (drop sk (sort_key (\<lambda>e. - triggeredAt e)
          (filter (\<lambda>e. exec_jobId e = eq_jobId eq) (exec_rows (rw_execs w))))))
      | _ \<Rightarrow> invalid_page, w)"
| "ref_op (ExecFindFinished j since) w =
     (RExecs (filter (\<lambda>e. exec_jobId e = j \<and> since \<le> triggeredAt e \<and>
        status e \<in> {SUCCESS, FAILED, DEAD} \<and> finishedAt e \<noteq> None) (exec_rows (rw_execs w))), w)"
| "ref_op (ExecCount j) w =
     (RInt (int (length (filter (\<lambda>e. exec_jobId e = j) (exec_rows (rw_execs w))))), w)"
| "ref_op (QueueAdd d opt) w = (RUnit, w\<lparr>rw_queue := rw_queue w @ [(d, opt)]\<rparr>)"
| "ref_op (DeadQueueAdd d) w = (RUnit, w\<lparr>rw_dead := rw_dead w @ [d]\<rparr>)"
| "ref_op (Fetch f) w = ref_fetch f w"
| "ref_op (DnsLookup h) w = (RAddresses (rw_dns w h), w)"
| "ref_op Now w = (RTime (rw_clock w), w)"
| "ref_op RandomUUID w = (RText (fresh_id (rw_uuid w)), w\<lparr>rw_uuid := Suc (rw_uuid w)\<rparr>)"
| "ref_op (Metric m) w = (RUnit, w\<lparr>rw_metrics := rw_metrics w @ [m]\<rparr>)"

definition ref_call :: "req \<Rightarrow> ref_world \<Rightarrow> resp \<times> ref_world" where
  "ref_call q w = (case q of
     RedisEval sc k \<Rightarrow> (case run ref_op (lua_program sc k) w of
        (Inr n, w') \<Rightarrow> (RInt n, w') | (Inl e, w') \<Rightarrow> (RErr e, w))
   | _ \<Rightarrow> ref_op q w)"

definition outage :: err where
  "outage = JsError ''Error'' (Some ''service unavailable'')"

text \<open>The services with an outage: the requests in \<open>faults\<close> fail without an effect.\<close>

definition faulty_svc :: "(req \<Rightarrow> bool) \<Rightarrow> ref_world services" where
  "faulty_svc faults q w =
     (let u = w\<lparr>rw_clock := rw_clock w + int (rw_latency w)\<rparr>
      in if faults q \<and> \<not> local_call q then (RErr outage, (case q of Fetch f \<Rightarrow> u\<lparr>rw_fetched := rw_fetched u @ [(f, None)]\<rparr> | _ \<Rightarrow> u))
         else ref_call q u)"

definition ref_svc :: "ref_world services" where
  "ref_svc = faulty_svc (\<lambda>_. False)"

section \<open>Views of the updated world\<close>

lemma fresh_id_inject [simp]: "fresh_id m = fresh_id n \<longleftrightarrow> m = n"
  by (simp add: fresh_id_def)

lemma view_select [simp]:
  "st_jobs (ref_view w) = find_job (rw_jobs w)" "st_execs (ref_view w) = find_exec (rw_execs w)"
  "st_ids (ref_view w) = fresh_id ` {..< rw_next w}" "st_kv (ref_view w) = rw_kv w"
  "st_uuids (ref_view w) = fresh_id ` {..< rw_uuid w}" "st_queue (ref_view w) = rw_queue w"
  "st_dead (ref_view w) = rw_dead w" "st_events (ref_view w) = rw_events w"
  "st_fetched (ref_view w) = rw_fetched w" "st_metrics (ref_view w) = rw_metrics w"
  "st_clock (ref_view w) = rw_clock w"
  by (simp_all add: ref_view_def)

lemma find_job_id: "find_job js i = Some j \<Longrightarrow> job_id j = i"
  by (induction js) (auto simp: find_job_def split: if_splits)

lemma find_exec_id: "find_exec es i = Some e \<Longrightarrow> exec_id e = i"
  by (induction es) (auto simp: find_exec_def split: if_splits)

lemma find_job_mem: "find_job js (job_id j) = None \<Longrightarrow> j \<notin> set js"
  by (auto simp: find_job_def find_None_iff)

lemma find_exec_mem: "find_exec es (exec_id e) = None \<Longrightarrow> e \<notin> set es"
  by (auto simp: find_exec_def find_None_iff)

lemma find_job_filter [simp]:
  "find_job (filter (\<lambda>k. job_id k \<noteq> i) js) = (find_job js)(i := None)"
  by (rule ext, induction js) (auto simp: find_job_def)

lemma find_exec_filter [simp]:
  "find_exec (filter (\<lambda>k. exec_id k \<noteq> i) es) = (find_exec es)(i := None)"
  by (rule ext, induction es) (auto simp: find_exec_def)

lemma find_put [simp]:
  "find_job (j # js) = (find_job js)(job_id j \<mapsto> j)"
  "find_exec (e # es) = (find_exec es)(exec_id e \<mapsto> e)"
  by (auto simp: find_job_def find_exec_def fun_eq_iff)

lemma find_Nil [simp]: "find_job [] i = None" "find_exec [] i = None"
  by (simp_all add: find_job_def find_exec_def)

lemma find_job_map:
  "(\<And>j. job_id (g j) = job_id j) \<Longrightarrow> find_job (map g js) i = map_option g (find_job js i)"
  by (induction js) (auto simp: find_job_def)

section \<open>The rows of a table\<close>

lemma map_filter_rows:
  assumes "\<And>i x. f i = Some x \<Longrightarrow> key x = i" "distinct is"
  shows "distinct (map key (List.map_filter f is))"
    and "set (List.map_filter f is) = {x. key x \<in> set is \<and> f (key x) = Some x}"
proof -
  have k: "key x \<in> set is" if "x \<in> set (List.map_filter f is)" for x "is"
    using that assms(1) by (auto simp: List.map_filter_def)
  show "distinct (map key (List.map_filter f is))" using assms(2)
  proof (induction "is")
    case (Cons i xs)
    then show ?case using k [of _ xs] assms(1) [of i]
      by (cases "f i") (auto simp: List.map_filter_simps)
  qed (simp add: List.map_filter_simps)
  show "set (List.map_filter f is) = {x. key x \<in> set is \<and> f (key x) = Some x}"
  proof (intro set_eqI iffI)
    fix x
    assume "x \<in> set (List.map_filter f is)"
    then obtain i where "i \<in> set is" "f i = Some x" by (auto simp: List.map_filter_def)
    with assms(1) [of i x] show "x \<in> {x. key x \<in> set is \<and> f (key x) = Some x}" by simp
  next
    fix x
    assume "x \<in> {x. key x \<in> set is \<and> f (key x) = Some x}"
    then show "x \<in> set (List.map_filter f is)"
      by (auto simp: List.map_filter_def intro!: rev_image_eqI [of "key x"])
  qed
qed

lemma job_rows:
  "distinct (map job_id (job_rows js))" "set (job_rows js) = {j. find_job js (job_id j) = Some j}"
proof -
  show "distinct (map job_id (job_rows js))"
    unfolding job_rows_def using find_job_id by (intro map_filter_rows(1)) auto
  have "set (job_rows js) = {j. job_id j \<in> set (remdups (map job_id js)) \<and> find_job js (job_id j) = Some j}"
    unfolding job_rows_def using find_job_id by (intro map_filter_rows(2)) auto
  then show "set (job_rows js) = {j. find_job js (job_id j) = Some j}"
    by (auto simp: find_job_def find_Some_iff) 
qed

lemma exec_rows:
  "distinct (map exec_id (exec_rows es))" "set (exec_rows es) = {e. find_exec es (exec_id e) = Some e}"
proof -
  show "distinct (map exec_id (exec_rows es))"
    unfolding exec_rows_def using find_exec_id by (intro map_filter_rows(1)) auto
  have "set (exec_rows es) = {e. exec_id e \<in> set (remdups (map exec_id es)) \<and> find_exec es (exec_id e) = Some e}"
    unfolding exec_rows_def using find_exec_id by (intro map_filter_rows(2)) auto
  then show "set (exec_rows es) = {e. find_exec es (exec_id e) = Some e}"
    by (auto simp: find_exec_def find_Some_iff)
qed

lemma distinct_map_sort_filter:
  "distinct (map g xs) \<Longrightarrow> distinct (map g (sort_key h (filter P xs)))"
  by (metis distinct_map_filter distinct_map distinct_sort set_sort)

lemma find_exec_rows: "find_exec (filter P (exec_rows es)) x =
    (case find_exec es x of None \<Rightarrow> None | Some e \<Rightarrow> if P e then Some e else None)"
proof -
  have d: "find_exec ys x = Some e \<longleftrightarrow> e \<in> set ys \<and> exec_id e = x" if "distinct (map exec_id ys)" for ys e
    using that by (induction ys) (auto simp: image_iff)
  have H: "find_exec (filter P (exec_rows es)) x = Some e \<longleftrightarrow> find_exec es x = Some e \<and> P e" for e
    by (subst d) (auto simp: exec_rows distinct_map_filter dest: find_exec_id)
  show ?thesis
  proof (cases "find_exec (filter P (exec_rows es)) x")
    case None
    with H show ?thesis by (auto split: option.split)
  next
    case (Some e)
    with H [of e] show ?thesis by simp
  qed
qed

section \<open>The reference services satisfy the contract\<close>

lemma ref_view_eqI:
  "find_job (rw_jobs w) = st_jobs s \<Longrightarrow> find_exec (rw_execs w) = st_execs s \<Longrightarrow>
   fresh_id ` {..< rw_next w} = st_ids s \<Longrightarrow> rw_kv w = st_kv s \<Longrightarrow>
   fresh_id ` {..< rw_uuid w} = st_uuids s \<Longrightarrow> rw_queue w = st_queue s \<Longrightarrow> rw_dead w = st_dead s \<Longrightarrow>
   rw_events w = st_events s \<Longrightarrow> rw_fetched w = st_fetched s \<Longrightarrow> rw_metrics w = st_metrics s \<Longrightarrow>
   rw_clock w = st_clock s \<Longrightarrow> ref_view w = s"
  by (simp add: ref_view_def)

lemma ref_slot_taken: "slot_taken (ref_view w) j t \<longleftrightarrow>
    list_ex (\<lambda>e. exec_jobId e = j \<and> scheduledFor e = Some t) (exec_rows (rw_execs w))"
  by (auto simp: slot_taken_def list_ex_iff exec_rows dest: find_exec_id)

lemma ref_create_exec_effect:
  "ref_create_exec d w = (r, w') \<Longrightarrow> reliable_effect (ExecCreate d) r (ref_view w) (ref_view w')"
  by (auto simp: reliable_exec_create ref_create_exec_def exec_inserted_def known_error_def
      ref_slot_taken put_exec_def Let_def lessThan_Suc split: if_splits intro!: ref_view_eqI)

lemma ref_create_job_effect:
  "ref_create_job d w = (r, w') \<Longrightarrow> reliable_effect (JobCreate d) r (ref_view w) (ref_view w')"
  by (auto simp: ref_create_job_def job_inserted_def put_job_def Let_def lessThan_Suc
      intro!: ref_view_eqI)

lemma ref_update_effects:
  "ref_update_job i jp w = (r, w') \<Longrightarrow> reliable_effect (JobUpdate i jp) r (ref_view w) (ref_view w')"
  "ref_update_exec i ep w = (r, w') \<Longrightarrow> reliable_effect (ExecUpdate i ep) r (ref_view w) (ref_view w')"
  by (auto simp: ref_update_job_def ref_update_exec_def known_error_def put_job_def put_exec_def
      patched_job_def Let_def split: option.splits intro!: ref_view_eqI dest: find_job_id find_exec_id)

lemma ref_delete_effect:
  "ref_delete_job i w = (r, w') \<Longrightarrow> reliable_effect (JobDelete i) r (ref_view w) (ref_view w')"
  by (auto simp: ref_delete_job_def known_error_def delete_job_def find_exec_rows fun_eq_iff
      split: option.splits intro!: ref_view_eqI)

lemma ref_fetch_effect:
  "ref_fetch f w = (r, w') \<Longrightarrow> reliable_effect (Fetch f) r (ref_view w) (ref_view w')"
  by (auto simp: ref_fetch_def reliable_network error_justified_def
      split: list.splits http_outcome.splits intro!: ref_view_eqI)

lemma ref_update_many_effect:
  "ref_op (JobUpdateMany ids b) w = (r, w') \<Longrightarrow>
     reliable_effect (JobUpdateMany ids b) r (ref_view w) (ref_view w')"
proof -
  assume A: "ref_op (JobUpdateMany ids b) w = (r, w')"
  let ?S = "{i \<in> set ids. find_job (rw_jobs w) i \<noteq> None}"
  have "length (filter (\<lambda>i. find_job (rw_jobs w) i \<noteq> None) (remdups ids)) = card ?S"
    by (subst distinct_card [symmetric]) (auto intro!: arg_cong [of _ _ card])
  moreover have "ref_view w' = enable_jobs ids b (ref_view w)" using A
    by (auto simp: enable_jobs_def find_job_map fun_eq_iff intro!: ref_view_eqI map_option_cong
      dest: find_job_id) (auto simp: map_option_case split: option.splits dest: find_job_id)
  ultimately show ?thesis using A by auto
qed

lemma ref_query_effects:
  "ref_op (JobFindMany c) w = (r, w') \<Longrightarrow> ok_effect (JobFindMany c) r (ref_view w) (ref_view w')"
  "ref_op (ExecFindMany eq) w = (r, w') \<Longrightarrow> reliable_effect (ExecFindMany eq) r (ref_view w) (ref_view w')"
  "ref_op (ExecFindFinished j since) w = (r, w') \<Longrightarrow>
     ok_effect (ExecFindFinished j since) r (ref_view w) (ref_view w')"
  "ref_op (ExecCount j) w = (r, w') \<Longrightarrow> ok_effect (ExecCount j) r (ref_view w) (ref_view w')"
proof -
  assume "ref_op (JobFindMany c) w = (r, w')"
  then show "ok_effect (JobFindMany c) r (ref_view w) (ref_view w')"
    using distinct_map_sort_filter [OF job_rows(1) [of "rw_jobs w"], of "\<lambda>j. - createdAt j" "\<lambda>_. True"]
    by (cases c) (auto simp: ok_effect_def job_rows distinct_map_filter)
next
  assume A: "ref_op (ExecFindMany eq) w = (r, w')"
  let ?all = "sort_key (\<lambda>e. - triggeredAt e)
    (filter (\<lambda>e. exec_jobId e = eq_jobId eq) (exec_rows (rw_execs w)))"
  show "reliable_effect (ExecFindMany eq) r (ref_view w) (ref_view w')"
  proof (cases "page_arg (eq_skip eq) = None \<or> page_arg (eq_take eq) = None")
    case True
    with A have "r = invalid_page" "w' = w" by (auto split: option.splits)
    with True show ?thesis
      by (simp add: reliable_effect_def invalid_page_def expected_error_def fail_effect_def attempted_def error_justified_def)
  next
    case False
    then obtain sk tk where "page_arg (eq_skip eq) = Some sk" "page_arg (eq_take eq) = Some tk" by auto
    with A have "ok_effect (ExecFindMany eq) r (ref_view w) (ref_view w')"
      by (auto simp: ok_effect_def exec_rows distinct_map_sort_filter intro!: exI [of _ ?all])
    then show ?thesis by (simp add: reliable_effect_def done_effect_def)
  qed
next
  assume "ref_op (ExecFindFinished j since) w = (r, w')"
  then show "ok_effect (ExecFindFinished j since) r (ref_view w) (ref_view w')"
    by (auto simp: ok_effect_def exec_rows distinct_map_filter)
next
  assume A: "ref_op (ExecCount j) w = (r, w')"
  let ?xs = "filter (\<lambda>e. exec_jobId e = j) (exec_rows (rw_execs w))"
  have "distinct ?xs" by (meson distinct_filter distinct_map exec_rows(1))
  moreover have "set ?xs = {e. find_exec (rw_execs w) (exec_id e) = Some e \<and> exec_jobId e = j}"
    by (auto simp: exec_rows)
  ultimately have "length ?xs = card {e. find_exec (rw_execs w) (exec_id e) = Some e \<and> exec_jobId e = j}"
    by (metis distinct_card)
  with A show "ok_effect (ExecCount j) r (ref_view w) (ref_view w')"
    by (auto simp: ok_effect_def)
qed

lemma ref_redis_effects:
  "ref_op (RedisGet k) w = (r, w') \<Longrightarrow> ok_effect (RedisGet k) r (ref_view w) (ref_view w')"
  "ref_op (RedisDel k) w = (r, w') \<Longrightarrow> ok_effect (RedisDel k) r (ref_view w) (ref_view w')"
  "ref_op (RedisPexpire k t) w = (r, w') \<Longrightarrow> ok_effect (RedisPexpire k t) r (ref_view w) (ref_view w')"
  by (auto simp: ok_effect_def split: if_splits option.splits intro!: ref_view_eqI)

lemma ref_set_effects:
  "ref_op (RedisSet k v x) w = (r, w') \<Longrightarrow> reliable_effect (RedisSet k v x) r (ref_view w) (ref_view w')"
  "ref_op (RedisSetNX k v x) w = (r, w') \<Longrightarrow> reliable_effect (RedisSetNX k v x) r (ref_view w) (ref_view w')"
  by (auto simp: reliable_set reliable_setnx invalid_expire_def error_justified_def
      split: if_splits intro!: ref_view_eqI)

lemma ref_script_effect:
  "run ref_op (lua_program sc k) w = (res, w') \<Longrightarrow>
     \<exists>n. res = Inr n \<and> script_effect (lua_program sc k) n (ref_view w) (ref_view w')"
  by (cases sc) (auto simp: RELEASE_SCRIPT_def RENEW_SCRIPT_def prog_defs ok_effect_def
      split: if_splits option.splits intro!: ref_view_eqI)

lemma ref_other_effects:
  "ref_op RedisPing w = (r, w') \<Longrightarrow> ok_effect RedisPing r (ref_view w) (ref_view w')"
  "ref_op DbPing w = (r, w') \<Longrightarrow> ok_effect DbPing r (ref_view w) (ref_view w')"
  "ref_op (Process pq) w = (r, w') \<Longrightarrow> ok_effect (Process pq) r (ref_view w) (ref_view w')"
  "ref_op Now w = (r, w') \<Longrightarrow> ok_effect Now r (ref_view w) (ref_view w')"
  "ref_op RandomUUID w = (r, w') \<Longrightarrow> ok_effect RandomUUID r (ref_view w) (ref_view w')"
  "ref_op (RedisPublish c ev) w = (r, w') \<Longrightarrow> ok_effect (RedisPublish c ev) r (ref_view w) (ref_view w')"
  "ref_op (JobFindUnique i) w = (r, w') \<Longrightarrow> ok_effect (JobFindUnique i) r (ref_view w) (ref_view w')"
  "ref_op (ExecFindUnique i) w = (r, w') \<Longrightarrow> ok_effect (ExecFindUnique i) r (ref_view w) (ref_view w')"
  "ref_op (QueueAdd d opt) w = (r, w') \<Longrightarrow> ok_effect (QueueAdd d opt) r (ref_view w) (ref_view w')"
  "ref_op (DeadQueueAdd dd) w = (r, w') \<Longrightarrow> ok_effect (DeadQueueAdd dd) r (ref_view w) (ref_view w')"
  "ref_op (DnsLookup h) w = (r, w') \<Longrightarrow> ok_effect (DnsLookup h) r (ref_view w) (ref_view w')"
  "ref_op (Metric m) w = (r, w') \<Longrightarrow> ok_effect (Metric m) r (ref_view w) (ref_view w')"
  by (auto simp: ok_effect_def lessThan_Suc intro!: ref_view_eqI)

lemma ok_reliable: "ok_effect q r s s' \<Longrightarrow> reliable_effect q r s s'"
  unfolding reliable_effect_def done_effect_def by (cases q) (simp_all add: ok_effect_def)

lemma ref_op_effect:
  assumes "ref_op q w = (r, w')" "\<nexists>sc k. q = RedisEval sc k"
  shows "reliable_effect q r (ref_view w) (ref_view w')"
proof (cases q)
  case RedisEval
  with assms(2) show ?thesis by simp
next
  case ExecCreate
  with assms(1) show ?thesis using ref_create_exec_effect by simp
next
  case JobCreate
  with assms(1) show ?thesis using ref_create_job_effect by simp
next
  case JobUpdate
  with assms(1) show ?thesis using ref_update_effects(1) by (simp del: reliable_refusable)
next
  case ExecUpdate
  with assms(1) show ?thesis using ref_update_effects(2) by (simp del: reliable_refusable)
next
  case JobDelete
  with assms(1) show ?thesis using ref_delete_effect by (simp del: reliable_refusable)
next
  case Fetch
  with assms(1) show ?thesis using ref_fetch_effect by simp
next
  case JobUpdateMany
  with assms(1) show ?thesis using ref_update_many_effect by (simp del: ref_op.simps reliable_writes)
qed (insert assms(1), simp_all only: ref_query_effects ref_redis_effects ref_other_effects ok_reliable
  ref_set_effects)

lemma ref_call_effect:
  assumes "ref_call q w = (r, w')"
  shows "reliable_effect q r (ref_view w) (ref_view w')"
proof (cases "\<exists>sc k. q = RedisEval sc k")
  case True
  then obtain sc k where q: "q = RedisEval sc k" by blast
  obtain res w1 where run: "run ref_op (lua_program sc k) w = (res, w1)" by fastforce
  from ref_script_effect [OF run] assms run q show ?thesis
    by (auto simp: ref_call_def reliable_effect_def done_effect_def)
next
  case False
  then have "ref_call q w = ref_op q w" unfolding ref_call_def by (cases q) simp_all
  with assms False show ?thesis by (intro ref_op_effect) simp_all
qed

theorem faulty_svc_ok: "services_ok (faulty_svc faults) ref_view"
proof (unfold services_ok_def, intro allI impI)
  fix q w r w'
  assume A: "faulty_svc faults q w = (r, w')"
  define u where "u = w\<lparr>rw_clock := rw_clock w + int (rw_latency w)\<rparr>"
  have u: "ref_view u = (ref_view w)\<lparr>st_clock := rw_clock w + int (rw_latency w)\<rparr>"
    by (simp add: u_def ref_view_def)
  have "instant_effect q r (ref_view u) (ref_view w')"
  proof (cases "faults q \<and> \<not> local_call q")
    case True
    have "ref_view w' = attempted q (ref_view u)" "r = RErr outage"
      using A True unfolding faulty_svc_def u_def [symmetric] Let_def
      by (auto simp: attempted_def ref_view_def split: req.split)
    with True show ?thesis
      by (simp add: instant_effect_RErr fail_effect_def error_justified_def outage_def)
  next
    case False
    with A have "ref_call q u = (r, w')" by (simp add: faulty_svc_def u_def Let_def)
    from ref_call_effect [OF this] show ?thesis
      by (auto simp: reliable_effect_def instant_effect_RErr dest: done_instant)
  qed
  with u show "call_effect q r (ref_view w) (ref_view w')"
    unfolding call_effect_def by (intro exI [of _ "rw_clock w + int (rw_latency w)"]) simp
qed

text \<open>Outages of HTTP and DNS only are part of fault-free runs.\<close>

theorem faulty_svc_reliable:
  assumes "\<And>q. faults q \<Longrightarrow> (\<exists>f. q = Fetch f) \<or> (\<exists>h. q = DnsLookup h)"
  shows "reliable (faulty_svc faults) ref_view"
proof -
  have "expected_error q e" if A: "faulty_svc faults q w = (RErr e, w')" for q w e w'
  proof (cases "faults q \<and> \<not> local_call q")
    case True
    then show ?thesis using assms [of q] by (auto simp: expected_error_def)
  next
    case False
    with A have "ref_call q (w\<lparr>rw_clock := rw_clock w + int (rw_latency w)\<rparr>) = (RErr e, w')"
      by (simp add: faulty_svc_def Let_def)
    from ref_call_effect [OF this] show ?thesis
      by (auto simp: reliable_effect_def dest: done_effect_not_err)
  qed
  then show ?thesis using faulty_svc_ok [of faults] by (auto simp: reliable_def)
qed

theorem ref_svc_reliable: "reliable ref_svc ref_view"
  unfolding ref_svc_def by (rule faulty_svc_reliable) simp

section \<open>Services whose HTTP calls all fail\<close>

fun is_fetch :: "req \<Rightarrow> bool" where
  "is_fetch (Fetch f) = True"
| "is_fetch _ = False"

lemma is_fetch_iff: "is_fetch q \<longleftrightarrow> (\<exists>f. q = Fetch f)"
  by (cases q) simp_all

definition dead_http_svc :: "ref_world services" where
  "dead_http_svc = faulty_svc is_fetch"

theorem dead_http_reliable: "reliable dead_http_svc ref_view"
  unfolding dead_http_svc_def by (rule faulty_svc_reliable) (simp add: is_fetch_iff)

lemma dead_http_fetched:
  assumes "run dead_http_svc p w = (res, w')" "\<forall>y \<in> set (rw_fetched w). snd y = None"
  shows "\<forall>y \<in> set (rw_fetched w'). snd y = None"
  using assms
proof (induction p arbitrary: w)
  case (Call q k)
  obtain r u where u: "dead_http_svc q w = (r, u)" by fastforce
  have "\<forall>y \<in> set (rw_fetched u). snd y = None"
  proof (cases "is_fetch q")
    case True
    with u Call.prems(2) show ?thesis
      by (fastforce simp: dead_http_svc_def faulty_svc_def Let_def is_fetch_iff)
  next
    case False
    let ?w = "w\<lparr>rw_clock := rw_clock w + int (rw_latency w)\<rparr>"
    from False u have "ref_call q ?w = (r, u)" by (simp add: dead_http_svc_def faulty_svc_def Let_def)
    from ref_call_effect [OF this] have "done_effect q r (ref_view ?w) (ref_view u) \<or>
        ref_view u = attempted q (ref_view ?w) \<or> (\<exists>r. done_effect q r (ref_view ?w) (ref_view u))"
      by (auto simp: reliable_effect_def fail_effect_def)
    then have "st_fetched (ref_view u) = st_fetched (ref_view ?w)"
      using False done_effect_fetched by (fastforce simp: is_fetch_iff attempted_def split: req.split)
    with Call.prems(2) show ?thesis by simp
  qed
  with Call u show ?case by fastforce
qed simp_all

lemma ref_op_frame: "ref_op q w = (r, u) \<Longrightarrow> rw_clock u = rw_clock w \<and> rw_latency u = rw_latency w"
  by (induction q w rule: ref_op.induct)
    (auto simp: ref_create_exec_def ref_create_job_def ref_update_job_def ref_delete_job_def
      ref_update_exec_def ref_fetch_def put_job_def put_exec_def Let_def split: if_splits option.splits)

lemma faulty_step:
  assumes "faulty_svc faults q w = (r, u)"
  shows "rw_clock u = rw_clock w + int (rw_latency w) \<and> rw_latency u = rw_latency w"
proof (cases "faults q \<and> \<not> local_call q")
  case True
  with assms show ?thesis by (auto simp: faulty_svc_def Let_def split: req.splits)
next
  case False
  let ?w = "w\<lparr>rw_clock := rw_clock w + int (rw_latency w)\<rparr>"
  have run: "run ref_op p v = (x, u') \<Longrightarrow> rw_clock u' = rw_clock v \<and> rw_latency u' = rw_latency v"
    for p :: "int prog" and v x u'
  proof (induction p arbitrary: v)
    case (Call q k)
    obtain r v' where "ref_op q v = (r, v')" by fastforce
    with Call ref_op_frame show ?case by fastforce
  qed simp_all
  from False assms have c: "ref_call q ?w = (r, u)" by (auto simp: faulty_svc_def Let_def)
  show ?thesis
  proof (cases "\<exists>sc k. q = RedisEval sc k")
    case True
    with c run show ?thesis by (auto simp: ref_call_def split: prod.splits sum.splits)
  next
    case False
    then have "ref_call q ?w = ref_op q ?w" unfolding ref_call_def by (cases q) simp_all
    with c ref_op_frame show ?thesis by fastforce
  qed
qed

text \<open>With latency zero a run takes no time.\<close>

lemma ref_instant:
  assumes "run (faulty_svc faults) p w = (res, w')" "rw_latency w = 0"
  shows "rw_clock w' = rw_clock w \<and> rw_latency w' = 0"
  using assms
proof (induction p arbitrary: w)
  case (Call q k)
  obtain r u where u: "faulty_svc faults q w = (r, u)" by fastforce
  have "rw_clock u = rw_clock w \<and> rw_latency u = 0"
    using faulty_step [OF u] Call.prems(2) by simp
  with Call u show ?case by fastforce
qed simp_all

section \<open>Starting worlds\<close>

definition ref_start :: "job list \<Rightarrow> time \<Rightarrow> nat \<Rightarrow> ref_world" where
  "ref_start js t latency = \<lparr>rw_jobs = js, rw_execs = [], rw_next = 100, rw_kv = (\<lambda>_. None),
     rw_uuid = 0, rw_queue = [], rw_dead = [], rw_events = [], rw_fetched = [], rw_metrics = [],
     rw_clock = t, rw_latency = latency, rw_http = [], rw_dns = (\<lambda>_. [''93.184.216.34''])\<rparr>"

definition sample_job :: job where
  "sample_job = \<lparr>job_id = ''id-0'', job_name = ''report'', cronExpression = ''* * * * *'',
     callbackUrl = ''https://example.com/hook'', timezone = ''UTC'', maxRetries = 2, backoffMs = 1000,
     callbackTimeoutMs = 5000, enabled = True, paused = False, consecutiveDeadCount = 0,
     createdAt = 0, updatedAt = 0\<rparr>"

lemma sample_id: "job_id sample_job = fresh_id 0"
  by (simp add: sample_job_def fresh_id_def nat_to_string.simps digit_char_def) code_simp

lemma sample_start_wf: "tables_wf (ref_view (ref_start [sample_job] t n))"
  by (simp add: tables_wf_def ref_view_def ref_start_def sample_id)

lemmas ref_eval = ref_svc_def faulty_svc_def ref_call_def ref_start_def sample_job_def live_at_def Let_def

end
