(* ===== verification/Lock_Ttl.thy ===== *)
theory Lock_Ttl
  imports Env_Config Reference_Services
begin

text \<open>
  \<open>src/lib/lock-ttl.ts\<close>: the lifetime of a fire-slot lock. The code computes in JavaScript
  doubles, so every operation rounds (\<open>dbl\<close>). The exact budget that the comment describes, all
  timeouts and backoffs plus the buffer, is \<open>retry_budget_ms\<close>; as long as the budget is below
  \<open>2 ^ 53\<close> milliseconds the rounded computation gives its exact ceiling in seconds.
\<close>

text \<open>The loop \<open>for (i = 0; i < maxRetries; i++) backoffSum += backoffMs * 2 ** i\<close>.\<close>

fun backoff_loop :: "int \<Rightarrow> nat \<Rightarrow> nat \<Rightarrow> rat \<Rightarrow> rat" where
  "backoff_loop b i 0 acc = acc"
| "backoff_loop b i (Suc left) acc =
     backoff_loop b (Suc i) left (dbl (acc + dbl (of_int b * 2 ^ i)))"

definition computeJobLockTtlSeconds :: "env \<Rightarrow> job \<Rightarrow> int" where
  "computeJobLockTtlSeconds cfg j =
     (let timeout = (if callbackTimeoutMs j = 0 then DEFAULT_CALLBACK_TIMEOUT_MS cfg
                     else callbackTimeoutMs j);
          backoffSum = backoff_loop (backoffMs j) 0 (nat (maxRetries j)) 0;
          ms = dbl (dbl (dbl (of_int timeout * dbl (of_int (maxRetries j + 1))) + backoffSum)
                    + of_int (LOCK_BUFFER_MS cfg))
      in max 1 \<lceil>dbl (ms / 1000)\<rceil>)"

section \<open>The exact budget\<close>

definition effective_timeout :: "env \<Rightarrow> job \<Rightarrow> int" where
  "effective_timeout cfg j =
     (if callbackTimeoutMs j = 0 then DEFAULT_CALLBACK_TIMEOUT_MS cfg else callbackTimeoutMs j)"

text \<open>Attempt \<open>i + 1\<close> is retried after \<open>backoffMs * 2 ^ i\<close> milliseconds.\<close>

definition retry_budget_ms :: "env \<Rightarrow> job \<Rightarrow> int" where
  "retry_budget_ms cfg j =
     effective_timeout cfg j * (maxRetries j + 1) +
     (\<Sum>i < nat (maxRetries j). backoffMs j * 2 ^ i) + LOCK_BUFFER_MS cfg"

lemma backoff_sum_closed: "(\<Sum>i < n. b * 2 ^ i) = b * (2 ^ n - 1 :: int)"
  by (induction n) (simp_all add: algebra_simps)

lemma retry_budget_closed:
  "retry_budget_ms cfg j = effective_timeout cfg j * (maxRetries j + 1) +
     backoffMs j * (2 ^ nat (maxRetries j) - 1) + LOCK_BUFFER_MS cfg"
  by (simp add: retry_budget_ms_def backoff_sum_closed)

text \<open>Below \<open>2 ^ 53\<close> the loop is exact.\<close>

lemma backoff_loop_exact:
  assumes "0 \<le> b" "0 \<le> a" "a + b * (2 ^ (i + left) - 2 ^ i) \<le> 2 ^ 53"
  shows "backoff_loop b i left (of_int a) = of_int (a + b * (2 ^ (i + left) - 2 ^ i))"
  using assms(2,3)
proof (induction left arbitrary: i a)
  case (Suc left)
  have grow: "(2 :: int) ^ Suc i \<le> 2 ^ (Suc i + left)" by (simp add: power_increasing)
  have split: "b * (2 ^ (i + Suc left) - 2 ^ i) = b * 2 ^ i + b * (2 ^ (Suc i + left) - 2 ^ Suc i)"
    by (simp add: algebra_simps)
  have rest: "0 \<le> b * (2 ^ (Suc i + left) - 2 ^ Suc i)" using grow assms(1) by simp
  have summand: "0 \<le> b * 2 ^ i" using assms(1) by simp
  from Suc.prems split rest have bound: "a + b * 2 ^ i \<le> 2 ^ 53" by linarith
  have d1: "dbl (of_int b * 2 ^ i) = of_int (b * 2 ^ i)"
    using dbl_of_int [of "b * 2 ^ i"] bound summand Suc.prems(1) by simp
  have d2: "dbl (of_int a + of_int (b * 2 ^ i)) = of_int (a + b * 2 ^ i)"
    using dbl_of_int [of "a + b * 2 ^ i"] bound summand Suc.prems(1) by simp
  have "backoff_loop b i (Suc left) (of_int a) = backoff_loop b (Suc i) left (of_int (a + b * 2 ^ i))"
    by (simp only: backoff_loop.simps d1 d2)
  also have "\<dots> = of_int (a + b * 2 ^ i + b * (2 ^ (Suc i + left) - 2 ^ Suc i))"
    using Suc.prems split summand by (intro Suc.IH) linarith+
  finally show ?case by (simp only: split add.assoc)
qed simp

section \<open>The lock outlives the retries\<close>

lemma ttl_exact:
  assumes "0 \<le> maxRetries j" "0 \<le> backoffMs j" "0 < effective_timeout cfg j"
    "0 \<le> LOCK_BUFFER_MS cfg" "1000 \<le> retry_budget_ms cfg j" "retry_budget_ms cfg j < 2 ^ 53"
  shows "computeJobLockTtlSeconds cfg j = \<lceil>(of_int (retry_budget_ms cfg j) :: rat) / 1000\<rceil>"
proof -
  let ?t = "effective_timeout cfg j" and ?n = "nat (maxRetries j)" and ?buf = "LOCK_BUFFER_MS cfg"
  let ?p = "?t * (maxRetries j + 1)" and ?b = "backoffMs j * (2 ^ ?n - 1)"
  have nonneg: "0 \<le> ?p" "0 \<le> ?b" using assms by simp_all
  have small: "?p + ?b + ?buf < 2 ^ 53" using assms(6) by (simp only: retry_budget_closed)
  have "maxRetries j + 1 \<le> ?p" using assms(1,3) mult_right_mono [of 1 ?t "maxRetries j + 1"] by simp
  then have d1: "dbl (of_int (maxRetries j + 1)) = of_int (maxRetries j + 1)"
    using small nonneg assms(1,4) by (intro dbl_of_int) linarith
  have d2: "dbl (of_int ?p) = of_int ?p" using small nonneg assms(4) by (intro dbl_of_int) linarith
  have loop: "backoff_loop (backoffMs j) 0 ?n 0 = of_int ?b"
    using backoff_loop_exact [of "backoffMs j" 0 0 ?n] small nonneg assms(2,4) by simp
  have d3: "dbl (of_int (?p + ?b)) = of_int (?p + ?b)"
    using small nonneg assms(4) by (intro dbl_of_int) linarith
  have d4: "dbl (of_int (?p + ?b + ?buf)) = of_int (?p + ?b + ?buf)"
    using small nonneg assms(4) by (intro dbl_of_int) linarith
  have ms: "dbl (dbl (dbl (of_int ?t * dbl (of_int (maxRetries j + 1))) + of_int ?b) + of_int ?buf)
      = of_int (retry_budget_ms cfg j)"
    unfolding retry_budget_closed d1
    by (simp only: of_int_mult [symmetric] d2 of_int_add [symmetric] d3 d4)
  have "computeJobLockTtlSeconds cfg j = max 1 \<lceil>dbl (of_int (retry_budget_ms cfg j) / 1000)\<rceil>"
    unfolding computeJobLockTtlSeconds_def Let_def loop effective_timeout_def [symmetric] ms ..
  also have "\<dots> = max 1 \<lceil>(of_int (retry_budget_ms cfg j) :: rat) / 1000\<rceil>"
    using ceiling_dbl_quotient [of "retry_budget_ms cfg j" 1000] assms(5,6) by simp
  also have "\<dots> = \<lceil>(of_int (retry_budget_ms cfg j) :: rat) / 1000\<rceil>"
    using assms(5) by (simp add: max_def le_ceiling_iff)
  finally show ?thesis .
qed

lemma sample_ttl_seconds: "computeJobLockTtlSeconds default_env sample_job = 28"
proof -
  have "retry_budget_ms default_env sample_job = 28000" "0 < effective_timeout default_env sample_job"
    by (simp_all add: retry_budget_closed effective_timeout_def default_env_def sample_job_def)
  then show ?thesis by (subst ttl_exact) (simp_all add: default_env_def sample_job_def)
qed

text \<open>
  C27: for every job whose exact retry budget (timeouts of all attempts, exponential backoffs
  and the buffer) is below \<open>2 ^ 53\<close> milliseconds, \<open>computeJobLockTtlSeconds\<close>, computed in doubles,
  is a number of seconds that covers the budget and exceeds it by less than one second.
\<close>

theorem ttl_covers_retry_budget:
  assumes "0 \<le> maxRetries j" "0 \<le> backoffMs j" "0 < effective_timeout cfg j"
    "0 \<le> LOCK_BUFFER_MS cfg" "1000 \<le> retry_budget_ms cfg j" "retry_budget_ms cfg j < 2 ^ 53"
  shows "retry_budget_ms cfg j \<le> 1000 * computeJobLockTtlSeconds cfg j \<and>
    1000 * computeJobLockTtlSeconds cfg j < retry_budget_ms cfg j + 1000"
proof -
  let ?m = "retry_budget_ms cfg j" and ?t = "computeJobLockTtlSeconds cfg j"
  have t: "?t = \<lceil>(of_int ?m :: rat) / 1000\<rceil>" by (rule ttl_exact [OF assms])
  have "of_int ?m / 1000 \<le> (of_int ?t :: rat)" "of_int ?t < (of_int ?m :: rat) / 1000 + 1"
    unfolding t by (simp, linarith)
  then have "(of_int ?m :: rat) \<le> of_int (1000 * ?t)" "(of_int (1000 * ?t) :: rat) < of_int (?m + 1000)"
    by simp_all
  then show ?thesis by (simp only: of_int_le_iff of_int_less_iff)
qed

theorem ttl_covers_retry_budget_witness:
  "28000 \<le> 1000 * computeJobLockTtlSeconds default_env sample_job \<and>
   1000 * computeJobLockTtlSeconds default_env sample_job < 29000"
proof -
  have b: "retry_budget_ms default_env sample_job = 28000" "0 < effective_timeout default_env sample_job"
    by (simp_all add: retry_budget_closed effective_timeout_def default_env_def sample_job_def)
  show ?thesis
    using ttl_covers_retry_budget [of sample_job default_env] b
    by (simp add: default_env_def sample_job_def)
qed

section \<open>Budgets beyond the range of Redis\<close>

lemma backoff_loop_nonneg: "0 \<le> b \<Longrightarrow> 0 \<le> acc \<Longrightarrow> 0 \<le> backoff_loop b i left acc"
  by (induction left arbitrary: i acc) (simp_all add: dbl_nonneg)

text \<open>The last summand alone bounds the rounded sum from below.\<close>

lemma backoff_loop_large:
  assumes "2 \<le> b" "0 \<le> acc"
  shows "of_int b * 2 ^ (i + left) / 4 \<le> backoff_loop b i (Suc left) acc"
  using assms(2)
proof (induction left arbitrary: i acc)
  case 0
  have two: "2 \<le> (of_int b :: rat) * 2 ^ i" using assms(1) mult_mono [of 2 "of_int b :: rat" 1 "2 ^ i"] by simp
  then have half: "of_int b * 2 ^ i / 2 \<le> dbl (of_int b * 2 ^ i)" by (intro dbl_half) simp
  with two "0" have "1 \<le> acc + dbl (of_int b * 2 ^ i)" by linarith
  from dbl_half [OF this] half "0" show ?case by simp
next
  case (Suc left)
  then show ?case
    using Suc.IH [of "dbl (acc + dbl (of_int b * 2 ^ i))" "Suc i"] assms(1)
    by (simp add: dbl_nonneg)
qed

lemma ttl_large:
  assumes "maxRetries j = 50" "600000 \<le> backoffMs j" "0 \<le> callbackTimeoutMs j"
    "0 \<le> DEFAULT_CALLBACK_TIMEOUT_MS cfg" "0 \<le> LOCK_BUFFER_MS cfg"
  shows "2 ^ 63 - 1 < 1000 * computeJobLockTtlSeconds cfg j"
proof -
  define S where "S = backoff_loop (backoffMs j) 0 50 0"
  define P where "P = dbl (of_int (effective_timeout cfg j) * dbl (of_int (maxRetries j + 1)))"
  let ?buf = "of_int (LOCK_BUFFER_MS cfg) :: rat"
  have "(600000 :: rat) \<le> of_int (backoffMs j)" using assms(2) by simp
  then have S: "600000 * 2 ^ 49 / 4 \<le> S"
    using backoff_loop_large [of "backoffMs j" 0 0 49] assms(2)
    by (simp add: S_def eval_nat_numeral)
  have P: "0 \<le> P"
    using assms(1,3,4) unfolding P_def effective_timeout_def
    by (intro dbl_nonneg mult_nonneg_nonneg) simp_all
  have PS: "600000 * 2 ^ 49 / 8 \<le> dbl (P + S)" using dbl_half [of "P + S"] S P by simp
  have buf: "0 \<le> ?buf" using assms(5) by simp
  have M: "600000 * 2 ^ 49 / 16 \<le> dbl (dbl (P + S) + ?buf)"
    using dbl_half [of "dbl (P + S) + ?buf"] PS buf by simp
  let ?M = "dbl (dbl (P + S) + ?buf)"
  have "600000 * 2 ^ 49 / 32000 \<le> dbl (?M / 1000)" using dbl_half [of "?M / 1000"] M by simp
  then have "of_int (2 ^ 63 div 1000) < dbl (?M / 1000)" by simp
  then have "2 ^ 63 div 1000 < \<lceil>dbl (?M / 1000)\<rceil>" by (simp only: less_ceiling_iff)
  moreover have "\<lceil>dbl (?M / 1000)\<rceil> \<le> computeJobLockTtlSeconds cfg j"
    using assms(1)
    by (simp add: computeJobLockTtlSeconds_def Let_def S_def P_def effective_timeout_def)
  ultimately have "2 ^ 63 div 1000 < computeJobLockTtlSeconds cfg j" by (rule less_le_trans)
  then show ?thesis by simp
qed



end
