(* ===== verification/Queues.thy ===== *)
theory Queues
  imports Env_Config Schema
begin

text \<open>
  \<open>src/lib/queues.ts\<close>: how a job's retry policy becomes BullMQ options, the connection options,
  and the lazily created queue singletons. The payload types are in theory \<open>Schema\<close>.
\<close>

definition QUEUE_PREFIX :: string where "QUEUE_PREFIX = ''cronhive''"
definition QUEUE_EXECUTION :: string where "QUEUE_EXECUTION = ''execution''"
definition QUEUE_DEAD_LETTER :: string where "QUEUE_DEAD_LETTER = ''deadletter''"

definition executionJobOptions :: "job \<Rightarrow> jobs_options" where
  "executionJobOptions j =
     \<lparr>jo_attempts = maxRetries j + 1, jo_backoff = ExponentialBackoff (backoffMs j)\<rparr>"

record connection_options =
  co_url :: string
  co_maxRetriesPerRequest :: "int option" \<comment> \<open>\<open>null\<close> is \<open>None\<close>\<close>
  co_tls :: bool

definition buildConnection :: "env \<Rightarrow> connection_options" where
  "buildConnection cfg =
     \<lparr>co_url = REDIS_URL cfg, co_maxRetriesPerRequest = None,
      co_tls = startsWith (REDIS_URL cfg) ''rediss://''\<rparr>"

record queue_handle =
  qh_name :: string
  qh_connection :: connection_options
  qh_prefix :: string
  qh_removeOnComplete :: int
  qh_removeOnFail :: int

definition new_queue :: "env \<Rightarrow> string \<Rightarrow> queue_handle" where \<comment> \<open>\<open>new Queue(name, queueOptions())\<close>\<close>
  "new_queue cfg n = \<lparr>qh_name = n, qh_connection = buildConnection cfg, qh_prefix = QUEUE_PREFIX,
     qh_removeOnComplete = 1000, qh_removeOnFail = 5000\<rparr>"

record queue_module = \<comment> \<open>the module variables\<close>
  executionQ :: "queue_handle option"
  deadLetterQ :: "queue_handle option"

definition getExecutionQueue :: "env \<Rightarrow> queue_module \<Rightarrow> queue_handle \<times> queue_module" where
  "getExecutionQueue cfg m = (case executionQ m of
     Some q \<Rightarrow> (q, m)
   | None \<Rightarrow> (let q = new_queue cfg QUEUE_EXECUTION in (q, m\<lparr>executionQ := Some q\<rparr>)))"

definition getDeadLetterQueue :: "env \<Rightarrow> queue_module \<Rightarrow> queue_handle \<times> queue_module" where
  "getDeadLetterQueue cfg m = (case deadLetterQ m of
     Some q \<Rightarrow> (q, m)
   | None \<Rightarrow> (let q = new_queue cfg QUEUE_DEAD_LETTER in (q, m\<lparr>deadLetterQ := Some q\<rparr>)))"

text \<open>The queues closed, and the module afterwards.\<close>

definition closeAllQueues :: "queue_module \<Rightarrow> queue_handle list \<times> queue_module" where
  "closeAllQueues m =
     ((case executionQ m of None \<Rightarrow> [] | Some q \<Rightarrow> [q]) @
      (case deadLetterQ m of None \<Rightarrow> [] | Some q \<Rightarrow> [q]),
      m\<lparr>executionQ := None, deadLetterQ := None\<rparr>)"

end
