(* ===== verification/Job_Lock.thy ===== *)
theory Job_Lock
  imports Reference_Services
begin

text \<open>
  \<open>src/lib/lock.ts\<close>: the owner-token lock on one fire-slot of one job. The locale \<open>fire_lock\<close> is
  the interface the scheduler and the trigger endpoint rely on; it is interpreted on
  \<open>acquireJobLock\<close> and \<open>releaseJobLock\<close> run against reliable services.
\<close>

fun slot_text :: "fire_slot \<Rightarrow> string" where
  "slot_text (Slot t) = int_to_string t"
| "slot_text Manual = ''manual''"

definition jobLockKey :: "string \<Rightarrow> fire_slot \<Rightarrow> string" where
  "jobLockKey jobId fireSlot = ''lock:job:'' @ jobId @ '':'' @ slot_text fireSlot"

record job_lock =
  jl_jobId :: string
  jl_fireSlot :: fire_slot
  jl_token :: string

definition acquireJobLock :: "string \<Rightarrow> fire_slot \<Rightarrow> int \<Rightarrow> job_lock option prog" where
  "acquireJobLock jobId fireSlot ttlSeconds =
     (let ttl = (if ttlSeconds < 1 then 1 else ttlSeconds) in
      bind randomUUID (\<lambda>token.
      bind (call_bool (RedisSetNX (jobLockKey jobId fireSlot) (Plain token) (EX_s ttl))) (\<lambda>res.
      Ret (if res then Some \<lparr>jl_jobId = jobId, jl_fireSlot = fireSlot, jl_token = token\<rparr> else None))))"

definition releaseJobLock :: "job_lock \<Rightarrow> unit prog" where
  "releaseJobLock lock =
     call_unit (RedisEval (ReleaseScript (jl_token lock)) (jobLockKey (jl_jobId lock) (jl_fireSlot lock)))"

section \<open>Keys\<close>

lemma slot_text_inject: "slot_text a = slot_text b \<longleftrightarrow> a = b"
  by (cases a; cases b) auto

lemma slot_text_no_colon: "CHR '':'' \<notin> set (slot_text a)"
  by (cases a) auto

lemma jobLockKey_eq_iff: "jobLockKey i a = jobLockKey j b \<longleftrightarrow> i = j \<and> a = b"
  using append_sep_inject [OF slot_text_no_colon slot_text_no_colon, of i a j b]
  by (auto simp: jobLockKey_def slot_text_inject)

text \<open>
  Lock keys are injective. Distinct (job, fire-slot) pairs never share a Redis key, even
  when a job identifier contains a colon, and no scheduled slot shares the key of the manual
  trigger.
\<close>

theorem jobLockKey_injective: "inj (\<lambda>(jobId, fireSlot). jobLockKey jobId fireSlot)"
  by (auto intro: injI simp: jobLockKey_eq_iff)

section \<open>The interface of an owner-token lock\<close>

text \<open>
  \<open>holder c w t\<close> is who holds each slot at time \<open>t\<close> if nothing happens after \<open>w\<close>; \<open>now c w\<close> is the
  instant of the last operation.
\<close>

locale fire_lock =
  fixes ok :: "'c \<Rightarrow> bool"
    and acquire :: "'c \<Rightarrow> string \<Rightarrow> fire_slot \<Rightarrow> int \<Rightarrow> 'w \<Rightarrow> job_lock option outcome \<times> 'w"
    and release :: "'c \<Rightarrow> job_lock \<Rightarrow> 'w \<Rightarrow> unit outcome \<times> 'w"
    and holder :: "'c \<Rightarrow> 'w \<Rightarrow> time \<Rightarrow> string \<Rightarrow> fire_slot \<Rightarrow> rvalue option"
    and issued :: "'c \<Rightarrow> 'w \<Rightarrow> string set"
    and now :: "'c \<Rightarrow> 'w \<Rightarrow> time"
    and valid :: "int \<Rightarrow> bool"
  assumes acquire_free: "ok c \<Longrightarrow> valid ttl \<Longrightarrow> acquire c j f ttl w = (res, w') \<Longrightarrow>
      holder c w (now c w') j f = None \<Longrightarrow>
      \<exists>token. token \<notin> issued c w \<and> issued c w' = insert token (issued c w) \<and>
        res = Inr (Some \<lparr>jl_jobId = j, jl_fireSlot = f, jl_token = token\<rparr>) \<and>
        holder c w' = (\<lambda>t i g. if i = j \<and> g = f
          then (if t < now c w' + 1000 * max 1 ttl then Some (Plain token) else None)
          else holder c w t i g)"
    and acquire_held: "ok c \<Longrightarrow> valid ttl \<Longrightarrow> acquire c j f ttl w = (res, w') \<Longrightarrow>
      holder c w (now c w') j f = Some v \<Longrightarrow>
      res = Inr None \<and> holder c w' = holder c w \<and> issued c w \<subseteq> issued c w'"
    and acquire_invalid: "ok c \<Longrightarrow> \<not> valid ttl \<Longrightarrow> acquire c j f ttl w = (res, w') \<Longrightarrow> \<exists>e. res = Inl e"
    and release_effect: "ok c \<Longrightarrow> release c l w = (done_res, w') \<Longrightarrow>
      done_res = Inr () \<and> issued c w' = issued c w \<and>
      holder c w' = (if holder c w (now c w') (jl_jobId l) (jl_fireSlot l) = Some (Plain (jl_token l))
        then (\<lambda>t i g. if i = jl_jobId l \<and> g = jl_fireSlot l then None else holder c w t i g)
        else holder c w)"
    and acquire_later: "ok c \<Longrightarrow> acquire c j f ttl w = (res, w') \<Longrightarrow> now c w \<le> now c w'"
    and release_later: "ok c \<Longrightarrow> release c l w = (done_res, w') \<Longrightarrow> now c w \<le> now c w'"
begin

lemma acquire_someD:
  assumes "ok c" "acquire c j f ttl w = (Inr (Some l), w1)"
  shows "l = \<lparr>jl_jobId = j, jl_fireSlot = f, jl_token = jl_token l\<rparr>" "jl_token l \<in> issued c w1"
    "holder c w1 t j f = (if t < now c w1 + 1000 * max 1 ttl then Some (Plain (jl_token l)) else None)"
proof -
  have v: "valid ttl" using acquire_invalid [OF assms(1) _ assms(2)] by blast
  have "holder c w (now c w1) j f = None"
    using acquire_held [OF assms(1) v assms(2)] by (cases "holder c w (now c w1) j f") auto
  from acquire_free [OF assms(1) v assms(2) this] obtain token where
    l: "l = \<lparr>jl_jobId = j, jl_fireSlot = f, jl_token = token\<rparr>"
    and i: "issued c w1 = insert token (issued c w)"
    and h: "holder c w1 = (\<lambda>t i g. if i = j \<and> g = f
      then (if t < now c w1 + 1000 * max 1 ttl then Some (Plain token) else None)
      else holder c w t i g)"
    by blast
  show "l = \<lparr>jl_jobId = j, jl_fireSlot = f, jl_token = jl_token l\<rparr>" "jl_token l \<in> issued c w1"
    using l i by simp_all
  show "holder c w1 t j f =
      (if t < now c w1 + 1000 * max 1 ttl then Some (Plain (jl_token l)) else None)"
    unfolding h l by simp
qed

lemma acquire_exclusive:
  assumes "ok c" "acquire c j f ttl w = (Inr (Some l), w1)" "acquire c j f ttl' w1 = (res, w2)"
    "now c w2 < now c w1 + 1000 * max 1 ttl" "valid ttl'"
  shows "res = Inr None \<and> holder c w2 (now c w2) j f = Some (Plain (jl_token l))"
proof -
  have "holder c w1 (now c w2) j f = Some (Plain (jl_token l))"
    using acquire_someD(3) [OF assms(1,2)] assms(4) by simp
  from acquire_held [OF assms(1,5,3) this] this show ?thesis by simp
qed

text \<open>A released or expired lock can be taken again, by an owner with another token.\<close>

lemma acquire_again:
  assumes "ok c" "acquire c j f ttl w = (Inr (Some l), w1)" "release c l w1 = (r1, w2)"
    "acquire c j f ttl' w2 = (res, w3)" "valid ttl'"
  shows "\<exists>l'. res = Inr (Some l') \<and> jl_token l' \<noteq> jl_token l"
proof -
  note A = acquire_someD [OF assms(1,2)] and R = release_effect [OF assms(1,3)]
  have l: "jl_jobId l = j" "jl_fireSlot l = f" using A(1) by (metis job_lock.select_convs(1,2))+
  have "holder c w2 (now c w3) j f = None"
  proof (cases "now c w2 < now c w1 + 1000 * max 1 ttl")
    case True
    with A(3) R l show ?thesis by simp
  next
    case False
    with acquire_later [OF assms(1,4)] have "\<not> now c w3 < now c w1 + 1000 * max 1 ttl" by linarith
    with A(3) R l show ?thesis by simp
  qed
  from acquire_free [OF assms(1,5,4) this] A(2) R show ?thesis by auto
qed

lemma stale_release_harmless:
  assumes "ok c" "holder c w (now c w') j f \<noteq> Some (Plain (jl_token l))" "release c l w = (res, w')"
  shows "holder c w' t j f = holder c w t j f"
  using release_effect [OF assms(1,3)] assms(2) by auto

end

section \<open>The lock of \<open>lock.ts\<close> provides the interface\<close>

definition acquire_run where
  "acquire_run c j f ttl w = run (fst c) (acquireJobLock j f ttl) w"

definition release_run where
  "release_run c l w = run (fst c) (releaseJobLock l) w"

definition lock_holder ::
  "'w services \<times> 'w view \<Rightarrow> 'w \<Rightarrow> time \<Rightarrow> string \<Rightarrow> fire_slot \<Rightarrow> rvalue option" where
  "lock_holder c w t j f = live_at (st_kv (snd c w)) t (jobLockKey j f)"

definition tokens_issued :: "'w services \<times> 'w view \<Rightarrow> 'w \<Rightarrow> string set" where
  "tokens_issued c w = st_uuids (snd c w)"

definition lock_clock :: "'w services \<times> 'w view \<Rightarrow> 'w \<Rightarrow> time" where
  "lock_clock c w = st_clock (snd c w)"

definition lock_ttl_valid :: "int \<Rightarrow> bool" where
  "lock_ttl_valid ttl \<longleftrightarrow> expiry_valid (EX_s (max 1 ttl))"

definition lock_services :: "'w services \<times> 'w view \<Rightarrow> bool" where
  "lock_services c \<longleftrightarrow> reliable (fst c) (snd c)"

text \<open>The two operations, as effects on the store.\<close>

lemma wp_acquireJobLock:
  "wp (acquireJobLock j f ttl) Q s = later s (\<lambda>u. \<forall>token. token \<notin> st_uuids u \<longrightarrow>
     later (u\<lparr>st_uuids := insert token (st_uuids u)\<rparr>) (\<lambda>v.
       if \<not> lock_ttl_valid ttl
       then \<forall>e. error_justified (RedisSetNX (jobLockKey j f) (Plain token) (EX_s (max 1 ttl))) e v v \<longrightarrow> Q (Inl e) v
       else if live v (jobLockKey j f) = None
       then Q (Inr (Some \<lparr>jl_jobId = j, jl_fireSlot = f, jl_token = token\<rparr>))
         (v\<lparr>st_kv := (st_kv v)(jobLockKey j f \<mapsto> (Plain token, st_clock v + 1000 * max 1 ttl))\<rparr>)
       else Q (Inr None) v))"
proof -
  have "(if ttl < 1 then 1 else ttl) = max 1 ttl" by simp
  then show ?thesis
    unfolding acquireJobLock_def Let_def lock_ttl_valid_def
    by (simp del: expiry_valid.simps)
qed

lemma wp_releaseJobLock:
  "wp (releaseJobLock l) Q s = later s (\<lambda>u.
     let k = jobLockKey (jl_jobId l) (jl_fireSlot l) in
     if live u k = Some (Plain (jl_token l)) then Q (Inr ()) (u\<lparr>st_kv := (st_kv u)(k := None)\<rparr>)
     else Q (Inr ()) u)"
  by (simp add: releaseJobLock_def Let_def)

lemma acquireJobLock_run:
  assumes "reliable svc V" "run svc (acquireJobLock j f ttl) w = (res, w')"
  shows "st_clock (V w) \<le> st_clock (V w') \<and>
    (\<exists>token. token \<notin> st_uuids (V w) \<and> st_uuids (V w') = insert token (st_uuids (V w)) \<and>
     (if \<not> lock_ttl_valid ttl then (\<exists>e. res = Inl e) \<and> st_kv (V w') = st_kv (V w)
      else if live_at (st_kv (V w)) (st_clock (V w')) (jobLockKey j f) = None
      then res = Inr (Some \<lparr>jl_jobId = j, jl_fireSlot = f, jl_token = token\<rparr>) \<and>
        st_kv (V w') = (st_kv (V w))(jobLockKey j f \<mapsto>
          (Plain token, st_clock (V w') + 1000 * max 1 ttl))
      else res = Inr None \<and> st_kv (V w') = st_kv (V w)))"
  by (rule wp_run [OF assms(1) _ assms(2)])
    (auto simp: wp_acquireJobLock later_def)

lemma releaseJobLock_run:
  assumes "reliable svc V" "run svc (releaseJobLock l) w = (res, w')"
  shows "st_clock (V w) \<le> st_clock (V w') \<and> res = Inr () \<and> st_uuids (V w') = st_uuids (V w) \<and>
    st_kv (V w') = (let k = jobLockKey (jl_jobId l) (jl_fireSlot l) in
      if live_at (st_kv (V w)) (st_clock (V w')) k = Some (Plain (jl_token l))
      then (st_kv (V w))(k := None) else st_kv (V w))"
  by (rule wp_run [OF assms(1) _ assms(2)]) (auto simp: wp_releaseJobLock later_def Let_def)

lemmas lock_run_defs = lock_services_def acquire_run_def release_run_def lock_holder_def
  tokens_issued_def lock_clock_def

interpretation joblock: fire_lock lock_services acquire_run release_run lock_holder tokens_issued
  lock_clock lock_ttl_valid
proof
  fix c :: "'w services \<times> 'w view" and w j f ttl res w'
  assume ok: "lock_services c" and run: "acquire_run c j f ttl w = (res, w')"
  note A = acquireJobLock_run [OF ok [unfolded lock_services_def] run [unfolded acquire_run_def]]
  show "lock_clock c w \<le> lock_clock c w'" using A by (simp add: lock_clock_def)
  show "\<exists>token. token \<notin> tokens_issued c w \<and> tokens_issued c w' = insert token (tokens_issued c w) \<and>
      res = Inr (Some \<lparr>jl_jobId = j, jl_fireSlot = f, jl_token = token\<rparr>) \<and>
      lock_holder c w' = (\<lambda>t i g. if i = j \<and> g = f
        then (if t < lock_clock c w' + 1000 * max 1 ttl then Some (Plain token) else None)
        else lock_holder c w t i g)"
    if "lock_ttl_valid ttl" "lock_holder c w (lock_clock c w') j f = None"
    using A that by (auto simp: lock_run_defs jobLockKey_eq_iff intro!: ext)
  show "res = Inr None \<and> lock_holder c w' = lock_holder c w \<and> tokens_issued c w \<subseteq> tokens_issued c w'"
    if "lock_ttl_valid ttl" "lock_holder c w (lock_clock c w') j f = Some v" for v
    using A that by (auto simp: lock_run_defs intro!: ext)
  show "\<exists>e. res = Inl e" if "\<not> lock_ttl_valid ttl" using A that by auto
next
  fix c :: "'w services \<times> 'w view" and l w res w'
  assume ok: "lock_services c" and run: "release_run c l w = (res, w')"
  note R = releaseJobLock_run [OF ok [unfolded lock_services_def] run [unfolded release_run_def]]
  show "lock_clock c w \<le> lock_clock c w'" using R by (simp add: lock_clock_def)
  show "res = Inr () \<and> tokens_issued c w' = tokens_issued c w \<and>
      lock_holder c w' =
        (if lock_holder c w (lock_clock c w') (jl_jobId l) (jl_fireSlot l) = Some (Plain (jl_token l))
         then (\<lambda>t i g. if i = jl_jobId l \<and> g = jl_fireSlot l then None else lock_holder c w t i g)
         else lock_holder c w)"
    using R by (auto simp: lock_run_defs jobLockKey_eq_iff Let_def intro!: ext)
qed

text \<open>
  C12: mutual exclusion of the lock. Once an acquisition of a (job, slot) lock with a lifetime of
  \<open>ttl\<close> seconds (at least one) has succeeded, every further acquisition of the slot that Redis
  serves before the lifetime ends returns null, and the first owner still holds the key.
\<close>

theorem acquireJobLock_exclusive:
  assumes "reliable svc V" "run svc (acquireJobLock j f ttl) w = (Inr (Some l), w1)"
    "run svc (acquireJobLock j f ttl') w1 = (res, w2)"
    "st_clock (V w2) < st_clock (V w1) + 1000 * max 1 ttl" "lock_ttl_valid ttl'"
  shows "res = Inr None \<and> live (V w2) (jobLockKey j f) = Some (Plain (jl_token l))"
  using joblock.acquire_exclusive [of "(svc, V)" j f ttl w l w1 ttl' res w2] assms
  by (simp add: lock_run_defs)

theorem acquireJobLock_exclusive_witness:
  "\<exists>l w1 w2. run ref_svc (acquireJobLock ''id-0'' (Slot 60000) 30) (ref_start [] 60500 5) = (Inr (Some l), w1) \<and>
     run ref_svc (acquireJobLock ''id-0'' (Slot 60000) 30) w1 = (Inr None, w2) \<and>
     live (ref_view w2) (jobLockKey ''id-0'' (Slot 60000)) = Some (Plain (jl_token l))"
proof -
  let ?acq = "run ref_svc (acquireJobLock ''id-0'' (Slot 60000) 30)"
  obtain l w1 res w2 where r: "?acq (ref_start [] 60500 5) = (Inr (Some l), w1)" "?acq w1 = (res, w2)"
      "st_clock (ref_view w2) < st_clock (ref_view w1) + 1000 * max 1 30"
    by (simp add: acquireJobLock_def jobLockKey_def run_bind randomUUID_def prog_defs ref_eval)
  moreover have "lock_ttl_valid 30" by (simp add: lock_ttl_valid_def)
  ultimately show ?thesis using acquireJobLock_exclusive [OF ref_svc_reliable r] by blast
qed

text \<open>
  C26: a holder can only delete its own lock. A release whose token is not the stored value at
  the time Redis serves it, because the lock expired and another owner acquired it, leaves the
  other owner's lock in place until that lock's own deadline.
\<close>

theorem stale_release_keeps_new_owner:
  assumes "reliable svc V" "run svc (releaseJobLock l) w = (res, w')"
    "live_at (st_kv (V w)) (st_clock (V w')) (jobLockKey j f) = Some owner"
    "owner \<noteq> Plain (jl_token l)"
  shows "\<forall>t. live_at (st_kv (V w')) t (jobLockKey j f) = live_at (st_kv (V w)) t (jobLockKey j f)"
  using joblock.stale_release_harmless [of "(svc, V)" w w' j f l res] assms
  by (simp add: lock_run_defs)

theorem stale_release_keeps_new_owner_witness:
  "let l = \<lparr>jl_jobId = ''id-0'', jl_fireSlot = Manual, jl_token = ''mine''\<rparr>;
       key = jobLockKey ''id-0'' Manual;
       w = (ref_start [] 60500 5)\<lparr>rw_kv := [key \<mapsto> (Plain ''other'', 90000)]\<rparr>
   in live_at (st_kv (ref_view (snd (run ref_svc (releaseJobLock l) w)))) 80000 key = Some (Plain ''other'')"
proof -
  define l where "l = \<lparr>jl_jobId = ''id-0'', jl_fireSlot = Manual, jl_token = ''mine''\<rparr>"
  define w where "w = (ref_start [] 60500 5)\<lparr>rw_kv := [jobLockKey ''id-0'' Manual \<mapsto> (Plain ''other'', 90000)]\<rparr>"
  obtain res w' where r: "run ref_svc (releaseJobLock l) w = (res, w')" by fastforce
  then have c: "st_clock (ref_view w') = 60505"
    by (auto simp: releaseJobLock_def l_def w_def RELEASE_SCRIPT_def run_bind prog_defs ref_eval
      split: if_splits)
  have "live_at (st_kv (ref_view w)) (st_clock (ref_view w')) (jobLockKey ''id-0'' Manual) = Some (Plain ''other'')"
    using c by (simp add: w_def live_at_def)
  from stale_release_keeps_new_owner [OF ref_svc_reliable r this] have
    "live_at (st_kv (ref_view w')) 80000 (jobLockKey ''id-0'' Manual) = Some (Plain ''other'')"
    by (simp add: l_def w_def live_at_def)
  with r show ?thesis by (simp add: l_def w_def Let_def)
qed

end
