(* ===== verification/Execution_Service.thy ===== *)
theory Execution_Service
  imports Fault_Free Js_Number
begin

text \<open>
  \<open>src/services/execution.service.ts\<close>: creating executions, the paginated history and the
  statistics of a job.
\<close>

definition createExecution :: "string \<Rightarrow> string \<Rightarrow> execution prog" where
  "createExecution jobId source =
     call_exec (ExecCreate \<lparr>ed_jobId = jobId, ed_scheduledFor = None, ed_status = PENDING,
       ed_attemptNumber = 1, ed_triggerSource = source\<rparr>)"

definition scheduled_data :: "string \<Rightarrow> time \<Rightarrow> exec_data" where
  "scheduled_data jobId slot = \<lparr>ed_jobId = jobId, ed_scheduledFor = Some slot, ed_status = PENDING,
     ed_attemptNumber = 1, ed_triggerSource = ''schedule''\<rparr>"

definition is_p2002 :: "err \<Rightarrow> bool" where
  "is_p2002 e \<longleftrightarrow> (\<exists>m. e = PrismaKnownRequestError ''P2002'' m)"

lemma is_p2002_code [code, simp]:
  "is_p2002 (PrismaKnownRequestError c m) \<longleftrightarrow> c = ''P2002''"
  "is_p2002 (JsError n x) \<longleftrightarrow> False"
  "is_p2002 ZodError \<longleftrightarrow> False"
  "is_p2002 (UnsafeCallbackUrlError m) \<longleftrightarrow> False"
  "is_p2002 BadResponse \<longleftrightarrow> False"
  by (auto simp: is_p2002_def)

definition createScheduledExecution :: "string \<Rightarrow> time \<Rightarrow> execution option prog" where
  "createScheduledExecution jobId slot =
     try_catch
       (bind (call_exec (ExecCreate (scheduled_data jobId slot))) (\<lambda>e. Ret (Some e)))
       (\<lambda>e. if is_p2002 e then Ret None else Throw e)"

section \<open>History\<close>

text \<open>Arithmetic on doubles as far as the paging needs it.\<close>

fun js_sub_one :: "jsnum \<Rightarrow> jsnum" where
  "js_sub_one (Fin x) = js_of_rat (x - 1)"
| "js_sub_one n = n"

fun js_mult :: "jsnum \<Rightarrow> jsnum \<Rightarrow> jsnum" where
  "js_mult (Fin x) (Fin y) = js_of_rat (x * y)"
| "js_mult NaN b = NaN"
| "js_mult a NaN = NaN"
| "js_mult (Fin x) b = (if x = 0 then NaN else if 0 < x then b else if b = PosInf then NegInf else PosInf)"
| "js_mult a (Fin y) = (if y = 0 then NaN else if 0 < y then a else if a = PosInf then NegInf else PosInf)"
| "js_mult a b = (if a = b then PosInf else NegInf)"

definition listExecutions :: "string \<Rightarrow> jsnum \<Rightarrow> jsnum \<Rightarrow> (execution list \<times> int) prog" where
  "listExecutions jobId page limit =
     (let skip = js_mult (js_sub_one page) limit in
      bind (call_execs (ExecFindMany \<lparr>eq_jobId = jobId, eq_skip = skip, eq_take = limit\<rparr>)) (\<lambda>items.
      bind (call_int (ExecCount jobId)) (\<lambda>total. Ret (items, total))))"

section \<open>Statistics\<close>

record job_stats =
  windowDays :: rat
  totalRuns :: nat
  successCount :: nat
  failedCount :: nat
  deadCount :: nat
  successRate :: rat
  avgDurationMs :: "int option"

definition js_round :: "rat \<Rightarrow> int" where \<comment> \<open>\<open>Math.round\<close>: halves round up\<close>
  "js_round x = \<lfloor>x + 1 / 2\<rfloor>"

definition stats_of :: "rat \<Rightarrow> execution list \<Rightarrow> job_stats" where
  "stats_of days rows =
     (let sc = length (filter (\<lambda>r. status r = SUCCESS) rows);
          fc = length (filter (\<lambda>r. status r = FAILED) rows);
          dc = length (filter (\<lambda>r. status r = DEAD) rows);
          total = length rows;
          durations = List.map_filter durationMs rows
      in \<lparr>windowDays = days, totalRuns = total, successCount = sc, failedCount = fc,
          deadCount = dc,
          successRate = (if total = 0 then 0 else dbl (of_nat sc / of_nat total)),
          avgDurationMs = (if durations = [] then None
            else Some (js_round (dbl (of_int (sum_list durations) / of_nat (length durations)))))\<rparr>)"

text \<open>
  \<open>since\<close> is the current time moved back by \<open>days\<close> calendar days, \<open>setDate(getDate() - days)\<close>,
  which the process's time zone determines; \<open>back\<close> stands for that function.
\<close>

definition getJobStats :: "(time \<Rightarrow> rat \<Rightarrow> time) \<Rightarrow> string \<Rightarrow> rat \<Rightarrow> job_stats option prog" where
  "getJobStats back jobId days =
     bind (call_job_opt (JobFindUnique jobId)) (\<lambda>job.
     case job of
       None \<Rightarrow> Ret None
     | Some _ \<Rightarrow>
        bind date_now (\<lambda>now.
        bind (call_execs (ExecFindFinished jobId (back now days))) (\<lambda>rows.
        Ret (Some (stats_of days rows)))))"

section \<open>Claiming a slot\<close>

lemma wp_createScheduledExecution:
  "wp (createScheduledExecution j t) Q s \<longleftrightarrow> later s (\<lambda>u.
     (\<forall>e s'. exec_inserted (scheduled_data j t) e u s' \<longrightarrow> Q (Inr (Some e)) s') \<and>
     (slot_taken u j t \<longrightarrow> Q (Inr None) u) \<and>
     (st_jobs u j = None \<longrightarrow> (\<forall>m. Q (Inl (PrismaKnownRequestError ''P2003'' m)) u)))"
  by (simp add: createScheduledExecution_def wp_exec_create scheduled_data_def)

end
