(* ===== verification/Scheduler.thy ===== *)
theory Scheduler
  imports Cron_Utils Lock_Ttl Queues Job_Lock Execution_Service
begin

text \<open>
  \<open>src/scheduler.ts\<close>: one scan of the enabled, unpaused jobs. Per due job it takes the fire-slot
  lock (a fast path), claims the slot by inserting the execution, and enqueues it.
\<close>

definition slot_job_data :: "string \<Rightarrow> string \<Rightarrow> time \<Rightarrow> exec_job_data" where
  "slot_job_data exId jobId slot =
     \<lparr>ej_executionId = exId, ej_jobId = jobId, ej_fireSlot = Slot slot\<rparr>"

text \<open>The body of the loop, from the due slot on.\<close>

definition fire_slot_of_job :: "env \<Rightarrow> job \<Rightarrow> time \<Rightarrow> unit prog" where
  "fire_slot_of_job cfg j slot =
     bind (acquireJobLock (job_id j) (Slot slot) (computeJobLockTtlSeconds cfg j)) (\<lambda>lock.
     case lock of
       None \<Rightarrow> metric_inc SlotsDedupedTotal
     | Some l \<Rightarrow>
        try_catch
          (bind (createScheduledExecution (job_id j) slot) (\<lambda>ex.
           case ex of
             None \<Rightarrow> bind (metric_inc SlotsDedupedTotal) (\<lambda>_. releaseJobLock l)
           | Some x \<Rightarrow>
               bind (call_unit (QueueAdd (slot_job_data (exec_id x) (job_id j) slot)
                  (executionJobOptions j))) (\<lambda>_.
               metric_inc SlotsEnqueuedTotal)))
          (\<lambda>e. bind (releaseJobLock l) (\<lambda>_. Throw e)))"

definition tick_job :: "cron_parser \<Rightarrow> env \<Rightarrow> job \<Rightarrow> unit prog" where
  "tick_job cp cfg j =
     bind date_now (\<lambda>now.
     case dueFireSlot cp cfg (cronExpression j) (timezone j) now of
       None \<Rightarrow> Ret ()
     | Some slot \<Rightarrow> fire_slot_of_job cfg j slot)"

definition tick :: "cron_parser \<Rightarrow> env \<Rightarrow> unit prog" where
  "tick cp cfg =
     bind (metric_inc SchedulerTicksTotal) (\<lambda>_.
     bind (call_jobs (JobFindMany EnabledNotPaused)) (\<lambda>jobs.
     bind (for_each (tick_job cp cfg) jobs) (\<lambda>_.
     metric_inc SchedulerTickDurationEnd)))"

section \<open>The scan loop\<close>

definition isDbUnreachableError :: "err \<Rightarrow> bool" where
  "isDbUnreachableError e \<longleftrightarrow>
     includes_str (err_text e) ''P1001'' \<or>
     includes_str (err_text e) (''Can'' @ [CHR 0x27] @ ''t reach database'')"

text \<open>
  \<open>run()\<close>: with an election only the leader scans; an error of a tick never escapes, and errors
  about an unreachable database are logged at most once a minute. The result is the new
  \<open>lastConnectionErrorLog\<close> and whether the error was logged.
\<close>

definition CONNECTION_ERROR_LOG_MS :: int where
  "CONNECTION_ERROR_LOG_MS = 60000"

definition scheduler_run :: "cron_parser \<Rightarrow> env \<Rightarrow> bool option \<Rightarrow> time \<Rightarrow> (time \<times> bool) prog" where
  "scheduler_run cp cfg election lastLog =
     (if election = Some False then Ret (lastLog, False)
      else try_catch (bind (tick cp cfg) (\<lambda>_. Ret (lastLog, False)))
        (\<lambda>e. if isDbUnreachableError e
             then bind date_now (\<lambda>now.
               if now - lastLog < CONNECTION_ERROR_LOG_MS then Ret (lastLog, False)
               else Ret (now, True))
             else Ret (lastLog, True)))"

section \<open>What one due job causes\<close>

definition fired :: "job \<Rightarrow> time \<Rightarrow> store \<Rightarrow> store \<Rightarrow> bool" where
  "fired j slot s s' \<longleftrightarrow> (\<exists>e. exec_id e \<notin> st_ids s \<and> exec_jobId e = job_id j \<and> scheduledFor e = Some slot \<and>
     status e = PENDING \<and> st_execs s' = (st_execs s)(exec_id e \<mapsto> e) \<and>
     st_queue s' = st_queue s @ [(slot_job_data (exec_id e) (job_id j) slot, executionJobOptions j)] \<and>
     st_ids s' = insert (exec_id e) (st_ids s))"

definition skipped :: "store \<Rightarrow> store \<Rightarrow> bool" where
  "skipped s s' \<longleftrightarrow> st_execs s' = st_execs s \<and> st_queue s' = st_queue s \<and> st_ids s' = st_ids s"

definition fire_effect :: "job \<Rightarrow> time \<Rightarrow> store \<Rightarrow> store \<Rightarrow> bool" where
  "fire_effect j slot s s' \<longleftrightarrow>
     st_clock s \<le> st_clock s' \<and> st_jobs s' = st_jobs s \<and>
     (\<forall>k. k \<noteq> jobLockKey (job_id j) (Slot slot) \<longrightarrow> st_kv s' k = st_kv s k) \<and>
     (fired j slot s s' \<and> \<not> slot_taken s (job_id j) slot \<or>
      skipped s s' \<and> (slot_taken s (job_id j) slot \<or>
        (\<exists>t. st_clock s \<le> t \<and> t \<le> st_clock s' \<and> live_at (st_kv s) t (jobLockKey (job_id j) (Slot slot)) \<noteq> None)))"

lemma slot_taken_clock [simp]: "slot_taken (s\<lparr>st_clock := t\<rparr>) j u = slot_taken s j u"
  "slot_taken (s\<lparr>st_kv := m\<rparr>) j u = slot_taken s j u" "slot_taken (s\<lparr>st_uuids := us\<rparr>) j u = slot_taken s j u"
  "slot_taken (s\<lparr>st_metrics := ms\<rparr>) j u = slot_taken s j u"
  by (simp_all add: slot_taken_def)

lemma fired_intro:
  assumes "exec_inserted (scheduled_data (job_id j) slot) e s1 s2"
    "st_execs s1 = st_execs s" "st_ids s1 = st_ids s" "st_queue s1 = st_queue s" "st_jobs s1 = st_jobs s"
    "st_clock s \<le> st_clock s1" "st_clock s2 \<le> st_clock s'"
    "\<forall>k. k \<noteq> jobLockKey (job_id j) (Slot slot) \<longrightarrow> st_kv s1 k = st_kv s k"
    "st_execs s' = st_execs s2" "st_ids s' = st_ids s2" "st_jobs s' = st_jobs s2" "st_kv s' = st_kv s2"
    "st_queue s' = st_queue s2 @ [(slot_job_data (exec_id e) (job_id j) slot, executionJobOptions j)]"
  shows "fire_effect j slot s s'"
proof -
  note ins = exec_inserted_select [OF assms(1)]
  have free: "\<not> slot_taken s (job_id j) slot"
    using assms(1,2) by (simp add: exec_inserted_def scheduled_data_def slot_taken_def)
  have "fired j slot s s'"
    unfolding fired_def using ins assms(2-13) by (intro exI [of _ e]) (simp add: scheduled_data_def)
  with free ins(9) assms show ?thesis by (simp add: fire_effect_def)
qed

lemma fire_slot_of_job_wp:
  assumes "st_jobs s (job_id j) \<noteq> None" "lock_ttl_valid (computeJobLockTtlSeconds cfg j)"
  shows "wp (fire_slot_of_job cfg j slot) (\<lambda>res s'. res = Inr () \<and> fire_effect j slot s s') s"
  using assms
  apply (simp add: fire_slot_of_job_def wp_acquireJobLock wp_createScheduledExecution
        wp_releaseJobLock later_def Let_def, intro allI impI conjI)
  subgoal by (erule fired_intro) simp_all
  by (auto simp: fire_effect_def skipped_def)

section \<open>What one scan causes\<close>

abbreviation due_slot :: "cron_parser \<Rightarrow> env \<Rightarrow> job \<Rightarrow> time \<Rightarrow> time option" where
  "due_slot cp cfg j t \<equiv> dueFireSlot cp cfg (cronExpression j) (timezone j) t"

text \<open>A fire is a job, the slot it fires for and the execution row that claims the slot.\<close>

type_synonym fire = "job \<times> time \<times> execution"

definition fire_entry :: "fire \<Rightarrow> exec_job_data \<times> jobs_options" where
  "fire_entry f = (case f of (j, slot, e) \<Rightarrow> (slot_job_data (exec_id e) (job_id j) slot, executionJobOptions j))"

definition fire_ok :: "cron_parser \<Rightarrow> env \<Rightarrow> store \<Rightarrow> store \<Rightarrow> fire \<Rightarrow> bool" where
  "fire_ok cp cfg s0 u f \<longleftrightarrow> (case f of (j, slot, e) \<Rightarrow>
     (\<exists>t. st_clock s0 \<le> t \<and> t \<le> st_clock u \<and> due_slot cp cfg j t = Some slot) \<and>
     \<not> slot_taken s0 (job_id j) slot \<and> exec_id e \<notin> st_ids s0 \<and> exec_id e \<in> st_ids u \<and>
     st_execs u (exec_id e) = Some e \<and> exec_jobId e = job_id j \<and> scheduledFor e = Some slot \<and> status e = PENDING)"

definition fire_wanted :: "cron_parser \<Rightarrow> env \<Rightarrow> store \<Rightarrow> store \<Rightarrow> job \<Rightarrow> time \<Rightarrow> bool" where
  "fire_wanted cp cfg s0 u j slot \<longleftrightarrow>
     (\<forall>t. st_clock s0 \<le> t \<and> t \<le> st_clock u \<longrightarrow> due_slot cp cfg j t = Some slot) \<and>
     \<not> slot_taken s0 (job_id j) slot \<and>
     (\<forall>t. st_clock s0 \<le> t \<and> t \<le> st_clock u \<longrightarrow> live_at (st_kv s0) t (jobLockKey (job_id j) (Slot slot)) = None)"

text \<open>The state of the scan after the jobs \<open>ys\<close>, with the fires \<open>fs\<close> so far.\<close>

definition scan_inv :: "cron_parser \<Rightarrow> env \<Rightarrow> store \<Rightarrow> job list \<Rightarrow> fire list \<Rightarrow> store \<Rightarrow> bool" where
  "scan_inv cp cfg s0 ys fs u \<longleftrightarrow>
     st_clock s0 \<le> st_clock u \<and> st_jobs u = st_jobs s0 \<and> st_ids s0 \<subseteq> st_ids u \<and> dom (st_execs u) \<subseteq> st_ids u \<and>
     (\<forall>i t. slot_taken s0 i t \<longrightarrow> slot_taken u i t) \<and>
     (\<forall>i t. i \<notin> job_id ` set ys \<longrightarrow> slot_taken u i t \<longrightarrow> slot_taken s0 i t) \<and>
     (\<forall>i t. i \<notin> job_id ` set ys \<longrightarrow> st_kv u (jobLockKey i (Slot t)) = st_kv s0 (jobLockKey i (Slot t))) \<and>
     st_queue u = st_queue s0 @ map fire_entry fs \<and> distinct (map (job_id \<circ> fst) fs) \<and>
     (\<forall>f \<in> set fs. fst f \<in> set ys \<and> fire_ok cp cfg s0 u f) \<and>
     (\<forall>j \<in> set ys. \<forall>slot. fire_wanted cp cfg s0 u j slot \<longrightarrow> (\<exists>e. (j, slot, e) \<in> set fs))"

lemma fired_slot_taken:
  assumes "fired j slot s s'" "dom (st_execs s) \<subseteq> st_ids s"
  shows "slot_taken s' i t \<longleftrightarrow> slot_taken s i t \<or> (i = job_id j \<and> t = slot)"
proof -
  from assms(1) obtain e where e: "exec_id e \<notin> st_ids s" "exec_jobId e = job_id j" "scheduledFor e = Some slot"
    "st_execs s' = (st_execs s)(exec_id e \<mapsto> e)" by (auto simp: fired_def)
  with assms(2) have free: "st_execs s (exec_id e) = None" by blast
  have "slot_taken s' i t \<longleftrightarrow> (exec_jobId e = i \<and> scheduledFor e = Some t) \<or> slot_taken s i t"
    unfolding slot_taken_def e(4) by (rule ex_insert_row) (rule free)
  then show ?thesis unfolding e(2,3) by auto
qed

lemma scan_inv_start:
  "tables_wf s \<Longrightarrow> scan_inv cp cfg s [] [] s"
  by (auto simp: scan_inv_def tables_wf_def)

lemma fire_wanted_earlier: "st_clock u \<le> st_clock u' \<Longrightarrow> fire_wanted cp cfg s0 u' j slot \<Longrightarrow> fire_wanted cp cfg s0 u j slot"
  by (auto simp: fire_wanted_def)

lemma fire_ok_later:
  assumes "fire_ok cp cfg s0 u f" "st_clock u \<le> st_clock u'" "st_ids u \<subseteq> st_ids u'"
    "\<And>i. i \<in> st_ids u \<Longrightarrow> st_execs u' i = st_execs u i"
  shows "fire_ok cp cfg s0 u' f"
  using assms by (cases f) (auto simp: fire_ok_def intro: order_trans)

lemma scan_inv_skip:
  assumes inv: "scan_inv cp cfg s0 ys fs u" and new: "job_id j \<notin> job_id ` set ys"
    and u': "skipped u u'" "st_clock u \<le> st_clock u'" "st_jobs u' = st_jobs u"
      "\<forall>i t. i \<noteq> job_id j \<longrightarrow> st_kv u' (jobLockKey i (Slot t)) = st_kv u (jobLockKey i (Slot t))"
    and no: "\<And>slot. \<not> fire_wanted cp cfg s0 u' j slot"
  shows "scan_inv cp cfg s0 (ys @ [j]) fs u'"
proof -
  have rows: "st_execs u' = st_execs u" "st_ids u' = st_ids u" "st_queue u' = st_queue u"
    using u'(1) by (simp_all add: skipped_def)
  then have st: "slot_taken u' i t = slot_taken u i t" for i t by (simp add: slot_taken_def)
  have "fire_ok cp cfg s0 u' f" if "fire_ok cp cfg s0 u f" for f
    using that u'(2) by (rule fire_ok_later) (simp_all add: rows)
  with inv u' rows st no show ?thesis
    unfolding scan_inv_def by (auto dest: fire_wanted_earlier [OF u'(2)])
qed

lemma scan_inv_fire:
  assumes inv: "scan_inv cp cfg s0 ys fs u" and new: "job_id j \<notin> job_id ` set ys"
    and u': "fired j slot u u'" "st_clock u \<le> st_clock u'" "st_jobs u' = st_jobs u"
      "\<forall>i t. i \<noteq> job_id j \<longrightarrow> st_kv u' (jobLockKey i (Slot t)) = st_kv u (jobLockKey i (Slot t))"
    and due: "due_slot cp cfg j t = Some slot" "st_clock u \<le> t" "t \<le> st_clock u'"
    and free: "\<not> slot_taken u (job_id j) slot"
  shows "\<exists>e. scan_inv cp cfg s0 (ys @ [j]) (fs @ [(j, slot, e)]) u'"
proof -
  from u'(1) obtain e where e: "exec_id e \<notin> st_ids u" "exec_jobId e = job_id j" "scheduledFor e = Some slot"
    "status e = PENDING" "st_execs u' = (st_execs u)(exec_id e \<mapsto> e)" "st_ids u' = insert (exec_id e) (st_ids u)"
    "st_queue u' = st_queue u @ [(slot_job_data (exec_id e) (job_id j) slot, executionJobOptions j)]"
    by (auto simp: fired_def)
  have dom: "dom (st_execs u) \<subseteq> st_ids u" and ids: "st_ids s0 \<subseteq> st_ids u" and clk: "st_clock s0 \<le> st_clock u"
    and grown: "\<forall>i t. slot_taken s0 i t \<longrightarrow> slot_taken u i t"
    using inv by (auto simp: scan_inv_def)
  have st: "slot_taken u' i s \<longleftrightarrow> slot_taken u i s \<or> (i = job_id j \<and> s = slot)" for i s
    using u'(1) dom by (rule fired_slot_taken)
  have old: "fire_ok cp cfg s0 u' f" if "fire_ok cp cfg s0 u f" for f
    using that u'(2) by (rule fire_ok_later) (use e in auto)
  have mine: "fire_ok cp cfg s0 u' (j, slot, e)"
    using e ids due free grown clk by (auto simp: fire_ok_def intro!: exI [of _ t])
  have only: "s = slot" if "fire_wanted cp cfg s0 u' j s" for s
    using that due clk by (auto simp: fire_wanted_def)
  have distinct: "distinct (map (job_id \<circ> fst) (fs @ [(j, slot, e)]))"
    using inv new by (auto simp: scan_inv_def)
  have "scan_inv cp cfg s0 (ys @ [j]) (fs @ [(j, slot, e)]) u'"
    unfolding scan_inv_def
  proof (intro conjI)
    show "dom (st_execs u') \<subseteq> st_ids u'" using dom e by auto
    show "st_queue u' = st_queue s0 @ map fire_entry (fs @ [(j, slot, e)])"
      using inv e by (simp add: scan_inv_def fire_entry_def)
    show "\<forall>j' \<in> set (ys @ [j]). \<forall>s. fire_wanted cp cfg s0 u' j' s \<longrightarrow> (\<exists>x. (j', s, x) \<in> set (fs @ [(j, slot, e)]))"
      using inv only fire_wanted_earlier [OF u'(2)] by (fastforce simp: scan_inv_def)
  qed (use inv distinct old mine u' st e in \<open>auto simp: scan_inv_def\<close>)
  then show ?thesis ..
qed

lemma scan_inv_later:
  assumes "scan_inv cp cfg s0 ys fs u" "st_clock u \<le> t"
  shows "scan_inv cp cfg s0 ys fs (u\<lparr>st_clock := t, st_metrics := m\<rparr>)" (is "scan_inv _ _ _ _ _ ?u")
proof -
  have "fire_ok cp cfg s0 ?u f" if "fire_ok cp cfg s0 u f" for f
    using that by (rule fire_ok_later) (use assms(2) in simp_all)
  moreover have "fire_wanted cp cfg s0 u j slot" if "fire_wanted cp cfg s0 ?u j slot" for j slot
    using _ that by (rule fire_wanted_earlier) (use assms(2) in simp)
  ultimately show ?thesis using assms unfolding scan_inv_def by simp
qed

lemma tick_job_wp:
  assumes inv: "\<exists>fs. scan_inv cp cfg s0 ys fs u" and new: "job_id j \<notin> job_id ` set ys"
    and row: "st_jobs s0 (job_id j) \<noteq> None" and ttl: "lock_ttl_valid (computeJobLockTtlSeconds cfg j)"
  shows "wp (tick_job cp cfg j) (\<lambda>res u'. res = Inr () \<and> (\<exists>fs. scan_inv cp cfg s0 (ys @ [j]) fs u')) u"
proof -
  from inv obtain fs where inv: "scan_inv cp cfg s0 ys fs u" by blast
  have "wp (case due_slot cp cfg j t of None \<Rightarrow> Ret () | Some slot \<Rightarrow> fire_slot_of_job cfg j slot)
      (\<lambda>res u'. res = Inr () \<and> (\<exists>fs. scan_inv cp cfg s0 (ys @ [j]) fs u')) (u\<lparr>st_clock := t\<rparr>)"
    if t: "st_clock u \<le> t" for t
  proof (cases "due_slot cp cfg j t")
    case None
    have "\<not> fire_wanted cp cfg s0 (u\<lparr>st_clock := t\<rparr>) j slot" for slot
      using None t inv by (auto simp: fire_wanted_def scan_inv_def)
    then have "scan_inv cp cfg s0 (ys @ [j]) fs (u\<lparr>st_clock := t\<rparr>)"
      using t by (intro scan_inv_skip [OF inv new]) (simp_all add: skipped_def)
    with None show ?thesis by auto
  next
    case (Some slot)
    let ?u = "u\<lparr>st_clock := t\<rparr>"
    have clk: "st_clock s0 \<le> st_clock u" "st_jobs u = st_jobs s0" using inv by (auto simp: scan_inv_def)
    have "\<exists>fs. scan_inv cp cfg s0 (ys @ [j]) fs u'" if eff: "fire_effect j slot ?u u'" for u'
    proof -
      have frame: "st_clock u \<le> st_clock u'" "t \<le> st_clock u'" "st_jobs u' = st_jobs u"
        "\<forall>i s. i \<noteq> job_id j \<longrightarrow> st_kv u' (jobLockKey i (Slot s)) = st_kv u (jobLockKey i (Slot s))"
        using eff t by (auto simp: fire_effect_def jobLockKey_eq_iff)
      show ?thesis
      proof (cases "fired j slot ?u u' \<and> \<not> slot_taken ?u (job_id j) slot")
        case True
        then have "fired j slot u u'" "\<not> slot_taken u (job_id j) slot" by (simp_all add: fired_def)
        with scan_inv_fire [OF inv new _ frame(1,3,4) Some t frame(2)] show ?thesis by blast
      next
        case False
        with eff have skip: "skipped u u'" "slot_taken u (job_id j) slot \<or>
            (\<exists>t'. t \<le> t' \<and> t' \<le> st_clock u' \<and> live_at (st_kv u) t' (jobLockKey (job_id j) (Slot slot)) \<noteq> None)"
          by (auto simp: fire_effect_def skipped_def)
        have same: "slot_taken u (job_id j) slot \<Longrightarrow> slot_taken s0 (job_id j) slot"
          "st_kv u (jobLockKey (job_id j) (Slot slot)) = st_kv s0 (jobLockKey (job_id j) (Slot slot))"
          using inv new by (auto simp: scan_inv_def)
        have "live_at (st_kv u) t' (jobLockKey (job_id j) (Slot slot)) = live_at (st_kv s0) t' (jobLockKey (job_id j) (Slot slot))" for t'
          by (simp add: live_at_def same(2))
        with skip same(1) Some clk t frame have "\<not> fire_wanted cp cfg s0 u' j s" for s
          by (force simp: fire_wanted_def)
        with scan_inv_skip [OF inv new skip(1) frame(1,3,4)] show ?thesis by blast
      qed
    qed
    moreover have "wp (fire_slot_of_job cfg j slot) (\<lambda>res u'. res = Inr () \<and> fire_effect j slot ?u u') ?u"
      using row ttl clk by (intro fire_slot_of_job_wp) simp_all
    ultimately show ?thesis using Some by (auto intro: wp_mono)
  qed
  then show ?thesis by (simp add: tick_job_def later_def)
qed

definition active :: "job \<Rightarrow> bool" where
  "active j \<longleftrightarrow> enabled j \<and> \<not> paused j"

definition active_jobs :: "store \<Rightarrow> job set" where
  "active_jobs s = {j. st_jobs s (job_id j) = Some j \<and> active j}"

lemma tick_wp:
  assumes "tables_wf s" "\<And>j. j \<in> active_jobs s \<Longrightarrow> lock_ttl_valid (computeJobLockTtlSeconds cfg j)"
  shows "wp (tick cp cfg) (\<lambda>res u. res = Inr () \<and>
    (\<exists>js fs. set js = active_jobs s \<and> scan_inv cp cfg s js fs u)) s"
proof -
  let ?done = "\<lambda>res u. res = Inr () \<and> (\<exists>js fs. set js = active_jobs s \<and> scan_inv cp cfg s js fs u)"
  define body where "body js = bind (for_each (tick_job cp cfg) js) (\<lambda>_. metric_inc SchedulerTickDurationEnd)" for js
  have "wp (body js) ?done
      (s\<lparr>st_metrics := m, st_clock := t\<rparr>)"
    if js: "set js = active_jobs s" "distinct (map job_id js)" and t: "st_clock s \<le> t" for js t m
  proof -
    let ?I = "\<lambda>ys u. \<exists>fs. scan_inv cp cfg s ys fs u"
    have "wp (for_each (tick_job cp cfg) js) (\<lambda>res u. res = Inr () \<and> ?I js u) (s\<lparr>st_metrics := m, st_clock := t\<rparr>)"
    proof (rule wp_for_each [where I = ?I])
      show "?I [] (s\<lparr>st_metrics := m, st_clock := t\<rparr>)"
      proof -
        have "s\<lparr>st_metrics := m, st_clock := t\<rparr> = s\<lparr>st_clock := t, st_metrics := m\<rparr>" by simp
        then show ?thesis using scan_inv_later [OF scan_inv_start [OF assms(1)] t, of cp cfg m] by metis
      qed
      show "wp (tick_job cp cfg j) (\<lambda>res u'. res = Inr () \<and> ?I (ys @ [j]) u') u"
        if "js = ys @ j # zs" "?I ys u" for ys j zs u
        using that js assms(2) [of j] by (intro tick_job_wp) (auto simp: active_jobs_def)
    qed
    then show ?thesis
      unfolding body_def wp_bind by (rule wp_mono) (use js(1) in \<open>auto simp: later_def intro: scan_inv_later\<close>)
  qed
  then show ?thesis
    unfolding tick_def body_def [symmetric] by (auto simp: later_def active_jobs_def active_def)
qed

text \<open>
  C2: what one fault-free scan does. When the lock lifetimes of the active jobs are acceptable
  to Redis, \<open>tick\<close> completes and appends exactly one queue entry per fire: each fire is of an enabled,
  unpaused job, for a slot that was due at an instant of the scan and was not claimed before, and
  has a new PENDING row that claims it. No job fires twice in one scan. Conversely, every
  active job that is due for one slot throughout the scan, with the slot unclaimed and its lock free, fires.
\<close>

theorem tick_fires_due_slots:
  assumes "reliable svc V" "tables_wf (V w)"
    "\<And>j. j \<in> active_jobs (V w) \<Longrightarrow> lock_ttl_valid (computeJobLockTtlSeconds cfg j)"
    "run svc (tick cp cfg) w = (res, w')"
  shows "res = Inr () \<and> (\<exists>fs. st_queue (V w') = st_queue (V w) @ map fire_entry fs \<and>
    distinct (map (job_id \<circ> fst) fs) \<and>
    (\<forall>f \<in> set fs. fst f \<in> active_jobs (V w) \<and> fire_ok cp cfg (V w) (V w') f) \<and>
    (\<forall>j \<in> active_jobs (V w). \<forall>slot. fire_wanted cp cfg (V w) (V w') j slot \<longrightarrow> (\<exists>e. (j, slot, e) \<in> set fs)))"
proof -
  have "res = Inr () \<and> (\<exists>js fs. set js = active_jobs (V w) \<and> scan_inv cp cfg (V w) js fs (V w'))"
    using wp_run [OF assms(1) tick_wp [OF assms(2,3)] assms(4)] by simp
  then show ?thesis unfolding scan_inv_def by metis
qed

lemma sample_ttl: "lock_ttl_valid (computeJobLockTtlSeconds default_env sample_job)"
  by (simp add: sample_ttl_seconds lock_ttl_valid_def)

lemma sample_start:
  "active_jobs (ref_view (ref_start [sample_job] t n)) = {sample_job}" "tables_wf (ref_view (ref_start [sample_job] t n))"
proof -
  have "enabled sample_job" "\<not> paused sample_job" by (simp_all add: sample_job_def)
  then show "active_jobs (ref_view (ref_start [sample_job] t n)) = {sample_job}"
    by (auto simp: active_jobs_def active_def ref_view_def ref_start_def)
  show "tables_wf (ref_view (ref_start [sample_job] t n))" by (rule sample_start_wf)
qed

lemma sample_wanted:
  assumes "run ref_svc (tick minute_parser default_env) (ref_start [sample_job] 60500 0) = (res, w')"
  shows "fire_wanted minute_parser default_env (ref_view (ref_start [sample_job] 60500 0)) (ref_view w') sample_job 60000"
proof -
  have clock: "st_clock (ref_view w') = 60500"
    using ref_instant [OF assms [unfolded ref_svc_def]] by (simp add: ref_start_def ref_view_def)
  have "due_slot minute_parser default_env sample_job 60500 = Some 60000"
    by (simp add: sample_job_def dueFireSlot_def minute_parser_def default_env_def)
  with clock show ?thesis by (auto simp: fire_wanted_def ref_view_def ref_start_def slot_taken_def live_at_def)
qed

theorem tick_fires_due_slots_witness:
  "\<exists>e. st_queue (ref_view (snd (run ref_svc (tick minute_parser default_env) (ref_start [sample_job] 60500 0)))) =
     [fire_entry (sample_job, 60000, e)]"
proof -
  let ?w = "ref_start [sample_job] 60500 0"
  obtain res w' where run: "run ref_svc (tick minute_parser default_env) ?w = (res, w')" by fastforce
  have ttl: "j \<in> active_jobs (ref_view ?w) \<Longrightarrow> lock_ttl_valid (computeJobLockTtlSeconds default_env j)" for j
    using sample_ttl by (simp add: sample_start)
  from tick_fires_due_slots [OF ref_svc_reliable sample_start(2) ttl run] obtain fs where
    fs: "st_queue (ref_view w') = map fire_entry fs" "distinct (map (job_id \<circ> fst) fs)"
      "\<forall>f \<in> set fs. fst f = sample_job"
      "\<forall>slot. fire_wanted minute_parser default_env (ref_view ?w) (ref_view w') sample_job slot \<longrightarrow>
        (\<exists>e. (sample_job, slot, e) \<in> set fs)"
    by (auto simp: sample_start) (simp add: ref_view_def ref_start_def)
  from sample_wanted [OF run] fs(4) obtain e where e: "(sample_job, 60000, e) \<in> set fs" by blast
  have "fs = [(sample_job, 60000, e)]"
    using fs(2,3) e by (cases fs; cases "tl fs") auto
  with fs(1) run show ?thesis by auto
qed

section \<open>A job whose lock lifetime Redis refuses\<close>

lemma oversized_ttl_wp:
  assumes "\<not> lock_ttl_valid (computeJobLockTtlSeconds cfg j)"
  shows "wp (fire_slot_of_job cfg j slot) (\<lambda>res u. (\<exists>e. res = Inl e) \<and> skipped s u) s"
  using assms by (simp add: fire_slot_of_job_def wp_acquireJobLock later_def skipped_def)

text \<open>
  C23: one job whose lock lifetime Redis refuses stops the scan. Acquiring the lock is outside
  the \<open>try\<close> block, so when such a job is due the scan ends there with an error: nothing is
  claimed or enqueued for it, nor for any job after it in the list, however due they are.
\<close>

theorem oversized_ttl_aborts_scan:
  assumes "reliable svc V" "\<not> lock_ttl_valid (computeJobLockTtlSeconds cfg j)"
    "\<And>t. due_slot cp cfg j t \<noteq> None"
    "run svc (for_each (tick_job cp cfg) ys) w = (Inr (), w1)"
    "run svc (for_each (tick_job cp cfg) (ys @ j # zs)) w = (res, w2)"
  shows "(\<exists>e. res = Inl e) \<and> st_queue (V w2) = st_queue (V w1) \<and> st_execs (V w2) = st_execs (V w1)"
proof -
  obtain r u where u: "run svc (tick_job cp cfg j) w1 = (r, u)" by fastforce
  have "wp (tick_job cp cfg j) (\<lambda>res u. (\<exists>e. res = Inl e) \<and> skipped (V w1) u) (V w1)"
    unfolding tick_job_def wp_bind wp_lookups later_def
  proof (intro allI impI)
    fix t
    obtain slot where "due_slot cp cfg j t = Some slot" using assms(3) [of t] by blast
    with oversized_ttl_wp [OF assms(2), of slot "(V w1)\<lparr>st_clock := t\<rparr>"]
    show "case Inr (st_clock ((V w1)\<lparr>st_clock := t\<rparr>)) of Inl e \<Rightarrow> (\<exists>ea. Inl e = Inl ea) \<and> skipped (V w1) ((V w1)\<lparr>st_clock := t\<rparr>)
      | Inr a \<Rightarrow> wp (case due_slot cp cfg j a of None \<Rightarrow> Ret () | Some slot \<Rightarrow> fire_slot_of_job cfg j slot)
          (\<lambda>res u. (\<exists>e. res = Inl e) \<and> skipped (V w1) u) ((V w1)\<lparr>st_clock := t\<rparr>)"
      by (simp add: skipped_def)
  qed
  from wp_run [OF assms(1) this u] obtain e where e: "r = Inl e" "skipped (V w1) (V u)" by blast
  from u e(1) have "run svc (for_each (tick_job cp cfg) (j # zs)) w1 = (Inl e, u)"
    by (intro run_for_each_Cons_err) simp
  with assms(4,5) have "res = Inl e" "w2 = u" by (simp_all only: for_each_append run_bind) simp_all
  with e(2) show ?thesis by (simp add: skipped_def)
qed

definition oversized_job :: job where
  "oversized_job = sample_job\<lparr>job_id := ''id-1'', maxRetries := 50, backoffMs := 3600000\<rparr>"

lemma sample_due:
  "cronExpression j = ''* * * * *'' \<Longrightarrow> timezone j = ''UTC'' \<Longrightarrow>
   due_slot minute_parser default_env j t = Some (60000 * ((t - 1) div 60000))"
  using minute_due [of t] by (simp add: minute_job_def)

lemma oversized_ttl: "\<not> lock_ttl_valid (computeJobLockTtlSeconds default_env oversized_job)"
proof -
  have "2 ^ 63 - 1 < 1000 * computeJobLockTtlSeconds default_env oversized_job"
    by (rule ttl_large) (simp_all add: oversized_job_def sample_job_def default_env_def)
  then show ?thesis by (simp add: lock_ttl_valid_def max_def)
qed

theorem oversized_ttl_aborts_scan_witness:
  "(\<exists>e. fst (run ref_svc (for_each (tick_job minute_parser default_env) [oversized_job, sample_job]) (ref_start [oversized_job, sample_job] 60500 0)) = Inl e) \<and>
   st_queue (ref_view (snd (run ref_svc (for_each (tick_job minute_parser default_env) [oversized_job, sample_job]) (ref_start [oversized_job, sample_job] 60500 0)))) = []"
proof -
  let ?w = "ref_start [oversized_job, sample_job] 60500 0"
  obtain res w2 where run: "run ref_svc (for_each (tick_job minute_parser default_env) ([] @ oversized_job # [sample_job])) ?w = (res, w2)"
    by fastforce
  have due: "due_slot minute_parser default_env oversized_job t \<noteq> None" for t
    by (subst sample_due) (simp_all add: oversized_job_def sample_job_def)
  have "run ref_svc (for_each (tick_job minute_parser default_env) []) ?w = (Inr (), ?w)" by simp
  from oversized_ttl_aborts_scan [OF ref_svc_reliable oversized_ttl due this run] run show ?thesis
    by (simp add: ref_view_def ref_start_def)
qed

section \<open>Errors of a scan stay inside the loop\<close>

lemma run_date_now:
  assumes "services_ok svc V"
  shows "\<exists>t w'. run svc date_now w = (Inr t, w') \<and> t = st_clock (V w')"
proof -
  obtain r w' where r: "svc Now w = (r, w')" by fastforce
  have "r = RTime (st_clock (V w'))"
    using services_okD [OF assms r]
    by (cases r) (auto simp: call_effect_def instant_effect_def fail_effect_def done_effect_def ok_effect_def)
  with r show ?thesis by (simp add: date_now_def call_time_def)
qed

text \<open>
  C24: \<open>run()\<close> contains every failure. Whatever the services do, it returns normally; a follower
  makes no call at all; a scan that completes logs nothing; an error that is not about an
  unreachable database is always logged; and the time of the last unreachable-database log only
  moves when that error is logged, by at least a minute.
\<close>

theorem scheduler_run_contained:
  assumes "services_ok svc V" "run svc (scheduler_run cp cfg election lastLog) w = (res, w')"
    "run svc (tick cp cfg) w = (tick_res, w1)"
  shows "\<exists>last' logged. res = Inr (last', logged) \<and>
    (election = Some False \<longrightarrow> w' = w \<and> last' = lastLog \<and> \<not> logged) \<and>
    (election \<noteq> Some False \<longrightarrow> (case tick_res of
       Inr _ \<Rightarrow> w' = w1 \<and> last' = lastLog \<and> \<not> logged
     | Inl e \<Rightarrow> if isDbUnreachableError e
         then logged = (CONNECTION_ERROR_LOG_MS \<le> st_clock (V w') - lastLog) \<and>
           last' = (if logged then st_clock (V w') else lastLog)
         else w' = w1 \<and> logged \<and> last' = lastLog))"
proof (cases "election = Some False")
  case True
  with assms(2) show ?thesis by (auto simp: scheduler_run_def)
next
  case False
  obtain t u where now: "run svc date_now w1 = (Inr t, u)" "t = st_clock (V u)"
    using run_date_now [OF assms(1), of w1] by blast
  from False assms(2,3) now show ?thesis
    by (cases tick_res) (auto simp: scheduler_run_def run_try_catch run_bind split: if_splits)
qed

definition is_find_many :: "req \<Rightarrow> bool" where
  "is_find_many q \<longleftrightarrow> (case q of JobFindMany c \<Rightarrow> True | _ \<Rightarrow> False)"

theorem scheduler_run_contained_witness:
  "fst (run (faulty_svc is_find_many) (scheduler_run minute_parser default_env None 0) (ref_start [sample_job] 60500 0)) =
     Inr (0, True)"
proof -
  let ?svc = "faulty_svc is_find_many" and ?w = "ref_start [sample_job] 60500 0"
  obtain res w' where run: "run ?svc (scheduler_run minute_parser default_env None 0) ?w = (res, w')" by fastforce
  have "\<exists>w1. run ?svc (tick minute_parser default_env) ?w = (Inl outage, w1)"
    by (simp add: tick_def run_bind prog_defs is_find_many_def ref_eval)
  then obtain w1 where tick: "run ?svc (tick minute_parser default_env) ?w = (Inl outage, w1)" by blast
  have "\<not> isDbUnreachableError outage"
    by (simp add: isDbUnreachableError_def err_text_def outage_def startsWith_def)
  with scheduler_run_contained [OF faulty_svc_ok run tick] run show ?thesis by auto
qed

end
