(* ===== verification/Callback_Service.thy ===== *)
theory Callback_Service
  imports Fault_Free Env_Config
begin

text \<open>
  \<open>src/services/callback.service.ts\<close>: one signed HTTP call. HMAC-SHA256 is a parameter
  \<open>hmac\<close> (key and message to hexadecimal digest); the body is JSON text. \<open>fetch\<close> is a request
  whose response is an HTTP status, or an error: \<open>AbortError\<close> when the timer fired first.
\<close>

datatype failure_kind = HttpError | Timeout | Network

fun kind_text :: "failure_kind \<Rightarrow> string" where
  "kind_text HttpError = ''http_error''"
| "kind_text Timeout = ''timeout''"
| "kind_text Network = ''network''"

datatype callback_result =
  CallbackOk (cb_status: int) (cb_duration: int)
| CallbackFail (cb_kind: failure_kind) (cb_status_opt: "int option") (cb_message: string) (cb_duration: int)

text \<open>\<open>err.name\<close> and \<open>err.message\<close> of a thrown value.\<close>

fun err_name :: "err \<Rightarrow> string" where
  "err_name (PrismaKnownRequestError c m) = ''PrismaClientKnownRequestError''"
| "err_name (JsError n m) = n"
| "err_name ZodError = ''ZodError''"
| "err_name (UnsafeCallbackUrlError m) = ''UnsafeCallbackUrlError''"
| "err_name BadResponse = ''TypeError''"

fun err_message :: "err \<Rightarrow> string option" where
  "err_message (PrismaKnownRequestError c m) = Some m"
| "err_message (JsError n m) = m"
| "err_message ZodError = Some ''''"
| "err_message (UnsafeCallbackUrlError m) = Some m"
| "err_message BadResponse = Some ''''"

definition res_ok :: "int \<Rightarrow> bool" where \<comment> \<open>\<open>Response.ok\<close>: a status in 200 to 299\<close>
  "res_ok st \<longleftrightarrow> 200 \<le> st \<and> st \<le> 299"

definition signed_request :: "(string \<Rightarrow> string \<Rightarrow> string) \<Rightarrow> env \<Rightarrow> string \<Rightarrow> string \<Rightarrow> int \<Rightarrow> fetch_request" where
  "signed_request hmac cfg url bodyString timeoutMs =
     \<lparr>fr_url = url, fr_signature = hmac (CRONHIVE_SIGNING_SECRET cfg) bodyString,
      fr_body = bodyString, fr_timeoutMs = timeoutMs\<rparr>"

definition invokeCallback ::
  "(string \<Rightarrow> string \<Rightarrow> string) \<Rightarrow> env \<Rightarrow> string \<Rightarrow> string \<Rightarrow> int \<Rightarrow> callback_result prog" where
  "invokeCallback hmac cfg url bodyString timeoutMs =
     bind date_now (\<lambda>started.
     try_catch
       (bind (call_http (Fetch (signed_request hmac cfg url bodyString timeoutMs))) (\<lambda>st.
        bind date_now (\<lambda>finished.
        let durationMs = finished - started in
        if res_ok st then Ret (CallbackOk st durationMs)
        else Ret (CallbackFail HttpError (Some st) (''HTTP '' @ int_to_string st) durationMs))))
       (\<lambda>e. bind date_now (\<lambda>finished.
        let durationMs = finished - started in
        if err_name e = ''AbortError''
        then Ret (CallbackFail Timeout None ''Callback timeout'' durationMs)
        else Ret (CallbackFail Network None (option_get_or (err_message e) ''Network error'') durationMs))))"

text \<open>What a fault-free call can return: the classification of the HTTP outcome.\<close>

definition classify :: "int outcome \<Rightarrow> int \<Rightarrow> callback_result" where
  "classify out d = (case out of
     Inr st \<Rightarrow> if res_ok st then CallbackOk st d
              else CallbackFail HttpError (Some st) (''HTTP '' @ int_to_string st) d
   | Inl e \<Rightarrow> if err_name e = ''AbortError'' then CallbackFail Timeout None ''Callback timeout'' d
             else CallbackFail Network None (option_get_or (err_message e) ''Network error'') d)"

lemma wp_invokeCallback:
  "wp (invokeCallback hmac cfg url body timeout) Q s = later s (\<lambda>u. later u (\<lambda>v.
     let f = signed_request hmac cfg url body timeout in
     (\<forall>n. later (v\<lparr>st_fetched := st_fetched v @ [(f, Some n)]\<rparr>)
        (\<lambda>x. Q (Inr (classify (Inr n) (st_clock x - st_clock u))) x)) \<and>
     (let s' = v\<lparr>st_fetched := st_fetched v @ [(f, None)]\<rparr> in
      \<forall>e. error_justified (Fetch f) e v s' \<longrightarrow>
        later s' (\<lambda>x. Q (Inr (classify (Inl e) (st_clock x - st_clock u))) x))))"
  by (simp add: invokeCallback_def classify_def Let_def)

end
