(* ===== verification/Job_Cache.thy ===== *)
theory Job_Cache
  imports Fault_Free
begin

text \<open>
  \<open>src/lib/job-cache.ts\<close> (the Redis cache of job rows) and \<open>publishEvent\<close> of \<open>src/lib/events.ts\<close>.
  A cached value is the JSON text of a job row, represented by the row itself (\<open>JobJson\<close>); any
  other text does not parse as a job and reads as no cached job.
\<close>

definition jobConfigKey :: "string \<Rightarrow> string" where
  "jobConfigKey jobId = ''job:config:'' @ jobId"

definition cacheJobConfig :: "job \<Rightarrow> unit prog" where
  "cacheJobConfig j = call_unit (RedisSet (jobConfigKey (job_id j)) (JobJson j) (EX_s 3600))"

definition invalidateJobConfig :: "string \<Rightarrow> unit prog" where
  "invalidateJobConfig jobId = call_unit (RedisDel (jobConfigKey jobId))"

definition parse_cached :: "rvalue option \<Rightarrow> job option" where
  "parse_cached raw = (case raw of Some (JobJson j) \<Rightarrow> Some j | _ \<Rightarrow> None)"

definition getCachedJob :: "string \<Rightarrow> job option prog" where
  "getCachedJob jobId =
     bind (call_val (RedisGet (jobConfigKey jobId))) (\<lambda>raw. Ret (parse_cached raw))"

definition EVENTS_CHANNEL :: string where
  "EVENTS_CHANNEL = ''cronhive:events''"

definition publishEvent :: "event \<Rightarrow> unit prog" where
  "publishEvent msg = call_unit (RedisPublish EVENTS_CHANNEL msg)"

section \<open>Rules for fault-free runs\<close>

definition cached_job :: "store \<Rightarrow> string \<Rightarrow> job option" where
  "cached_job s i = parse_cached (live s (jobConfigKey i))"

lemma jobConfigKey_inject [simp]: "jobConfigKey i = jobConfigKey j \<longleftrightarrow> i = j"
  by (simp add: jobConfigKey_def)

lemma wp_cache [simp]:
  "wp (cacheJobConfig j) Q s = later s (\<lambda>u.
     Q (Inr ()) (u\<lparr>st_kv := (st_kv u)(jobConfigKey (job_id j) \<mapsto> (JobJson j, st_clock u + 3600000))\<rparr>))"
  "wp (invalidateJobConfig i) Q s =
     later s (\<lambda>u. Q (Inr ()) (u\<lparr>st_kv := (st_kv u)(jobConfigKey i := None)\<rparr>))"
  by (simp_all add: cacheJobConfig_def invalidateJobConfig_def)

lemma wp_getCachedJob [simp]: "wp (getCachedJob i) Q s = later s (\<lambda>u. Q (Inr (cached_job u i)) u)"
  by (simp add: getCachedJob_def cached_job_def)

lemma wp_publishEvent [simp]:
  "wp (publishEvent ev) Q s = later s (\<lambda>u. Q (Inr ()) (u\<lparr>st_events := st_events u @ [ev]\<rparr>))"
  by (simp add: publishEvent_def)

lemma cached_job_cached:
  "cached_job (s\<lparr>st_kv := (st_kv s)(jobConfigKey i \<mapsto> (JobJson j, st_clock s + 3600000))\<rparr>) i' =
     (if i' = i then Some j else cached_job s i')"
  by (simp add: cached_job_def parse_cached_def)

lemma cached_job_frame [simp]:
  "cached_job (s\<lparr>st_execs := x1\<rparr>) i = cached_job s i"
  "cached_job (s\<lparr>st_jobs := x2\<rparr>) i = cached_job s i"
  "cached_job (s\<lparr>st_events := x3\<rparr>) i = cached_job s i"
  "cached_job (s\<lparr>st_metrics := x4\<rparr>) i = cached_job s i"
  "cached_job (s\<lparr>st_dead := x5\<rparr>) i = cached_job s i"
  "cached_job (s\<lparr>st_fetched := x6\<rparr>) i = cached_job s i"
  by (simp_all add: cached_job_def)

end
