(* ===== verification/Json_Text.thy ===== *)
theory Json_Text
  imports CronHive_Prelude
begin

text \<open>
  The text of JSON values that the worker signs and sends: \<open>JSON.stringify\<close> of strings and
  numbers and \<open>Date.prototype.toISOString\<close>. String escaping follows the language standard:
  quotes, backslashes and control characters are escaped, everything else is kept.
\<close>

section \<open>\<open>JSON.stringify\<close>\<close>

definition quote :: char where "quote = CHR 0x22"
definition backslash :: char where "backslash = CHR 0x5C"

definition hex_digit :: "nat \<Rightarrow> char" where
  "hex_digit d = (if d < 10 then digit_char d else char_of (87 + d))"

definition json_char :: "char \<Rightarrow> string" where
  "json_char c =
     (if c = quote \<or> c = backslash then [backslash, c]
      else if c = CHR 0x08 then [backslash, CHR ''b'']
      else if c = CHR 0x09 then [backslash, CHR ''t'']
      else if c = CHR 0x0A then [backslash, CHR ''n'']
      else if c = CHR 0x0C then [backslash, CHR ''f'']
      else if c = CHR 0x0D then [backslash, CHR ''r'']
      else if (of_char c :: nat) < 32
      then [backslash, CHR ''u'', CHR ''0'', CHR ''0'', hex_digit (of_char c div 16), hex_digit (of_char c mod 16)]
      else [c])"

definition json_string :: "string \<Rightarrow> string" where
  "json_string s = quote # concat (map json_char s) @ [quote]"

text \<open>An object with fields in insertion order; keys are identifiers, values are JSON text.\<close>

fun json_fields :: "(string \<times> string) list \<Rightarrow> string" where
  "json_fields [] = []"
| "json_fields [(k, v)] = json_string k @ CHR '':'' # v"
| "json_fields ((k, v) # kvs) = json_string k @ CHR '':'' # v @ CHR '','' # json_fields kvs"

definition json_object :: "(string \<times> string) list \<Rightarrow> string" where
  "json_object kvs = CHR ''{'' # json_fields kvs @ ''}''"

section \<open>\<open>toISOString\<close>\<close>

definition padded :: "nat \<Rightarrow> int \<Rightarrow> string" where
  "padded w n = (let t = nat_to_string (nat n) in replicate (w - length t) CHR ''0'' @ t)"

text \<open>Year, month and day of a day number of the proleptic Gregorian calendar (day 0 is 1970-01-01).\<close>

definition civil_from_days :: "int \<Rightarrow> int \<times> int \<times> int" where
  "civil_from_days day =
     (let z = day + 719468; era = z div 146097; doe = z mod 146097;
          yoe = (doe - doe div 1460 + doe div 36524 - doe div 146096) div 365;
          doy = doe - (365 * yoe + yoe div 4 - yoe div 100);
          mp = (5 * doy + 2) div 153;
          d = doy - (153 * mp + 2) div 5 + 1;
          m = (if mp < 10 then mp + 3 else mp - 9)
      in (yoe + era * 400 + (if m \<le> 2 then 1 else 0), m, d))"

definition iso_year :: "int \<Rightarrow> string" where
  "iso_year y = (if 0 \<le> y \<and> y \<le> 9999 then padded 4 y
     else if y < 0 then CHR ''-'' # padded 6 (- y) else CHR ''+'' # padded 6 y)"

definition toISOString :: "time \<Rightarrow> string" where
  "toISOString t =
     (let ms = t mod 86400000
      in case civil_from_days (t div 86400000) of (y, m, d) \<Rightarrow>
        iso_year y @ ''-'' @ padded 2 m @ ''-'' @ padded 2 d @ ''T'' @
        padded 2 (ms div 3600000) @ '':'' @ padded 2 (ms div 60000 mod 60) @ '':'' @
        padded 2 (ms div 1000 mod 60) @ ''.'' @ padded 3 (ms mod 1000) @ ''Z'')"

section \<open>Strings read back\<close>

text \<open>
  A reader of JSON strings, after the opening quote: the string and the text that follows its
  closing quote. Escaped text is unambiguous because the reader inverts the escaping.
\<close>

definition hex_val :: "char \<Rightarrow> nat" where
  "hex_val c = (if is_digit c then digit_val c else of_char c - 87)"

fun read_string :: "string \<Rightarrow> (string \<times> string) option" where
  "read_string [] = None"
| "read_string (c # cs) =
     (if c = quote then Some ([], cs)
      else if c = backslash then
        (case cs of
           [] \<Rightarrow> None
         | e # rest \<Rightarrow>
             if e = CHR ''u'' then
               (case rest of
                  _ # _ # h # l # rest' \<Rightarrow>
                    map_option (\<lambda>(s, r). (char_of (16 * hex_val h + hex_val l) # s, r)) (read_string rest')
                | _ \<Rightarrow> None)
             else map_option (\<lambda>(s, r).
               ((if e = CHR ''b'' then CHR 0x08 else if e = CHR ''t'' then CHR 0x09
                 else if e = CHR ''n'' then CHR 0x0A else if e = CHR ''f'' then CHR 0x0C
                 else if e = CHR ''r'' then CHR 0x0D else e) # s, r)) (read_string rest))
      else map_option (\<lambda>(s, r). (c # s, r)) (read_string cs))"

lemma hex_val_hex_digit: "d < 16 \<Longrightarrow> hex_val (hex_digit d) = d"
  by (simp add: hex_val_def hex_digit_def is_digit_def digit_val_def digit_char_def)

lemma read_string_char:
  "read_string (json_char c @ t) = map_option (\<lambda>(s, r). (c # s, r)) (read_string t)"
proof -
  have c: "char_of (16 * hex_val (hex_digit (of_char c div 16)) + hex_val (hex_digit (of_char c mod 16))) = c"
    if "(of_char c :: nat) < 32"
  proof -
    have "(of_char c :: nat) div 16 < 16" using that by simp
    then have "16 * hex_val (hex_digit (of_char c div 16)) + hex_val (hex_digit (of_char c mod 16)) =
        (of_char c :: nat)"
      by (simp add: hex_val_hex_digit)
    then show ?thesis by (metis char_of_char)
  qed
  show ?thesis
    by (simp add: json_char_def quote_def backslash_def c)
qed

lemma read_string_escaped: "read_string (concat (map json_char s) @ quote # rest) = Some (s, rest)"
  by (induction s) (simp_all add: read_string_char)

lemma json_string_append_eq [simp]: "json_string s @ t = json_string s' @ t' \<longleftrightarrow> s = s' \<and> t = t'"
proof
  assume "json_string s @ t = json_string s' @ t'"
  then have "concat (map json_char s) @ quote # t = concat (map json_char s') @ quote # t'"
    by (simp add: json_string_def)
  then have "read_string (concat (map json_char s) @ quote # t) =
      read_string (concat (map json_char s') @ quote # t')" by (rule arg_cong)
  then show "s = s' \<and> t = t'" by (simp only: read_string_escaped option.inject prod.inject)
qed simp

lemma int_comma_eq [simp]:
  "int_to_string a @ CHR '','' # t = int_to_string b @ CHR '','' # t' \<longleftrightarrow> a = b \<and> t = t'"
  using append_first_sep [OF int_to_string_no_comma int_to_string_no_comma] by simp

end
