(* ===== verification/Worker.thy ===== *)
theory Worker
  imports Callback_Service Job_Cache Json_Text Reference_Services
begin

text \<open>
  \<open>src/worker.ts\<close>: one attempt of one queued execution, dead-lettering and the circuit breaker.
  BullMQ delivers an entry with the number of attempts already made; an attempt that throws is
  delivered again until the configured number of attempts is used up. Log output is not
  modelled.
\<close>

section \<open>Circuit breaker\<close>

definition circuit_alert :: "env \<Rightarrow> string \<Rightarrow> string \<Rightarrow> event" where
  "circuit_alert cfg jobId exId =
     JobAlert \<lparr>ap_jobId = jobId, ap_executionId = exId, ap_kind = AlertCircuitOpen,
       ap_message = ''Job disabled after '' @ int_to_string (CIRCUIT_BREAKER_CONSECUTIVE_DEAD cfg)
         @ '' consecutive DEAD executions''\<rparr>"

definition applyCircuitBreaker :: "env \<Rightarrow> string \<Rightarrow> string \<Rightarrow> unit prog" where
  "applyCircuitBreaker cfg jobId exId =
     bind (call_job (JobUpdate jobId (no_job_patch\<lparr>jp_consecutiveDeadCount := Some (Increment 1)\<rparr>))) (\<lambda>job.
     if consecutiveDeadCount job \<ge> CIRCUIT_BREAKER_CONSECUTIVE_DEAD cfg
     then bind (call_unit (JobUpdate jobId (no_job_patch\<lparr>jp_enabled := Some False\<rparr>))) (\<lambda>_.
       bind (metric_inc CircuitOpenTotal) (\<lambda>_.
       publishEvent (circuit_alert cfg jobId exId)))
     else Ret ())"

definition resetDeadStreak :: "string \<Rightarrow> unit prog" where
  "resetDeadStreak jobId =
     call_unit (JobUpdate jobId (no_job_patch\<lparr>jp_consecutiveDeadCount := Some (SetTo 0)\<rparr>))"

section \<open>Dead-lettering\<close>

text \<open>The columns a finished attempt writes.\<close>

definition finished_patch ::
  "ExecutionStatus \<Rightarrow> time \<Rightarrow> int option \<Rightarrow> int \<Rightarrow> string option \<Rightarrow> exec_patch" where
  "finished_patch st now code dur msg =
     no_exec_patch\<lparr>ep_status := Some st, ep_finishedAt := Some (Some now),
       ep_responseCode := Some code, ep_durationMs := Some (Some dur), ep_errorMessage := Some msg\<rparr>"

definition finished_event ::
  "string \<Rightarrow> string \<Rightarrow> string \<Rightarrow> int option \<Rightarrow> int \<Rightarrow> int \<Rightarrow> finished_payload" where
  "finished_event jobId exId st code dur att =
     \<lparr>fp_jobId = jobId, fp_executionId = exId, fp_status = st, fp_responseCode = code,
      fp_durationMs = Some dur, fp_attemptNumber = att\<rparr>"

definition dead_alert :: "string \<Rightarrow> string \<Rightarrow> int \<Rightarrow> string \<Rightarrow> event" where
  "dead_alert jobId exId att msg =
     JobAlert \<lparr>ap_jobId = jobId, ap_executionId = exId, ap_kind = AlertDead,
       ap_message = ''Execution DEAD after '' @ int_to_string att @ '' attempts: '' @ msg\<rparr>"

definition dead_letter_entry :: "string \<Rightarrow> string \<Rightarrow> string \<Rightarrow> dead_letter_data" where
  "dead_letter_entry exId jobId msg =
     \<lparr>dl_executionId = exId, dl_jobId = jobId, dl_reason = ''max_retries_exceeded'', dl_lastError = Some msg\<rparr>"

definition deadLetter ::
  "env \<Rightarrow> string \<Rightarrow> string \<Rightarrow> int \<Rightarrow> string \<Rightarrow> int option \<Rightarrow> int \<Rightarrow> unit prog" where
  "deadLetter cfg exId jobId att errMsg code dur =
     bind date_now (\<lambda>now.
     bind (call_unit (ExecUpdate exId (finished_patch DEAD now code dur (Some errMsg)))) (\<lambda>_.
     bind (call_unit (DeadQueueAdd (dead_letter_entry exId jobId errMsg))) (\<lambda>_.
     bind (metric_inc (ExecutionsTotal DEAD)) (\<lambda>_.
     bind (metric_inc (ExecutionDuration DEAD dur)) (\<lambda>_.
     bind (applyCircuitBreaker cfg jobId exId) (\<lambda>_.
     bind (publishEvent (JobFailed (finished_event jobId exId ''DEAD'' code dur att))) (\<lambda>_.
     publishEvent (dead_alert jobId exId att errMsg))))))))"

section \<open>One attempt\<close>

definition callback_body :: "job \<Rightarrow> string \<Rightarrow> int \<Rightarrow> time \<Rightarrow> string" where
  "callback_body j exId att triggered =
     json_object [(''jobId'', json_string (job_id j)), (''jobName'', json_string (job_name j)),
       (''executionId'', json_string exId), (''attemptNumber'', int_to_string att),
       (''triggeredAt'', json_string (toISOString triggered))]"

definition on_success :: "string \<Rightarrow> string \<Rightarrow> int \<Rightarrow> int \<Rightarrow> int \<Rightarrow> unit prog" where
  "on_success exId jobId att code dur =
     bind date_now (\<lambda>now.
     bind (call_unit (ExecUpdate exId (finished_patch SUCCESS now (Some code) dur None))) (\<lambda>_.
     bind (resetDeadStreak jobId) (\<lambda>_.
     bind (metric_inc (ExecutionsTotal SUCCESS)) (\<lambda>_.
     bind (metric_inc (ExecutionDuration SUCCESS dur)) (\<lambda>_.
     bind (metric_inc (CallbackAttemptsTotal ''ok'')) (\<lambda>_.
     publishEvent (JobSuccess (finished_event jobId exId ''SUCCESS'' (Some code) dur att))))))))"

definition on_retryable :: "string \<Rightarrow> string \<Rightarrow> int \<Rightarrow> string \<Rightarrow> int option \<Rightarrow> int \<Rightarrow> unit prog" where
  "on_retryable exId jobId att errMsg code dur =
     bind date_now (\<lambda>now.
     bind (call_unit (ExecUpdate exId (finished_patch FAILED now code dur (Some errMsg)))) (\<lambda>_.
     bind (publishEvent (JobFailed (finished_event jobId exId ''FAILED'' code dur att))) (\<lambda>_.
     Throw (JsError ''Error'' (Some errMsg)))))"

text \<open>\<open>(await getCachedJob(redis, jobId)) ?? (await prisma.job.findUnique(\<dots>))\<close>\<close>

definition load_job :: "string \<Rightarrow> job option prog" where
  "load_job jobId =
     bind (getCachedJob jobId) (\<lambda>c. case c of
       Some j \<Rightarrow> Ret (Some j) | None \<Rightarrow> call_job_opt (JobFindUnique jobId))"

text \<open>From the execution lookup on, for an enabled job.\<close>

definition run_attempt :: "(string \<Rightarrow> string \<Rightarrow> string) \<Rightarrow> env \<Rightarrow> bull_job \<Rightarrow> job \<Rightarrow> unit prog" where
  "run_attempt hmac cfg bj j =
     (let exId = ej_executionId (bj_data bj); jobId = ej_jobId (bj_data bj);
          att = bj_attemptsMade bj + 1; isFinal = att \<ge> option_get_or (bj_attempts bj) 1 in
      bind (call_exec_opt (ExecFindUnique exId)) (\<lambda>execution.
      case execution of
        None \<Rightarrow> Ret ()
      | Some ex \<Rightarrow>
         bind date_now (\<lambda>now.
         bind (call_unit (ExecUpdate exId (no_exec_patch\<lparr>ep_status := Some RUNNING,
           ep_startedAt := Some (Some (option_get_or (startedAt ex) now)),
           ep_attemptNumber := Some att, ep_finishedAt := Some None\<rparr>))) (\<lambda>_.
         bind (publishEvent (JobStarted \<lparr>sp_jobId = jobId, sp_executionId = exId,
           sp_attemptNumber = att, sp_triggerSource = Some (triggerSource ex)\<rparr>)) (\<lambda>_.
         bind (invokeCallback hmac cfg (callbackUrl j) (callback_body j exId att (triggeredAt ex))
           (callbackTimeoutMs j)) (\<lambda>result.
         case result of
           CallbackOk code dur \<Rightarrow> on_success exId jobId att code dur
         | CallbackFail kind code msg dur \<Rightarrow>
             (let errMsg = kind_text kind @ '': '' @ msg in
              bind (metric_inc (CallbackAttemptsTotal (kind_text kind))) (\<lambda>_.
              if isFinal then deadLetter cfg exId jobId att errMsg code dur
              else on_retryable exId jobId att errMsg code dur))))))))"

definition processExecutionJob :: "(string \<Rightarrow> string \<Rightarrow> string) \<Rightarrow> env \<Rightarrow> bull_job \<Rightarrow> unit prog" where
  "processExecutionJob hmac cfg bj =
     bind (load_job (ej_jobId (bj_data bj))) (\<lambda>job.
     case job of
       None \<Rightarrow> Ret ()
     | Some j \<Rightarrow> if \<not> enabled j then Ret () else run_attempt hmac cfg bj j)"

section \<open>What one attempt does\<close>

text \<open>The job row that a read at time \<open>t\<close> gives: the cached copy while it is live, else the table's.\<close>

definition read_job :: "store \<Rightarrow> time \<Rightarrow> string \<Rightarrow> job option" where
  "read_job s t i = (case parse_cached (live_at (st_kv s) t (jobConfigKey i)) of
     Some c \<Rightarrow> Some c | None \<Rightarrow> st_jobs s i)"

lemma load_job_run:
  assumes "reliable svc V" "run svc (load_job i) w = (res, w')"
  shows "\<exists>t. st_clock (V w) \<le> t \<and> t \<le> st_clock (V w') \<and> res = Inr (read_job (V w) t i) \<and>
    V w' = (V w)\<lparr>st_clock := st_clock (V w')\<rparr>"
  by (rule wp_run [OF assms(1) _ assms(2)])
    (auto simp: load_job_def later_def cached_job_def read_job_def split: option.split)

definition callback_ok :: "int option \<Rightarrow> bool" where
  "callback_ok x \<longleftrightarrow> (\<exists>n. x = Some n \<and> res_ok n)"

definition is_final :: "bull_job \<Rightarrow> bool" where
  "is_final bj \<longleftrightarrow> bj_attemptsMade bj + 1 \<ge> option_get_or (bj_attempts bj) 1"

definition attempt_status :: "bull_job \<Rightarrow> int option \<Rightarrow> ExecutionStatus" where
  "attempt_status bj x = (if callback_ok x then SUCCESS else if is_final bj then DEAD else FAILED)"

definition attempt_request :: "(string \<Rightarrow> string \<Rightarrow> string) \<Rightarrow> env \<Rightarrow> bull_job \<Rightarrow> job \<Rightarrow> execution \<Rightarrow> fetch_request" where
  "attempt_request hmac cfg bj j e =
     signed_request hmac cfg (callbackUrl j)
       (callback_body j (ej_executionId (bj_data bj)) (bj_attemptsMade bj + 1) (triggeredAt e))
       (callbackTimeoutMs j)"

text \<open>How an attempt changes the row of its job: the streak, and the circuit breaker.\<close>

definition attempt_job :: "env \<Rightarrow> ExecutionStatus \<Rightarrow> job \<Rightarrow> job" where
  "attempt_job cfg st row = (case st of
     SUCCESS \<Rightarrow> row\<lparr>consecutiveDeadCount := 0\<rparr>
   | DEAD \<Rightarrow> row\<lparr>
       enabled := (enabled row \<and> consecutiveDeadCount row + 1 < CIRCUIT_BREAKER_CONSECUTIVE_DEAD cfg),
       consecutiveDeadCount := consecutiveDeadCount row + 1\<rparr>
   | _ \<Rightarrow> row)"

lemmas patch_defs = apply_exec_patch_def no_exec_patch_def finished_patch_def
  apply_job_patch_def no_job_patch_def patched_job_def

text \<open>One row of the job table is replaced, up to its time of update.\<close>

definition job_becomes :: "store \<Rightarrow> string \<Rightarrow> job \<Rightarrow> store \<Rightarrow> bool" where
  "job_becomes s i row s' \<longleftrightarrow> (\<forall>k. k \<noteq> i \<longrightarrow> st_jobs s' k = st_jobs s k) \<and>
     (\<exists>r. st_jobs s' i = Some r \<and> r\<lparr>updatedAt := 0\<rparr> = row\<lparr>updatedAt := 0\<rparr>)"

text \<open>The three endings of an attempt, as effects on the store.\<close>

definition ends_with :: "env \<Rightarrow> bull_job \<Rightarrow> execution \<Rightarrow> job \<Rightarrow> ExecutionStatus \<Rightarrow> int option \<Rightarrow> string option \<Rightarrow>
    store \<Rightarrow> store \<Rightarrow> bool" where
  "ends_with cfg bj e row st code msg s s' \<longleftrightarrow>
     (let exId = ej_executionId (bj_data bj); jobId = ej_jobId (bj_data bj);
          e' = the (st_execs s' exId) in
      st_execs s' = (st_execs s)(exId \<mapsto> e') \<and>
      e' = e\<lparr>status := st, finishedAt := finishedAt e', responseCode := code,
        durationMs := durationMs e', errorMessage := msg\<rparr> \<and>
      finishedAt e' \<noteq> None \<and> st_clock s \<le> the (finishedAt e') \<and> the (finishedAt e') \<le> st_clock s' \<and>
      job_becomes s jobId (attempt_job cfg st row) s' \<and>
      st_dead s' = st_dead s @ (if st = DEAD then [dead_letter_entry exId jobId (the msg)] else []) \<and>
      st_fetched s' = st_fetched s \<and> st_queue s' = st_queue s \<and> st_kv s' = st_kv s \<and>
      st_ids s' = st_ids s)"

lemma on_success_wp:
  assumes "st_execs s (ej_executionId (bj_data bj)) = Some e" "st_jobs s (ej_jobId (bj_data bj)) = Some row"
    "\<And>s'. ends_with cfg bj e row SUCCESS (Some code) None s s' \<Longrightarrow> Q (Inr ()) s'"
  shows "wp (on_success (ej_executionId (bj_data bj)) (ej_jobId (bj_data bj)) att code dur) Q s"
  using assms(1,2)
  by (auto simp: on_success_def resetDeadStreak_def later_def patch_defs
      intro!: assms(3) simp: ends_with_def attempt_job_def job_becomes_def)

lemma on_retryable_wp:
  assumes "st_execs s (ej_executionId (bj_data bj)) = Some e" "st_jobs s (ej_jobId (bj_data bj)) = Some row"
    "\<And>s'. ends_with cfg bj e row FAILED code (Some msg) s s' \<Longrightarrow> Q (Inl (JsError ''Error'' (Some msg))) s'"
  shows "wp (on_retryable (ej_executionId (bj_data bj)) (ej_jobId (bj_data bj)) att msg code dur) Q s"
  using assms(1,2)
  by (auto simp: on_retryable_def later_def patch_defs
      intro!: assms(3) simp: ends_with_def attempt_job_def job_becomes_def)

definition same_but_job :: "store \<Rightarrow> string \<Rightarrow> job \<Rightarrow> store \<Rightarrow> bool" where
  "same_but_job s i row s' \<longleftrightarrow> st_clock s \<le> st_clock s' \<and>
     job_becomes s i row s' \<and>
     st_execs s' = st_execs s \<and> st_ids s' = st_ids s \<and> st_kv s' = st_kv s \<and> st_queue s' = st_queue s \<and>
     st_dead s' = st_dead s \<and> st_fetched s' = st_fetched s"

lemma applyCircuitBreaker_wp:
  assumes "st_jobs s i = Some row" "\<And>s'. same_but_job s i (attempt_job cfg DEAD row) s' \<Longrightarrow> Q (Inr ()) s'"
  shows "wp (applyCircuitBreaker cfg i exId) Q s"
  using assms(1)
  by (auto simp: applyCircuitBreaker_def later_def patch_defs attempt_job_def same_but_job_def
      job_becomes_def intro!: assms(2))

lemma deadLetter_wp:
  assumes "st_execs s (ej_executionId (bj_data bj)) = Some e" "st_jobs s (ej_jobId (bj_data bj)) = Some row"
    "\<And>s'. ends_with cfg bj e row DEAD code (Some msg) s s' \<Longrightarrow> Q (Inr ()) s'"
  shows "wp (deadLetter cfg (ej_executionId (bj_data bj)) (ej_jobId (bj_data bj)) att msg code dur) Q s"
  using assms(1,2)
  by (auto simp: deadLetter_def later_def patch_defs
      intro!: applyCircuitBreaker_wp assms(3) simp: ends_with_def same_but_job_def job_becomes_def)

definition attempt_effect ::
  "(string \<Rightarrow> string \<Rightarrow> string) \<Rightarrow> env \<Rightarrow> bull_job \<Rightarrow> job \<Rightarrow> execution \<Rightarrow> job \<Rightarrow> store \<Rightarrow> unit outcome \<Rightarrow> store \<Rightarrow> bool" where
  "attempt_effect hmac cfg bj j e row s res s' \<longleftrightarrow>
     (\<exists>x st. let exId = ej_executionId (bj_data bj); e' = the (st_execs s' exId) in
      st = attempt_status bj x \<and>
      st_fetched s' = st_fetched s @ [(attempt_request hmac cfg bj j e, x)] \<and>
      st_execs s' = (st_execs s)(exId \<mapsto> e') \<and> exec_id e' = exec_id e \<and> exec_jobId e' = exec_jobId e \<and>
      triggeredAt e' = triggeredAt e \<and> scheduledFor e' = scheduledFor e \<and>
      status e' = st \<and> attemptNumber e' = bj_attemptsMade bj + 1 \<and> responseCode e' = x \<and>
      (errorMessage e' = None \<longleftrightarrow> st = SUCCESS) \<and> finishedAt e' \<noteq> None \<and> startedAt e' \<noteq> None \<and>
      job_becomes s (ej_jobId (bj_data bj)) (attempt_job cfg st row) s' \<and>
      st_dead s' = st_dead s @ (if st = DEAD
        then [dead_letter_entry exId (ej_jobId (bj_data bj)) (the (errorMessage e'))] else []) \<and>
      res = (if st = FAILED then Inl (JsError ''Error'' (errorMessage e')) else Inr ()) \<and>
      st_queue s' = st_queue s \<and> st_kv s' = st_kv s \<and> st_ids s' = st_ids s)"

text \<open>The store once the callback was sent: the row is \<open>RUNNING\<close> and the exchange is recorded.\<close>

definition sent :: "fetch_request \<Rightarrow> bull_job \<Rightarrow> execution \<Rightarrow> int option \<Rightarrow> store \<Rightarrow> store \<Rightarrow> bool" where
  "sent f bj e x s s1 \<longleftrightarrow>
     (\<exists>t. st_execs s1 = (st_execs s)(ej_executionId (bj_data bj) \<mapsto>
        e\<lparr>status := RUNNING, startedAt := Some t, attemptNumber := bj_attemptsMade bj + 1, finishedAt := None\<rparr>)) \<and>
     st_fetched s1 = st_fetched s @ [(f, x)] \<and> st_jobs s1 = st_jobs s \<and> st_dead s1 = st_dead s \<and>
     st_queue s1 = st_queue s \<and> st_kv s1 = st_kv s \<and> st_ids s1 = st_ids s"

lemma sent_ends:
  assumes "sent (attempt_request hmac cfg bj j e) bj e x s s1"
    and "\<And>e1. st_execs s1 (ej_executionId (bj_data bj)) = Some e1 \<Longrightarrow> ends_with cfg bj e1 row st x msg s1 s'"
    and st: "st = attempt_status bj x" and msg: "msg = None \<longleftrightarrow> st = SUCCESS"
    and res: "res = (if st = FAILED then Inl (JsError ''Error'' msg) else Inr ())"
  shows "attempt_effect hmac cfg bj j e row s res s'"
proof -
  obtain t e1 where e1: "e1 = e\<lparr>status := RUNNING, startedAt := Some t,
        attemptNumber := bj_attemptsMade bj + 1, finishedAt := None\<rparr>"
    and s1: "st_execs s1 = (st_execs s)(ej_executionId (bj_data bj) \<mapsto> e1)"
      "st_fetched s1 = st_fetched s @ [(attempt_request hmac cfg bj j e, x)]" "st_jobs s1 = st_jobs s"
      "st_dead s1 = st_dead s" "st_queue s1 = st_queue s" "st_kv s1 = st_kv s" "st_ids s1 = st_ids s"
    using assms(1) unfolding sent_def by blast
  have E: "ends_with cfg bj e1 row st x msg s1 s'" using assms(2) s1(1) by simp
  then obtain e' where e': "st_execs s' (ej_executionId (bj_data bj)) = Some e'"
    unfolding ends_with_def Let_def by (metis fun_upd_same)
  have sel: "e' = e1\<lparr>status := st, finishedAt := finishedAt e', responseCode := x,
      durationMs := durationMs e', errorMessage := msg\<rparr>" "finishedAt e' \<noteq> None"
    "st_execs s' = (st_execs s1)(ej_executionId (bj_data bj) \<mapsto> e')"
    and rest: "job_becomes s1 (ej_jobId (bj_data bj)) (attempt_job cfg st row) s'"
    "st_dead s' = st_dead s1 @ (if st = DEAD then
       [dead_letter_entry (ej_executionId (bj_data bj)) (ej_jobId (bj_data bj)) (the msg)] else [])"
    "st_fetched s' = st_fetched s1" "st_queue s' = st_queue s1" "st_kv s' = st_kv s1" "st_ids s' = st_ids s1"
    using E e' by (simp_all add: ends_with_def Let_def)
  have fields: "status e' = st" "responseCode e' = x" "errorMessage e' = msg" "exec_id e' = exec_id e"
    "exec_jobId e' = exec_jobId e" "triggeredAt e' = triggeredAt e" "scheduledFor e' = scheduledFor e"
    "attemptNumber e' = bj_attemptsMade bj + 1" "startedAt e' \<noteq> None"
    by (subst sel(1), simp add: e1)+
  show ?thesis
    unfolding attempt_effect_def Let_def e' option.sel
    using sel(2,3) fields rest s1 st msg res
    by (intro exI [of _ x] exI [of _ st]) (simp add: job_becomes_def)
qed

lemma sent_select:
  assumes "sent f bj e x s s1" "st_jobs s i = Some row"
  shows "\<exists>e1. st_execs s1 (ej_executionId (bj_data bj)) = Some e1" "st_jobs s1 i = Some row"
  using assms by (auto simp: sent_def)

lemma finish_success:
  assumes "sent (attempt_request hmac cfg bj j e) bj e (Some n) s s1"
    "st_jobs s (ej_jobId (bj_data bj)) = Some row" "res_ok n"
  shows "wp (on_success (ej_executionId (bj_data bj)) (ej_jobId (bj_data bj)) att n dur)
    (attempt_effect hmac cfg bj j e row s) s1"
proof -
  obtain e1 where e1: "st_execs s1 (ej_executionId (bj_data bj)) = Some e1"
    using sent_select(1) [OF assms(1,2)] by blast
  show ?thesis
    by (rule on_success_wp [OF e1 sent_select(2) [OF assms(1,2)]], rule sent_ends [OF assms(1)])
      (use e1 assms(3) in \<open>auto simp: attempt_status_def callback_ok_def\<close>)
qed

lemma finish_dead:
  assumes "sent (attempt_request hmac cfg bj j e) bj e x s s1"
    "st_jobs s (ej_jobId (bj_data bj)) = Some row" "\<not> callback_ok x" "is_final bj"
  shows "wp (deadLetter cfg (ej_executionId (bj_data bj)) (ej_jobId (bj_data bj)) att msg x dur)
    (attempt_effect hmac cfg bj j e row s) s1"
proof -
  obtain e1 where e1: "st_execs s1 (ej_executionId (bj_data bj)) = Some e1"
    using sent_select(1) [OF assms(1,2)] by blast
  show ?thesis
    by (rule deadLetter_wp [OF e1 sent_select(2) [OF assms(1,2)]], rule sent_ends [OF assms(1)])
      (use e1 assms(3,4) in \<open>auto simp: attempt_status_def\<close>)
qed

lemma finish_retryable:
  assumes "sent (attempt_request hmac cfg bj j e) bj e x s s1"
    "st_jobs s (ej_jobId (bj_data bj)) = Some row" "\<not> callback_ok x" "\<not> is_final bj"
  shows "wp (on_retryable (ej_executionId (bj_data bj)) (ej_jobId (bj_data bj)) att msg x dur)
    (attempt_effect hmac cfg bj j e row s) s1"
proof -
  obtain e1 where e1: "st_execs s1 (ej_executionId (bj_data bj)) = Some e1"
    using sent_select(1) [OF assms(1,2)] by blast
  show ?thesis
    by (rule on_retryable_wp [OF e1 sent_select(2) [OF assms(1,2)], where cfg = cfg],
        rule sent_ends [OF assms(1)])
      (use e1 assms(3,4) in \<open>auto simp: attempt_status_def\<close>)
qed

lemma run_attempt_effect:
  assumes "reliable svc V" "run svc (run_attempt hmac cfg bj j) w = (res, w')"
    "st_execs (V w) (ej_executionId (bj_data bj)) = Some e"
    "st_jobs (V w) (ej_jobId (bj_data bj)) = Some row"
  shows "attempt_effect hmac cfg bj j e row (V w) res (V w')"
proof (rule wp_run [OF assms(1) _ assms(2)])
  show "wp (run_attempt hmac cfg bj j) (attempt_effect hmac cfg bj j e row (V w)) (V w)"
    using assms(3,4)
    by (simp add: run_attempt_def Let_def wp_invokeCallback later_def classify_def,
        intro allI impI conjI, simp_all split: if_splits)
      (auto intro!: finish_success [OF _ assms(4)] finish_dead [OF _ assms(4)]
        finish_retryable [OF _ assms(4)]
        simp: sent_def patch_defs attempt_request_def callback_ok_def is_final_def)
qed

section \<open>What one delivery does\<close>

lemma attempt_effect_clock [simp]:
  "attempt_effect hmac cfg bj j e row (s\<lparr>st_clock := t\<rparr>) res s' = attempt_effect hmac cfg bj j e row s res s'"
  by (simp add: attempt_effect_def job_becomes_def)

definition idle :: "store \<Rightarrow> unit outcome \<Rightarrow> store \<Rightarrow> bool" where
  "idle s res s' \<longleftrightarrow> res = Inr () \<and> s' = s\<lparr>st_clock := st_clock s'\<rparr>"

lemma run_attempt_idle:
  assumes "reliable svc V" "run svc (run_attempt hmac cfg bj j) w = (res, w')"
    "st_execs (V w) (ej_executionId (bj_data bj)) = None"
  shows "idle (V w) res (V w')"
  by (rule wp_run [OF assms(1) _ assms(2)]) (simp add: run_attempt_def assms(3) Let_def later_def idle_def)

theorem processExecutionJob_effect:
  assumes "reliable svc V" "run svc (processExecutionJob hmac cfg bj) w = (res, w')"
  shows "\<exists>t. st_clock (V w) \<le> t \<and> t \<le> st_clock (V w') \<and>
    (case read_job (V w) t (ej_jobId (bj_data bj)) of
       None \<Rightarrow> idle (V w) res (V w')
     | Some j \<Rightarrow> if \<not> enabled j then idle (V w) res (V w')
         else (case st_execs (V w) (ej_executionId (bj_data bj)) of
            None \<Rightarrow> idle (V w) res (V w')
          | Some e \<Rightarrow> \<forall>row. st_jobs (V w) (ej_jobId (bj_data bj)) = Some row \<longrightarrow>
              attempt_effect hmac cfg bj j e row (V w) res (V w')))"
proof -
  obtain r1 w1 where l: "run svc (load_job (ej_jobId (bj_data bj))) w = (r1, w1)" by fastforce
  from load_job_run [OF assms(1) l] obtain t where t: "st_clock (V w) \<le> t" "t \<le> st_clock (V w1)"
      "r1 = Inr (read_job (V w) t (ej_jobId (bj_data bj)))"
      "V w1 = (V w)\<lparr>st_clock := st_clock (V w1)\<rparr>" by blast
  define rest where "rest = (case read_job (V w) t (ej_jobId (bj_data bj)) of None \<Rightarrow> Ret ()
     | Some j \<Rightarrow> if \<not> enabled j then Ret () else run_attempt hmac cfg bj j)"
  have r: "run svc rest w1 = (res, w')"
    using assms(2) l t(3) by (simp add: processExecutionJob_def run_bind rest_def)
  have mono: "t \<le> st_clock (V w')"
    using run_clock [OF reliable_ok [OF assms(1)] r] t(2) by simp
  have idle1: "idle (V w) res (V w')" if "idle (V w1) res (V w')"
    using that t(4) unfolding idle_def by (metis store.update_convs(11) store.surjective)
  show ?thesis
  proof (intro exI [of _ t] conjI t(1) mono, goal_cases)
    case 1
    show ?case
    proof (cases "read_job (V w) t (ej_jobId (bj_data bj))")
      case None
      with r idle1 show ?thesis by (simp add: rest_def idle_def)
    next
      case (Some j)
      show ?thesis
      proof (cases "enabled j")
        case False
        with Some r idle1 show ?thesis by (simp add: rest_def idle_def)
      next
        case True
        have ra: "run svc (run_attempt hmac cfg bj j) w1 = (res, w')" using r Some True by (simp add: rest_def)
        have same: "st_execs (V w1) = st_execs (V w)" "st_jobs (V w1) = st_jobs (V w)"
          by (subst t(4), simp)+
        have eff: "attempt_effect hmac cfg bj j e row (V w) res (V w')"
          if "st_execs (V w) (ej_executionId (bj_data bj)) = Some e"
            "st_jobs (V w) (ej_jobId (bj_data bj)) = Some row" for e row
          using run_attempt_effect [OF assms(1) ra] that same t(4) by (metis attempt_effect_clock)
        show ?thesis
          using Some True eff run_attempt_idle [OF assms(1) ra] same idle1
          by (simp split: option.split)
      qed
    qed
  qed
qed

section \<open>Properties of the worker\<close>

text \<open>The job reads as enabled at every time from the store's clock on.\<close>

definition reads_enabled :: "store \<Rightarrow> string \<Rightarrow> bool" where
  "reads_enabled s i \<longleftrightarrow> (\<forall>t \<ge> st_clock s. \<exists>j. read_job s t i = Some j \<and> enabled j)"

lemma enabled_attempt:
  assumes "reliable svc V" "run svc (processExecutionJob hmac cfg bj) w = (res, w')"
    "reads_enabled (V w) (ej_jobId (bj_data bj))"
    "st_execs (V w) (ej_executionId (bj_data bj)) = Some e"
    "st_jobs (V w) (ej_jobId (bj_data bj)) = Some row"
  obtains j x e' where "st_fetched (V w') = st_fetched (V w) @ [(attempt_request hmac cfg bj j e, x)]"
    "st_execs (V w') = (st_execs (V w))(ej_executionId (bj_data bj) \<mapsto> e')"
    "status e' = attempt_status bj x" "attemptNumber e' = bj_attemptsMade bj + 1" "responseCode e' = x"
    "job_becomes (V w) (ej_jobId (bj_data bj)) (attempt_job cfg (attempt_status bj x) row) (V w')"
    "st_dead (V w') = st_dead (V w) @ (if attempt_status bj x = DEAD
       then [dead_letter_entry (ej_executionId (bj_data bj)) (ej_jobId (bj_data bj)) (the (errorMessage e'))] else [])"
    "res = (if attempt_status bj x = FAILED then Inl (JsError ''Error'' (errorMessage e')) else Inr ())"
    "st_kv (V w') = st_kv (V w)" "exec_id e' = exec_id e"
proof -
  from processExecutionJob_effect [OF assms(1,2)] assms(3-5) obtain j where
    "attempt_effect hmac cfg bj j e row (V w) res (V w')"
    unfolding reads_enabled_def by fastforce
  then show thesis unfolding attempt_effect_def Let_def by (auto intro: that)
qed

text \<open>
  C3: what one delivery of a queued execution does, when the job is enabled and the execution
  exists: it sends exactly one callback, signed over the body that is sent; it records SUCCESS
  after a 2xx answer, DEAD after any failure of the final attempt and FAILED after a failure
  with attempts left; and it throws, which makes BullMQ retry, exactly in the last case.
\<close>

theorem processExecutionJob_outcome:
  assumes "reliable svc V" "run svc (processExecutionJob hmac cfg bj) w = (res, w')"
    "reads_enabled (V w) (ej_jobId (bj_data bj))"
    "st_execs (V w) (ej_executionId (bj_data bj)) = Some e"
    "st_jobs (V w) (ej_jobId (bj_data bj)) = Some row"
  shows "\<exists>f x e'. st_fetched (V w') = st_fetched (V w) @ [(f, x)] \<and>
    fr_signature f = hmac (CRONHIVE_SIGNING_SECRET cfg) (fr_body f) \<and>
    st_execs (V w') = (st_execs (V w))(ej_executionId (bj_data bj) \<mapsto> e') \<and>
    status e' = (if callback_ok x then SUCCESS else if is_final bj then DEAD else FAILED) \<and>
    attemptNumber e' = bj_attemptsMade bj + 1 \<and> responseCode e' = x \<and>
    ((\<exists>err. res = Inl err) \<longleftrightarrow> \<not> callback_ok x \<and> \<not> is_final bj)"
proof -
  from enabled_attempt [OF assms] obtain j x e' where
    "st_fetched (V w') = st_fetched (V w) @ [(attempt_request hmac cfg bj j e, x)]"
    "st_execs (V w') = (st_execs (V w))(ej_executionId (bj_data bj) \<mapsto> e')"
    "status e' = attempt_status bj x" "attemptNumber e' = bj_attemptsMade bj + 1" "responseCode e' = x"
    "res = (if attempt_status bj x = FAILED then Inl (JsError ''Error'' (errorMessage e')) else Inr ())"
    by metis
  then show ?thesis
    by (intro exI [of _ "attempt_request hmac cfg bj j e"] exI [of _ x] exI [of _ e'])
      (auto simp: attempt_request_def signed_request_def attempt_status_def)
qed

text \<open>A world with one enabled job and a pending execution of it, for the witnesses.\<close>

definition sample_exec :: execution where
  "sample_exec = \<lparr>exec_id = ''id-1'', exec_jobId = ''id-0'', triggeredAt = 60000, scheduledFor = Some 60000,
     startedAt = None, finishedAt = None, status = PENDING, attemptNumber = 1, responseCode = None,
     durationMs = None, errorMessage = None, triggerSource = ''schedule''\<rparr>"

definition pending_world :: "http_outcome list \<Rightarrow> ref_world" where
  "pending_world answers = (ref_start [sample_job] 60000 5)\<lparr>rw_execs := [sample_exec], rw_http := answers\<rparr>"

definition sample_delivery :: "nat \<Rightarrow> nat \<Rightarrow> bull_job" where
  "sample_delivery made n =
     \<lparr>bj_data = \<lparr>ej_executionId = ''id-1'', ej_jobId = ''id-0'', ej_fireSlot = Slot 60000\<rparr>,
      bj_attemptsMade = int made, bj_attempts = Some (int n)\<rparr>"

lemma pending_world_facts:
  "reads_enabled (ref_view (pending_world answers)) (ej_jobId (bj_data (sample_delivery made n)))"
  "st_execs (ref_view (pending_world answers)) (ej_executionId (bj_data (sample_delivery made n))) = Some sample_exec"
  "st_jobs (ref_view (pending_world answers)) (ej_jobId (bj_data (sample_delivery made n))) = Some sample_job"
  by (simp_all add: pending_world_def sample_delivery_def ref_start_def sample_exec_def sample_job_def
      reads_enabled_def read_job_def live_at_def parse_cached_def)

theorem processExecutionJob_outcome_witness:
  "\<exists>f x. st_fetched (ref_view (snd (run ref_svc (processExecutionJob (\<lambda>k m. k @ m) default_env
      (sample_delivery 0 3)) (pending_world [Refused])))) = [(f, x)] \<and>
    fr_signature f = CRONHIVE_SIGNING_SECRET default_env @ fr_body f"
proof -
  obtain res w' where r: "run ref_svc (processExecutionJob (\<lambda>k m. k @ m) default_env
      (sample_delivery 0 3)) (pending_world [Refused]) = (res, w')" by fastforce
  from processExecutionJob_outcome [OF ref_svc_reliable r pending_world_facts] r show ?thesis
    by (auto simp: pending_world_def ref_start_def)
qed

section \<open>A sequence of attempts\<close>

lemma reads_enabled_next:
  assumes "reads_enabled s i" "st_kv s' = st_kv s" "st_clock s \<le> st_clock s'"
    "st_jobs s i = Some row" "st_jobs s' i = Some row'" "enabled row \<longrightarrow> enabled row'"
  shows "reads_enabled s' i"
  unfolding reads_enabled_def
proof (intro allI impI)
  fix t
  assume "st_clock s' \<le> t"
  with assms(1,3) obtain j where "read_job s t i = Some j" "enabled j"
    by (meson order_trans reads_enabled_def)
  with assms(2,4-6) show "\<exists>j. read_job s' t i = Some j \<and> enabled j"
    by (auto simp: read_job_def split: option.splits)
qed

text \<open>What holds between the attempts of an always failing callback.\<close>

definition failing_so_far :: "exec_job_data \<Rightarrow> job \<Rightarrow> store \<Rightarrow> nat \<Rightarrow> store \<Rightarrow> bool" where
  "failing_so_far d row s k s' \<longleftrightarrow>
     reads_enabled s' (ej_jobId d) \<and> st_execs s' (ej_executionId d) \<noteq> None \<and>
     (\<exists>r. st_jobs s' (ej_jobId d) = Some r \<and> r\<lparr>updatedAt := 0\<rparr> = row\<lparr>updatedAt := 0\<rparr>) \<and>
     st_dead s' = st_dead s \<and> length (st_fetched s') = length (st_fetched s) + k"

lemma row_select:
  assumes "r\<lparr>updatedAt := 0\<rparr> = row\<lparr>updatedAt := 0\<rparr>"
  shows "enabled r = enabled row" "consecutiveDeadCount r = consecutiveDeadCount row"
  using arg_cong [OF assms, of enabled] arg_cong [OF assms, of consecutiveDeadCount] by simp_all

lemma failing_step:
  assumes "reliable svc V" "failing_so_far d row s k (V w)"
    "run svc (processExecutionJob hmac cfg \<lparr>bj_data = d, bj_attemptsMade = int k, bj_attempts = Some (int n)\<rparr>) w
       = (res, w')"
    "\<And>f x. st_fetched (V w') = st_fetched (V w) @ [(f, x)] \<Longrightarrow> \<not> callback_ok x" "Suc k < n"
  shows "failing_so_far d row s (Suc k) (V w') \<and> (\<exists>err. res = Inl err)"
proof -
  let ?bj = "\<lparr>bj_data = d, bj_attemptsMade = int k, bj_attempts = Some (int n)\<rparr>"
  obtain e r where er: "st_execs (V w) (ej_executionId (bj_data ?bj)) = Some e"
      "st_jobs (V w) (ej_jobId (bj_data ?bj)) = Some r" "r\<lparr>updatedAt := 0\<rparr> = row\<lparr>updatedAt := 0\<rparr>"
    and en: "reads_enabled (V w) (ej_jobId (bj_data ?bj))"
    using assms(2) by (auto simp: failing_so_far_def)
  from enabled_attempt [OF assms(1,3) en er(1,2)] obtain j x e' where A:
    "st_fetched (V w') = st_fetched (V w) @ [(attempt_request hmac cfg ?bj j e, x)]"
    "st_execs (V w') = (st_execs (V w))(ej_executionId d \<mapsto> e')"
    "job_becomes (V w) (ej_jobId d) (attempt_job cfg (attempt_status ?bj x) r) (V w')"
    "st_dead (V w') = st_dead (V w) @ (if attempt_status ?bj x = DEAD
       then [dead_letter_entry (ej_executionId d) (ej_jobId d) (the (errorMessage e'))] else [])"
    "res = (if attempt_status ?bj x = FAILED then Inl (JsError ''Error'' (errorMessage e')) else Inr ())"
    "st_kv (V w') = st_kv (V w)"
    by (metis bull_job.select_convs(1))
  have st: "attempt_status ?bj x = FAILED"
    using assms(4) [OF A(1)] assms(5) by (simp add: attempt_status_def is_final_def)
  from A(3) st obtain r' where r': "st_jobs (V w') (ej_jobId d) = Some r'"
      "r'\<lparr>updatedAt := 0\<rparr> = r\<lparr>updatedAt := 0\<rparr>"
    by (auto simp: job_becomes_def attempt_job_def)
  have "reads_enabled (V w') (ej_jobId d)"
    using reads_enabled_next [OF _ A(6) run_clock [OF reliable_ok [OF assms(1)] assms(3)]] en er r'
    by (simp add: row_select(1) [OF r'(2)])
  with A st r' er assms(2) show ?thesis by (auto simp: failing_so_far_def)
qed

text \<open>
  C4: an always failing callback is retried until the attempts are used up, then dead-lettered
  once. If the deliveries of an execution run one after the other with 0, 1, \<open>\<dots>\<close> attempts made, and
  each callback fails, then all attempts but the last throw, the last one returns normally,
  exactly one callback was sent per attempt, the execution is DEAD with attempt number \<open>n\<close>, the
  dead-letter queue got exactly one entry, for it, and the job's streak of dead executions
  grew by one.
\<close>

theorem exhausted_retries_dead_letter_once:
  assumes "reliable svc V" "0 < n" "reads_enabled (V (ws 0)) (ej_jobId d)"
    "st_execs (V (ws 0)) (ej_executionId d) = Some e" "st_jobs (V (ws 0)) (ej_jobId d) = Some row"
    "\<And>k. k < n \<Longrightarrow> run svc (processExecutionJob hmac cfg
       \<lparr>bj_data = d, bj_attemptsMade = int k, bj_attempts = Some (int n)\<rparr>) (ws k) = (res k, ws (Suc k))"
    "\<And>k f x. k < n \<Longrightarrow> st_fetched (V (ws (Suc k))) = st_fetched (V (ws k)) @ [(f, x)] \<Longrightarrow> \<not> callback_ok x"
  shows "(\<forall>k < n - 1. \<exists>err. res k = Inl err) \<and> res (n - 1) = Inr () \<and>
    length (st_fetched (V (ws n))) = length (st_fetched (V (ws 0))) + n \<and>
    (\<exists>e' row' msg. st_execs (V (ws n)) (ej_executionId d) = Some e' \<and> status e' = DEAD \<and>
       attemptNumber e' = int n \<and>
       st_dead (V (ws n)) = st_dead (V (ws 0)) @ [dead_letter_entry (ej_executionId d) (ej_jobId d) msg] \<and>
       st_jobs (V (ws n)) (ej_jobId d) = Some row' \<and>
       consecutiveDeadCount row' = consecutiveDeadCount row + 1)"
proof -
  have inv: "failing_so_far d row (V (ws 0)) k (V (ws k)) \<and> (\<forall>i < k. \<exists>err. res i = Inl err)" if "k < n" for k
    using that
  proof (induction k)
    case 0
    with assms(3-5) show ?case by (simp add: failing_so_far_def)
  next
    case (Suc k)
    then have "failing_so_far d row (V (ws 0)) (Suc k) (V (ws (Suc k))) \<and> (\<exists>err. res k = Inl err)"
      by (intro failing_step [OF assms(1) _ assms(6) assms(7)]) simp_all
    with Suc show ?case by (auto simp: less_Suc_eq)
  qed
  define m where "m = n - 1"
  have n: "n = Suc m" "m < n" using assms(2) by (simp_all add: m_def)
  let ?bj = "\<lparr>bj_data = d, bj_attemptsMade = int m, bj_attempts = Some (int n)\<rparr>"
  from inv [OF n(2)] obtain e1 r where er: "st_execs (V (ws m)) (ej_executionId (bj_data ?bj)) = Some e1"
      "st_jobs (V (ws m)) (ej_jobId (bj_data ?bj)) = Some r" "r\<lparr>updatedAt := 0\<rparr> = row\<lparr>updatedAt := 0\<rparr>"
      "reads_enabled (V (ws m)) (ej_jobId (bj_data ?bj))" "st_dead (V (ws m)) = st_dead (V (ws 0))"
      "length (st_fetched (V (ws m))) = length (st_fetched (V (ws 0))) + m"
    by (auto simp: failing_so_far_def)
  from enabled_attempt [OF assms(1) assms(6) [OF n(2)] er(4,1,2)] obtain j x e' where A:
    "st_fetched (V (ws n)) = st_fetched (V (ws m)) @ [(attempt_request hmac cfg ?bj j e1, x)]"
    "st_execs (V (ws n)) = (st_execs (V (ws m)))(ej_executionId d \<mapsto> e')"
    "status e' = attempt_status ?bj x" "attemptNumber e' = int m + 1"
    "job_becomes (V (ws m)) (ej_jobId d) (attempt_job cfg (attempt_status ?bj x) r) (V (ws n))"
    "st_dead (V (ws n)) = st_dead (V (ws m)) @ (if attempt_status ?bj x = DEAD
       then [dead_letter_entry (ej_executionId d) (ej_jobId d) (the (errorMessage e'))] else [])"
    "res m = (if attempt_status ?bj x = FAILED then Inl (JsError ''Error'' (errorMessage e')) else Inr ())"
    unfolding n(1) by (metis bull_job.select_convs(1,2))
  have st: "attempt_status ?bj x = DEAD"
    using assms(7) [OF n(2)] A(1) by (simp add: attempt_status_def is_final_def n(1))
  from A(5) st obtain r' where r': "st_jobs (V (ws n)) (ej_jobId d) = Some r'"
      "r'\<lparr>updatedAt := 0\<rparr> = (attempt_job cfg DEAD r)\<lparr>updatedAt := 0\<rparr>"
    by (auto simp: job_becomes_def)
  from row_select(2) [OF r'(2)] row_select(2) [OF er(3)] have
    "consecutiveDeadCount r' = consecutiveDeadCount row + 1" by (simp add: attempt_job_def)
  with A st r'(1) er inv [OF n(2)] show ?thesis
    by (auto simp: n(1) m_def [symmetric])
qed

theorem exhausted_retries_dead_letter_once_witness:
  "\<exists>ws res. ws 0 = pending_world [] \<and> res (2 :: nat) = Inr () \<and>
     (\<forall>k < 3. run dead_http_svc (processExecutionJob (\<lambda>k m. []) default_env (sample_delivery k 3)) (ws k) =
        (res k, ws (Suc k))) \<and>
     length (rw_dead (ws 3)) = 1 \<and> length (rw_fetched (ws 3)) = 3"
proof -
  define proc where "proc k = processExecutionJob (\<lambda>k m. []) default_env (sample_delivery k 3)" for k
  define ws where "ws = rec_nat (pending_world []) (\<lambda>k w. snd (run dead_http_svc (proc k) w))"
  define res where "res k = fst (run dead_http_svc (proc k) (ws k))" for k
  have step: "run dead_http_svc (proc k) (ws k) = (res k, ws (Suc k))" for k
    by (simp add: res_def ws_def)
  have w0: "ws 0 = pending_world []" by (simp add: ws_def)
  have none: "\<forall>y \<in> set (rw_fetched (ws k)). snd y = None" for k
    by (induction k) (auto simp: w0 pending_world_def ref_start_def dest!: dead_http_fetched [OF step])
  let ?d = "bj_data (sample_delivery 0 3)"
  have "(\<forall>k < 3 - 1. \<exists>err. res k = Inl err) \<and> res (3 - 1) = Inr () \<and>
    length (st_fetched (ref_view (ws 3))) = length (st_fetched (ref_view (ws 0))) + 3 \<and>
    (\<exists>e' row' msg. st_execs (ref_view (ws 3)) (ej_executionId ?d) = Some e' \<and> status e' = DEAD \<and>
       attemptNumber e' = int 3 \<and>
       st_dead (ref_view (ws 3)) = st_dead (ref_view (ws 0)) @ [dead_letter_entry (ej_executionId ?d) (ej_jobId ?d) msg] \<and>
       st_jobs (ref_view (ws 3)) (ej_jobId ?d) = Some row' \<and>
       consecutiveDeadCount row' = consecutiveDeadCount sample_job + 1)"
  proof (rule exhausted_retries_dead_letter_once [where ws = ws, OF dead_http_reliable _
      pending_world_facts [where answers = "[]" and made = 0 and n = 3, folded w0]])
    show "run dead_http_svc (processExecutionJob (\<lambda>k m. []) default_env
        \<lparr>bj_data = ?d, bj_attemptsMade = int k, bj_attempts = Some (int 3)\<rparr>) (ws k) = (res k, ws (Suc k))" for k
      using step [of k] by (simp add: proc_def sample_delivery_def)
    show "\<not> callback_ok x" if "st_fetched (ref_view (ws (Suc k))) = st_fetched (ref_view (ws k)) @ [(f, x)]" for k f x
      using none [of "Suc k"] that by (auto simp: callback_ok_def)
  qed simp
  with step w0 show ?thesis
    by (intro exI [of _ ws] exI [of _ res]) (auto simp: proc_def pending_world_def ref_start_def)
qed

section \<open>Streak, circuit breaker and cache\<close>

text \<open>
  C8: the circuit breaker. A delivery whose callback succeeds resets the job's streak of dead
  executions and leaves \<open>enabled\<close> alone. A final failure adds one to the streak, and the job is
  enabled afterwards exactly if it was and the new streak is below
  \<open>CIRCUIT_BREAKER_CONSECUTIVE_DEAD\<close>. A failure with attempts left changes neither.
\<close>

theorem circuit_breaker_threshold:
  assumes "reliable svc V" "run svc (processExecutionJob hmac cfg bj) w = (res, w')"
    "reads_enabled (V w) (ej_jobId (bj_data bj))"
    "st_execs (V w) (ej_executionId (bj_data bj)) = Some e"
    "st_jobs (V w) (ej_jobId (bj_data bj)) = Some row"
  shows "\<exists>x row'. st_fetched (V w') = st_fetched (V w) @ [x] \<and>
    st_jobs (V w') (ej_jobId (bj_data bj)) = Some row' \<and>
    (\<forall>i. i \<noteq> ej_jobId (bj_data bj) \<longrightarrow> st_jobs (V w') i = st_jobs (V w) i) \<and>
    (if callback_ok (snd x) then consecutiveDeadCount row' = 0 \<and> enabled row' = enabled row
     else if is_final bj then consecutiveDeadCount row' = consecutiveDeadCount row + 1 \<and>
       enabled row' = (enabled row \<and> consecutiveDeadCount row + 1 < CIRCUIT_BREAKER_CONSECUTIVE_DEAD cfg)
     else consecutiveDeadCount row' = consecutiveDeadCount row \<and> enabled row' = enabled row)"
proof -
  from enabled_attempt [OF assms] obtain j x where A:
    "st_fetched (V w') = st_fetched (V w) @ [(attempt_request hmac cfg bj j e, x)]"
    "job_becomes (V w) (ej_jobId (bj_data bj)) (attempt_job cfg (attempt_status bj x) row) (V w')"
    by metis
  from A(2) obtain r where r: "st_jobs (V w') (ej_jobId (bj_data bj)) = Some r"
      "r\<lparr>updatedAt := 0\<rparr> = (attempt_job cfg (attempt_status bj x) row)\<lparr>updatedAt := 0\<rparr>"
    by (auto simp: job_becomes_def)
  from A row_select [OF r(2)] r(1) show ?thesis
    by (intro exI [of _ "(attempt_request hmac cfg bj j e, x)"] exI [of _ r])
      (auto simp: attempt_job_def attempt_status_def job_becomes_def)
qed

theorem circuit_breaker_threshold_witness:
  "\<exists>row'. rw_jobs (snd (run ref_svc (processExecutionJob (\<lambda>k m. []) default_env (sample_delivery 2 3))
      (pending_world [Status 503]))) \<noteq> [] \<and>
    st_jobs (ref_view (snd (run ref_svc (processExecutionJob (\<lambda>k m. []) default_env (sample_delivery 2 3))
      (pending_world [Status 503])))) ''id-0'' = Some row'"
proof -
  obtain res w' where r: "run ref_svc (processExecutionJob (\<lambda>k m. []) default_env
      (sample_delivery 2 3)) (pending_world [Status 503]) = (res, w')" by fastforce
  from circuit_breaker_threshold [OF ref_svc_reliable r pending_world_facts] obtain row' where
    "find_job (rw_jobs w') ''id-0'' = Some row'" by (auto simp: sample_delivery_def)
  with r show ?thesis by (cases "rw_jobs w'") auto
qed

text \<open>
  C21: a delivery for a job that reads as disabled, for a job that does not exist, or for an
  execution that does not exist returns normally without any effect: no callback, no write, no
  event. In particular an execution whose job was disabled keeps its status.
\<close>

theorem disabled_job_untouched:
  assumes "reliable svc V" "run svc (processExecutionJob hmac cfg bj) w = (res, w')"
    "(\<forall>t \<ge> st_clock (V w). \<forall>j. read_job (V w) t (ej_jobId (bj_data bj)) = Some j \<longrightarrow> \<not> enabled j) \<or>
     st_execs (V w) (ej_executionId (bj_data bj)) = None"
  shows "res = Inr () \<and> V w' = (V w)\<lparr>st_clock := st_clock (V w')\<rparr>"
proof -
  obtain t where t: "st_clock (V w) \<le> t" and
    eff: "case read_job (V w) t (ej_jobId (bj_data bj)) of None \<Rightarrow> idle (V w) res (V w')
     | Some j \<Rightarrow> if \<not> enabled j then idle (V w) res (V w')
         else (case st_execs (V w) (ej_executionId (bj_data bj)) of None \<Rightarrow> idle (V w) res (V w')
          | Some e \<Rightarrow> \<forall>row. st_jobs (V w) (ej_jobId (bj_data bj)) = Some row \<longrightarrow>
              attempt_effect hmac cfg bj j e row (V w) res (V w'))"
    using processExecutionJob_effect [OF assms(1,2)] by blast
  have "idle (V w) res (V w')"
    using eff t assms(3) by (cases "read_job (V w) t (ej_jobId (bj_data bj))") (auto split: if_splits)
  then show ?thesis by (simp add: idle_def)
qed

theorem disabled_job_untouched_witness:
  "let w = (ref_start [sample_job\<lparr>enabled := False\<rparr>] 60000 5)\<lparr>rw_execs := [sample_exec]\<rparr> in
   fst (run ref_svc (processExecutionJob (\<lambda>k m. []) default_env (sample_delivery 0 3)) w) = Inr () \<and>
   st_execs (ref_view (snd (run ref_svc (processExecutionJob (\<lambda>k m. []) default_env (sample_delivery 0 3)) w)))
     ''id-1'' = Some sample_exec"
proof -
  define w where "w = (ref_start [sample_job\<lparr>enabled := False\<rparr>] 60000 5)\<lparr>rw_execs := [sample_exec]\<rparr>"
  obtain res w' where r: "run ref_svc (processExecutionJob (\<lambda>k m. []) default_env
      (sample_delivery 0 3)) w = (res, w')" by fastforce
  have "res = Inr () \<and> ref_view w' = (ref_view w)\<lparr>st_clock := st_clock (ref_view w')\<rparr>"
    by (rule disabled_job_untouched [OF ref_svc_reliable r])
      (simp add: w_def ref_start_def read_job_def live_at_def parse_cached_def sample_job_def sample_delivery_def)
  then have "res = Inr ()" "st_execs (ref_view w') = st_execs (ref_view w)"
    by (simp, metis store.select_convs(2) store.surjective store.update_convs(11))
  with r show ?thesis by (simp add: w_def Let_def sample_exec_def)
qed

text \<open>
  C22: the circuit breaker does not stop an execution that is already queued while the cached
  copy of the job is live. \<open>applyCircuitBreaker\<close> disables the row without invalidating the cache,
  and the worker reads the cache first: with a cached copy that still says enabled, a delivery
  that ends before the copy expires sends a callback although the row says disabled.
\<close>

theorem stale_cache_bypasses_circuit_breaker:
  assumes "reliable svc V" "run svc (processExecutionJob hmac cfg bj) w = (res, w')"
    "st_kv (V w) (jobConfigKey (ej_jobId (bj_data bj))) = Some (JobJson copy, d)" "enabled copy"
    "st_clock (V w') < d" "st_jobs (V w) (ej_jobId (bj_data bj)) = Some row" "\<not> enabled row"
    "st_execs (V w) (ej_executionId (bj_data bj)) = Some e"
  shows "\<exists>x. st_fetched (V w') = st_fetched (V w) @ [(attempt_request hmac cfg bj copy e, x)]"
proof -
  have read: "read_job (V w) t (ej_jobId (bj_data bj)) = Some copy" if "t \<le> st_clock (V w')" for t
    using that assms(3,5) by (simp add: read_job_def live_at_def parse_cached_def)
  from processExecutionJob_effect [OF assms(1,2)] read assms(4,6,8) have
    "attempt_effect hmac cfg bj copy e row (V w) res (V w')" by fastforce
  then show ?thesis by (auto simp: attempt_effect_def Let_def)
qed

theorem stale_cache_bypasses_circuit_breaker_witness:
  "let w = (ref_start [sample_job\<lparr>enabled := False\<rparr>] 60000 0)\<lparr>rw_execs := [sample_exec],
        rw_kv := [jobConfigKey ''id-0'' \<mapsto> (JobJson sample_job, 100000)]\<rparr> in
   length (rw_fetched (snd (run ref_svc (processExecutionJob (\<lambda>k m. []) default_env (sample_delivery 0 3)) w))) = 1"
proof -
  define w where "w = (ref_start [sample_job\<lparr>enabled := False\<rparr>] 60000 0)\<lparr>rw_execs := [sample_exec],
        rw_kv := [jobConfigKey ''id-0'' \<mapsto> (JobJson sample_job, 100000)]\<rparr>"
  obtain res w' where r: "run ref_svc (processExecutionJob (\<lambda>k m. []) default_env
      (sample_delivery 0 3)) w = (res, w')" by fastforce
  have "rw_clock w' = 60000" using ref_instant [OF r [unfolded ref_svc_def]] by (simp add: w_def ref_start_def)
  with stale_cache_bypasses_circuit_breaker [OF ref_svc_reliable r, of sample_job 100000
      "sample_job\<lparr>enabled := False\<rparr>" sample_exec]
  have "\<exists>x. rw_fetched w' = [x]"
    by (auto simp: w_def ref_start_def sample_delivery_def sample_job_def sample_exec_def)
  with r show ?thesis by (auto simp: w_def)
qed

text \<open>
  The signed body identifies the delivery: two callback bodies are equal only if they carry
  the same job identifier, job name, execution identifier and attempt number, whatever
  characters the names contain.
\<close>

theorem callback_body_injective:
  assumes "callback_body j x a t = callback_body j' x' a' t'"
  shows "job_id j = job_id j' \<and> job_name j = job_name j' \<and> x = x' \<and> a = a'"
  using assms by (simp add: callback_body_def json_object_def)

theorem callback_body_injective_witness:
  "callback_body sample_job ''id-1'' 1 0 = callback_body sample_job ''id-1'' 1 0 \<and>
   job_id sample_job = job_id sample_job"
  using callback_body_injective [of sample_job "''id-1''" 1 0 sample_job "''id-1''" 1 0] by simp

end
