(* ===== verification/Leader.thy ===== *)
theory Leader
  imports Job_Lock Job_Cache
begin

text \<open>
  \<open>src/lib/leader.ts\<close>: single-leader election by a lease on one Redis key. The closure of
  \<open>startLeaderElection\<close> is the record \<open>election\<close>; \<open>campaign\<close> and \<open>stop\<close> return its new value. A
  campaign is taken to end before the next campaign of the same instance starts; campaigns of
  different instances, and all other calls, interleave freely. The locale \<open>lease\<close> is the contract
  of such an election, and is interpreted on \<open>campaign\<close> and \<open>stop\<close> against services that may fail.
\<close>

definition LEADER_KEY :: string where
  "LEADER_KEY = ''cronhive:scheduler:leader''"

record election =
  el_token :: string
  el_leaseTtlMs :: int
  el_leader :: bool
  el_stopped :: bool

record election_opts =
  eo_leaseTtlMs :: "int option"
  eo_heartbeatMs :: "int option"

definition election_lease :: "election_opts \<Rightarrow> int" where
  "election_lease opts = option_get_or (eo_leaseTtlMs opts) 10000"

definition election_heartbeat :: "election_opts \<Rightarrow> int" where
  "election_heartbeat opts = option_get_or (eo_heartbeatMs opts) (election_lease opts div 3)"

definition new_election :: "election_opts \<Rightarrow> election prog" where
  "new_election opts = bind randomUUID (\<lambda>token.
     Ret \<lparr>el_token = token, el_leaseTtlMs = election_lease opts, el_leader = False, el_stopped = False\<rparr>)"

definition setLeader :: "bool \<Rightarrow> election \<Rightarrow> election prog" where
  "setLeader val e =
     (if val \<noteq> el_leader e
      then bind (metric_inc (IsLeaderGauge (if val then 1 else 0))) (\<lambda>_. Ret (e\<lparr>el_leader := val\<rparr>))
      else Ret e)"

definition campaign :: "election \<Rightarrow> election prog" where
  "campaign e =
     (if el_stopped e then Ret e
      else try_catch
        (if el_leader e
         then bind (call_int (RedisEval (RenewScript (el_token e) (el_leaseTtlMs e)) LEADER_KEY)) (\<lambda>renewed.
           if renewed \<noteq> 1 then setLeader False e else Ret e)
         else bind (call_bool (RedisSetNX LEADER_KEY (Plain (el_token e)) (PX_ms (el_leaseTtlMs e)))) (\<lambda>res.
           if res then setLeader True e else Ret e))
        (\<lambda>_. setLeader False e))"

text \<open>The election and its first campaign, \<open>void campaign()\<close>.\<close>

definition startLeaderElection :: "election_opts \<Rightarrow> election prog" where
  "startLeaderElection opts = bind (new_election opts) campaign"

definition isLeader :: "election \<Rightarrow> bool" where
  "isLeader e = el_leader e"

definition stop :: "election \<Rightarrow> election prog" where
  "stop e =
     (let e1 = e\<lparr>el_stopped := True\<rparr> in
      if el_leader e1
      then bind (try_catch (call_unit (RedisEval (ReleaseScript (el_token e1)) LEADER_KEY)) (\<lambda>_. Ret ()))
        (\<lambda>_. setLeader False e1)
      else Ret e1)"

section \<open>The contract of a lease\<close>

text \<open>
  \<open>holder c w t\<close> is the value of the lease at time \<open>t\<close> if nothing happens after \<open>w\<close>. The laws are
  about one operation; the lemma is about any sequence of operations of other instances.
\<close>

datatype election_op = Campaign election | Stop election | Elsewhere req

fun op_token :: "election_op \<Rightarrow> string option" where
  "op_token (Campaign e) = Some (el_token e)"
| "op_token (Stop e) = Some (el_token e)"
| "op_token (Elsewhere q) = None"

fun perform_all :: "(election_op \<Rightarrow> 'w \<Rightarrow> election option \<times> 'w) \<Rightarrow> election_op list \<Rightarrow> 'w \<Rightarrow> election option list \<times> 'w" where
  "perform_all perf [] w = ([], w)"
| "perform_all perf (op # ops) w =
     (case perf op w of (r, w1) \<Rightarrow> case perform_all perf ops w1 of (rs, w2) \<Rightarrow> (r # rs, w2))"

text \<open>The campaigns of running instances that ended as leader.\<close>

definition elected :: "election_op list \<Rightarrow> election option list \<Rightarrow> election list" where
  "elected ops rs = [e'. (Campaign e, Some e') \<leftarrow> zip ops rs, \<not> el_stopped e \<and> el_leader e']"

lemma elected_Cons: "elected (op # ops) (r # rs) = elected [op] [r] @ elected ops rs"
  by (simp add: elected_def)

lemma elected_none:
  "elected [op] [r] = [] \<longleftrightarrow> (\<forall>e e'. op = Campaign e \<longrightarrow> \<not> el_stopped e \<longrightarrow> r = Some e' \<longrightarrow> \<not> el_leader e')"
  by (cases op; cases r) (auto simp: elected_def)

locale lease =
  fixes ok :: "'c \<Rightarrow> bool"
    and perform :: "'c \<Rightarrow> election_op \<Rightarrow> 'w \<Rightarrow> election option \<times> 'w"
    and allowed :: "election_op \<Rightarrow> bool"
    and holder :: "'c \<Rightarrow> 'w \<Rightarrow> time \<Rightarrow> rvalue option"
    and now :: "'c \<Rightarrow> 'w \<Rightarrow> time"
  assumes gained: "ok c \<Longrightarrow> perform c (Campaign e) w = (Some e', w') \<Longrightarrow> \<not> el_stopped e \<Longrightarrow> el_leader e' \<Longrightarrow>
      t < now c w + el_leaseTtlMs e \<Longrightarrow> holder c w' t = Some (Plain (el_token e))"
    and blocked: "ok c \<Longrightarrow> allowed op \<Longrightarrow> perform c op w = (r, w') \<Longrightarrow> holder c w (now c w') = Some (Plain tok) \<Longrightarrow>
      op_token op \<noteq> Some tok \<Longrightarrow> (\<forall>t \<ge> now c w'. holder c w' t = holder c w t) \<and>
        elected [op] [r] = []"
    and forward: "ok c \<Longrightarrow> perform c op w = (r, w') \<Longrightarrow> now c w \<le> now c w'"
begin

lemma perform_all_forward: "ok c \<Longrightarrow> perform_all (perform c) ops w = (rs, w') \<Longrightarrow> now c w \<le> now c w'"
  by (induction ops arbitrary: w rs) (auto split: prod.splits dest: forward intro: order_trans)

lemma held_blocks:
  assumes "ok c" "perform_all (perform c) ops w = (rs, w')" "now c w' < d"
    "\<forall>op \<in> set ops. allowed op \<and> op_token op \<noteq> Some tok"
    "\<forall>t. now c w \<le> t \<and> t < d \<longrightarrow> holder c w t = Some (Plain tok)"
  shows "elected ops rs = [] \<and> holder c w' (now c w') = Some (Plain tok)"
  using assms(2-)
proof (induction ops arbitrary: w rs)
  case Nil
  then show ?case by (simp add: elected_def)
next
  case (Cons op ops)
  from Cons.prems(1) obtain r w1 rs' where r: "perform c op w = (r, w1)"
      "perform_all (perform c) ops w1 = (rs', w')" "rs = r # rs'"
    by (auto split: prod.splits)
  have le: "now c w \<le> now c w1" "now c w1 \<le> now c w'"
    using forward [OF assms(1) r(1)] perform_all_forward [OF assms(1) r(2)] by simp_all
  then have held: "holder c w (now c w1) = Some (Plain tok)" using Cons.prems(2,4) by simp
  have "allowed op" "op_token op \<noteq> Some tok" using Cons.prems(3) by simp_all
  note b = blocked [OF assms(1) this(1) r(1) held this(2)]
  have "elected ops rs' = [] \<and> holder c w' (now c w') = Some (Plain tok)"
    using Cons.prems b le by (intro Cons.IH [OF r(2)]) simp_all
  with b r(3) show ?case using elected_Cons [of op ops r rs'] by simp
qed

lemma leader_exclusive:
  assumes "ok c" "perform c (Campaign e) w = (Some e', w1)" "\<not> el_stopped e" "el_leader e'"
    "perform_all (perform c) ops w1 = (rs, w2)" "now c w2 < now c w + el_leaseTtlMs e"
    "\<forall>op \<in> set ops. allowed op \<and> op_token op \<noteq> Some (el_token e)"
  shows "elected ops rs = [] \<and> holder c w2 (now c w2) = Some (Plain (el_token e))"
  using held_blocks [OF assms(1,5,6,7)] gained [OF assms(1-4)] by blast

end

section \<open>One campaign against services that may fail\<close>

lemma run_metric:
  assumes "services_ok svc V"
  shows "\<exists>w'. run svc (metric_inc m) w = (Inr (), w') \<and> st_kv (V w') = st_kv (V w) \<and> st_clock (V w) \<le> st_clock (V w')"
proof -
  obtain r w' where r: "svc (Metric m) w = (r, w')" by fastforce
  note eff = services_okD [OF assms r]
  have "st_kv (V w') k = st_kv (V w) k" for k by (rule call_effect_other_key [OF eff]) simp
  with r call_effect_clock [OF eff] show ?thesis by (auto simp: metric_inc_def)
qed

lemma setLeader_run:
  assumes "services_ok svc V"
  shows "\<exists>w'. run svc (setLeader v e) w = (Inr (e\<lparr>el_leader := v\<rparr>), w') \<and> st_kv (V w') = st_kv (V w) \<and>
    st_clock (V w) \<le> st_clock (V w')"
proof (cases "v = el_leader e")
  case True
  then show ?thesis by (simp add: setLeader_def)
next
  case False
  with run_metric [OF assms, of "IsLeaderGauge (if v then 1 else 0)" w] show ?thesis
    by (auto simp: setLeader_def run_bind)
qed

definition campaign_req :: "election \<Rightarrow> req" where
  "campaign_req e = (if el_leader e then RedisEval (RenewScript (el_token e) (el_leaseTtlMs e)) LEADER_KEY
     else RedisSetNX LEADER_KEY (Plain (el_token e)) (PX_ms (el_leaseTtlMs e)))"

definition campaign_won :: "election \<Rightarrow> resp \<Rightarrow> bool" where
  "campaign_won e r = (if el_leader e then r = RInt 1 else r = RBool True)"

lemma campaign_steps:
  assumes "\<not> el_stopped e"
  shows "campaign e = Call (campaign_req e) (\<lambda>r.
    if campaign_won e r = el_leader e then Ret e else setLeader (campaign_won e r) e)"
proof (cases "el_leader e")
  case True
  with assms show ?thesis
    by (auto simp: campaign_def campaign_req_def campaign_won_def prog_defs setLeader_def intro!: ext split: resp.splits)
next
  case False
  with assms show ?thesis
    by (auto simp: campaign_def campaign_req_def campaign_won_def prog_defs setLeader_def intro!: ext split: resp.splits)
qed

lemma campaign_run:
  assumes "services_ok svc V" "\<not> el_stopped e" "run svc (campaign e) w = (res, w')"
  obtains r u where "svc (campaign_req e) w = (r, u)" "res = Inr (e\<lparr>el_leader := campaign_won e r\<rparr>)"
    "st_kv (V w') = st_kv (V u)" "st_clock (V u) \<le> st_clock (V w')"
proof -
  obtain r u where u: "svc (campaign_req e) w = (r, u)" by fastforce
  show thesis
  proof (cases "campaign_won e r = el_leader e")
    case True
    with assms u that show thesis by (auto simp: campaign_steps)
  next
    case False
    with assms u setLeader_run [OF assms(1), of "campaign_won e r" e u] that show thesis
      by (auto simp: campaign_steps)
  qed
qed

text \<open>What the one call of a campaign means for the lease.\<close>

lemma campaign_req_won:
  assumes "call_effect (campaign_req e) r s s'" "campaign_won e r"
  shows "\<exists>t \<ge> st_clock s. st_kv s' LEADER_KEY = Some (Plain (el_token e), t + el_leaseTtlMs e)"
proof -
  from assms obtain t where t: "st_clock s \<le> t" "done_effect (campaign_req e) r (s\<lparr>st_clock := t\<rparr>) s'"
    by (cases r) (auto simp: call_effect_def instant_effect_def campaign_won_def split: if_splits)
  with assms(2) have "st_kv s' LEADER_KEY = Some (Plain (el_token e), t + el_leaseTtlMs e)"
    by (auto simp: campaign_req_def campaign_won_def done_effect_def script_effect_renew ok_effect_def split: if_splits)
  with t(1) show ?thesis by blast
qed

lemma campaign_req_blocked:
  assumes "call_effect (campaign_req e) r s s'" "st_kv s LEADER_KEY = Some (Plain tok, d)" "st_clock s' < d"
    "tok \<noteq> el_token e"
  shows "st_kv s' = st_kv s \<and> \<not> campaign_won e r"
  using assms(1)
proof (cases rule: call_effect_cases)
  case (completed t r')
  have "st_clock s' = t" using done_effect_clock [OF completed(2)] by simp
  with assms(3) have "t < d" by simp
  with completed assms(2,4) show ?thesis
    by (auto simp: campaign_req_def campaign_won_def done_effect_def script_effect_renew ok_effect_def live_at_def
        split: if_splits)
next
  case (failed t e')
  then show ?thesis by (auto simp: campaign_won_def campaign_req_def)
qed

lemma stop_effect:
  assumes "services_ok svc V" "run svc (stop e) w = (res, w')"
  shows "\<exists>e'. res = Inr e' \<and> el_stopped e' \<and> \<not> el_leader e' \<and> st_clock (V w) \<le> st_clock (V w')"
    and "st_kv (V w) LEADER_KEY = Some (Plain tok, d) \<Longrightarrow> st_clock (V w') < d \<Longrightarrow> tok \<noteq> el_token e \<Longrightarrow>
      st_kv (V w') LEADER_KEY = st_kv (V w) LEADER_KEY"
proof -
  let ?e = "e\<lparr>el_stopped := True\<rparr>"
  have "(\<exists>e'. res = Inr e' \<and> el_stopped e' \<and> \<not> el_leader e' \<and> st_clock (V w) \<le> st_clock (V w')) \<and>
    (st_kv (V w) LEADER_KEY = Some (Plain tok, d) \<and> st_clock (V w') < d \<and> tok \<noteq> el_token e \<longrightarrow>
      st_kv (V w') LEADER_KEY = st_kv (V w) LEADER_KEY)"
  proof (cases "el_leader e")
    case True
    obtain r u where u: "svc (RedisEval (ReleaseScript (el_token e)) LEADER_KEY) w = (r, u)" by fastforce
    note eff = services_okD [OF assms(1) u]
    obtain v where v: "run svc (setLeader False ?e) u = (Inr (?e\<lparr>el_leader := False\<rparr>), v)"
        "st_kv (V v) = st_kv (V u)" "st_clock (V u) \<le> st_clock (V v)"
      using setLeader_run [OF assms(1)] by blast
    have "run svc (try_catch (call_unit (RedisEval (ReleaseScript (el_token e)) LEADER_KEY)) (\<lambda>_. Ret ())) w = (Inr (), u)"
      using u by (simp add: call_unit_def split: resp.split)
    with assms(2) True v(1) have res: "res = Inr (?e\<lparr>el_leader := False\<rparr>)" "w' = v"
      by (simp_all add: stop_def run_bind)
    have "st_kv (V u) LEADER_KEY = st_kv (V w) LEADER_KEY"
      if "st_kv (V w) LEADER_KEY = Some (Plain tok, d)" "st_clock (V w') < d" "tok \<noteq> el_token e"
      using eff
    proof (cases rule: call_effect_cases)
      case (completed t r')
      with that v(3) res(2) done_effect_clock [OF completed(2)] show ?thesis
        by (auto simp: done_effect_def script_effect_release live_at_def split: if_splits)
    qed simp
    with res v call_effect_clock [OF eff] show ?thesis by auto
  next
    case False
    with assms(2) show ?thesis by (auto simp: stop_def)
  qed
  then show "\<exists>e'. res = Inr e' \<and> el_stopped e' \<and> \<not> el_leader e' \<and> st_clock (V w) \<le> st_clock (V w')"
    "st_kv (V w) LEADER_KEY = Some (Plain tok, d) \<Longrightarrow> st_clock (V w') < d \<Longrightarrow> tok \<noteq> el_token e \<Longrightarrow>
      st_kv (V w') LEADER_KEY = st_kv (V w) LEADER_KEY" by blast+
qed

section \<open>The election provides the contract\<close>

fun election_perform :: "'w services \<times> 'w view \<Rightarrow> election_op \<Rightarrow> 'w \<Rightarrow> election option \<times> 'w" where
  "election_perform c (Campaign e) w =
     (case run (fst c) (campaign e) w of (Inr e', w') \<Rightarrow> (Some e', w') | (Inl _, w') \<Rightarrow> (None, w'))"
| "election_perform c (Stop e) w =
     (case run (fst c) (stop e) w of (Inr e', w') \<Rightarrow> (Some e', w') | (Inl _, w') \<Rightarrow> (None, w'))"
| "election_perform c (Elsewhere q) w = (None, snd (fst c q w))"

fun op_allowed :: "election_op \<Rightarrow> bool" where
  "op_allowed (Elsewhere q) \<longleftrightarrow> written_key q \<noteq> Some LEADER_KEY"
| "op_allowed _ \<longleftrightarrow> True"

definition lease_holder :: "'w services \<times> 'w view \<Rightarrow> 'w \<Rightarrow> time \<Rightarrow> rvalue option" where
  "lease_holder c w t = live_at (st_kv (snd c w)) t LEADER_KEY"

definition election_services :: "'w services \<times> 'w view \<Rightarrow> bool" where
  "election_services c \<longleftrightarrow> services_ok (fst c) (snd c)"

lemma lease_holder_some:
  "lease_holder c w t = Some v \<longleftrightarrow> (\<exists>d. st_kv (snd c w) LEADER_KEY = Some (v, d) \<and> t < d)"
  by (auto simp: lease_holder_def live_at_def split: option.splits)

lemma perform_forward:
  assumes svc: "services_ok (fst c) (snd c)" and run: "election_perform c op w = (r, w')"
  shows "lock_clock c w \<le> lock_clock c w'"
proof (cases op)
  case (Elsewhere q)
  obtain x u where "fst c q w = (x, u)" by fastforce
  with services_okD [OF svc this] run Elsewhere show ?thesis
    by (auto simp: lock_clock_def dest: call_effect_clock)
qed (use run in \<open>auto simp: lock_clock_def split: prod.splits sum.splits intro: run_clock [OF svc]\<close>)

lemma campaign_gained:
  assumes svc: "services_ok (fst c) (snd c)" and run: "election_perform c (Campaign e) w = (Some e', w')"
    and e: "\<not> el_stopped e" "el_leader e'" and t: "t < lock_clock c w + el_leaseTtlMs e"
  shows "lease_holder c w' t = Some (Plain (el_token e))"
proof -
  from run have "run (fst c) (campaign e) w = (Inr e', w')" by (auto split: prod.splits sum.splits)
  from campaign_run [OF svc e(1) this] obtain x u where
    u: "fst c (campaign_req e) w = (x, u)" "Inr e' = (Inr (e\<lparr>el_leader := campaign_won e x\<rparr>) :: election outcome)"
      "st_kv (snd c w') = st_kv (snd c u)" .
  with campaign_req_won [OF services_okD [OF svc u(1)]] e(2) t show ?thesis
    by (auto simp: lease_holder_some lock_clock_def)
qed

lemma campaign_blocked:
  assumes svc: "services_ok (fst c) (snd c)" and run: "election_perform c (Campaign e) w = (r, w')"
    and d: "st_kv (snd c w) LEADER_KEY = Some (Plain tok, d)" "st_clock (snd c w') < d" and other: "tok \<noteq> el_token e"
  shows "st_kv (snd c w') LEADER_KEY = st_kv (snd c w) LEADER_KEY \<and> elected [Campaign e] [r] = []"
proof (cases "el_stopped e")
  case True
  with run show ?thesis by (auto simp: campaign_def elected_none)
next
  case False
  obtain res where res: "run (fst c) (campaign e) w = (res, w')"
      "r = (case res of Inr e' \<Rightarrow> Some e' | Inl _ \<Rightarrow> None)"
    using run by (auto split: prod.splits sum.splits)
  from campaign_run [OF svc False res(1)] obtain x u where
    u: "fst c (campaign_req e) w = (x, u)" "res = Inr (e\<lparr>el_leader := campaign_won e x\<rparr>)"
      "st_kv (snd c w') = st_kv (snd c u)" "st_clock (snd c u) \<le> st_clock (snd c w')" .
  have "st_clock (snd c u) < d" using u(4) d(2) by simp
  from campaign_req_blocked [OF services_okD [OF svc u(1)] d(1) this other] u res(2) show ?thesis
    by (auto simp: elected_none)
qed

lemma perform_blocked:
  assumes svc: "services_ok (fst c) (snd c)" and run: "election_perform c op w = (r, w')" and allowed: "op_allowed op"
    and held: "lease_holder c w (lock_clock c w') = Some (Plain tok)" and other: "op_token op \<noteq> Some tok"
  shows "(\<forall>t \<ge> lock_clock c w'. lease_holder c w' t = lease_holder c w t) \<and> elected [op] [r] = []"
proof -
  from held obtain d where d: "st_kv (snd c w) LEADER_KEY = Some (Plain tok, d)" "st_clock (snd c w') < d"
    by (auto simp: lease_holder_some lock_clock_def)
  have "st_kv (snd c w') LEADER_KEY = st_kv (snd c w) LEADER_KEY \<and> elected [op] [r] = []"
  proof (cases op)
    case (Campaign e)
    with other have "tok \<noteq> el_token e" by auto
    from campaign_blocked [OF svc run [unfolded Campaign] d this] Campaign show ?thesis by simp
  next
    case (Stop e)
    then obtain res where res: "run (fst c) (stop e) w = (res, w')"
      using run by (auto split: prod.splits sum.splits)
    from stop_effect(2) [OF svc res d] other Stop show ?thesis by (auto simp: elected_none)
  next
    case (Elsewhere q)
    obtain x u where "fst c q w = (x, u)" by fastforce
    with call_effect_other_key [OF services_okD [OF svc this]] run Elsewhere allowed show ?thesis
      by (auto simp: elected_none)
  qed
  then show ?thesis by (simp add: lease_holder_def live_at_def)
qed

interpretation leader: lease election_services election_perform op_allowed lease_holder lock_clock
proof (unfold_locales, unfold election_services_def, goal_cases)
  case 1
  then show ?case by (rule campaign_gained)
next
  case 2
  then show ?case by (intro perform_blocked)
next
  case 3
  then show ?case by (rule perform_forward)
qed

text \<open>
  C6: at most one leader per lease. Once a campaign has made an instance leader, then until its lease
  time has passed since that campaign began, no campaign of any other instance ends as
  leader and the key stays with the winner, whatever the other instances and all other
  processes do in between, and even when calls fail or their replies are lost.
\<close>

theorem leader_exclusive_during_lease:
  assumes "services_ok svc V" "run svc (campaign e) w = (Inr e', w1)" "\<not> el_stopped e" "isLeader e'"
    "perform_all (election_perform (svc, V)) ops w1 = (rs, w2)"
    "st_clock (V w2) < st_clock (V w) + el_leaseTtlMs e"
    "\<forall>op \<in> set ops. op_allowed op \<and> op_token op \<noteq> Some (el_token e)"
  shows "elected ops rs = [] \<and> live (V w2) LEADER_KEY = Some (Plain (el_token e))"
proof -
  have "election_services (svc, V)" "election_perform (svc, V) (Campaign e) w = (Some e', w1)"
    "lock_clock (svc, V) w2 < lock_clock (svc, V) w + el_leaseTtlMs e"
    using assms(1,2,6) by (simp_all add: election_services_def lock_clock_def)
  from leader.leader_exclusive [OF this(1,2) assms(3) _ assms(5) this(3) assms(7)] assms(4) show ?thesis
    by (simp add: isLeader_def lease_holder_def lock_clock_def)
qed

definition sample_election :: "string \<Rightarrow> election" where
  "sample_election token = \<lparr>el_token = token, el_leaseTtlMs = 10000, el_leader = False, el_stopped = False\<rparr>"

lemma sample_campaign:
  "fst (run ref_svc (campaign (sample_election tok)) (ref_start [] 0 0)) = Inr ((sample_election tok)\<lparr>el_leader := True\<rparr>)"
  by (simp add: campaign_def setLeader_def sample_election_def run_bind run_try_catch prog_defs ref_eval)

lemma perform_all_instant:
  "rw_latency w = 0 \<Longrightarrow> rw_clock (snd (perform_all (election_perform (ref_svc, ref_view)) [Campaign e] w)) = rw_clock w"
  using ref_instant [of "\<lambda>_. False" "campaign e" w]
  by (cases "run ref_svc (campaign e) w") (auto simp: ref_svc_def split: sum.splits)

theorem leader_exclusive_during_lease_witness:
  "let w1 = snd (run ref_svc (campaign (sample_election ''a'')) (ref_start [] 0 0));
       (rs, w2) = perform_all (election_perform (ref_svc, ref_view)) [Campaign (sample_election ''b'')] w1
   in elected [Campaign (sample_election ''b'')] rs = [] \<and> live (ref_view w2) LEADER_KEY = Some (Plain ''a'')"
proof -
  let ?b = "[Campaign (sample_election ''b'')]"
  obtain w1 where w1: "run ref_svc (campaign (sample_election ''a'')) (ref_start [] 0 0) =
      (Inr ((sample_election ''a'')\<lparr>el_leader := True\<rparr>), w1)"
    using sample_campaign by (metis prod.collapse)
  obtain rs w2 where w2: "perform_all (election_perform (ref_svc, ref_view)) ?b w1 = (rs, w2)" by fastforce
  have w1': "rw_clock w1 = 0 \<and> rw_latency w1 = 0"
    using ref_instant [OF w1 [unfolded ref_svc_def]] by (simp add: ref_start_def)
  then have "rw_clock w2 = 0" using perform_all_instant [of w1 "sample_election ''b''"] w2 by simp
  then have "st_clock (ref_view w2) < st_clock (ref_view (ref_start [] 0 0)) + el_leaseTtlMs (sample_election ''a'')"
    by (simp add: ref_view_def ref_start_def sample_election_def)
  from leader_exclusive_during_lease [OF reliable_ok [OF ref_svc_reliable] w1 _ _ w2 this] w1 w2 show ?thesis
    by (simp add: sample_election_def isLeader_def)
qed

section \<open>Who wins\<close>

text \<open>
  The outcome of a campaign. With a valid lease time and answering services, a campaign
  never fails; a follower becomes leader exactly when no unexpired lease exists at the
  instant of its call, even one that carries its own token, and a leader stays leader exactly when
  its own token is still there. The winner's lease then runs for its full length from that
  instant; a loser changes nothing. So a follower takes over on its first campaign after
  the lease ends.
\<close>

theorem campaign_outcome:
  assumes "reliable svc V" "\<not> el_stopped e" "expiry_valid (PX_ms (el_leaseTtlMs e))"
    "run svc (campaign e) w = (res, w')"
  shows "\<exists>t. st_clock (V w) \<le> t \<and> t \<le> st_clock (V w') \<and>
    (let seen = live_at (st_kv (V w)) t LEADER_KEY;
         wins = (if isLeader e then seen = Some (Plain (el_token e)) else seen = None)
     in res = Inr (e\<lparr>el_leader := wins\<rparr>) \<and>
        st_kv (V w') = (if wins then (st_kv (V w))(LEADER_KEY \<mapsto> (Plain (el_token e), t + el_leaseTtlMs e))
          else st_kv (V w)))"
  by (rule wp_run [OF assms(1) _ assms(4)], cases "el_leader e")
    (use assms(2,3) in \<open>auto simp: campaign_def setLeader_def isLeader_def later_def Let_def
      dest: order_trans intro!: exI\<close>)

definition expired_lease :: "time \<Rightarrow> ref_world" where \<comment> \<open>a lease of a dead leader that ends at 5000\<close>
  "expired_lease t = (ref_start [] t 0)\<lparr>rw_kv := [LEADER_KEY \<mapsto> (Plain ''dead'', 5000)]\<rparr>"

theorem campaign_outcome_witness:
  "(\<exists>e. fst (run ref_svc (campaign (sample_election ''a'')) (expired_lease 4999)) = Inr e \<and> \<not> isLeader e) \<and>
   (\<exists>e. fst (run ref_svc (campaign (sample_election ''a'')) (expired_lease 5000)) = Inr e \<and> isLeader e)"
proof -
  have "\<exists>e. fst (run ref_svc (campaign (sample_election ''a'')) (expired_lease x)) = Inr e \<and> isLeader e = (5000 \<le> x)" for x
  proof -
    obtain res w' where run: "run ref_svc (campaign (sample_election ''a'')) (expired_lease x) = (res, w')" by fastforce
    have "rw_clock w' = x"
      using ref_instant [OF run [unfolded ref_svc_def]] by (simp add: expired_lease_def ref_start_def)
    moreover have "expiry_valid (PX_ms (el_leaseTtlMs (sample_election ''a'')))" by (simp add: sample_election_def)
    ultimately show ?thesis
      using campaign_outcome [OF ref_svc_reliable _ _ run] run
      by (auto simp: sample_election_def isLeader_def ref_view_def expired_lease_def ref_start_def live_at_def
          Let_def split: if_splits)
  qed
  from this [of 4999] this [of 5000] show ?thesis by simp
qed

text \<open>
  C25: a graceful stop hands the lease over. When a leader that still holds its lease stops, it gives up
  the lease and its flag, and the very next campaign of a running follower wins, without
  waiting for the lease time.
\<close>

theorem stop_hands_over:
  assumes "reliable svc V" "isLeader e" "live (V w) LEADER_KEY \<in> {None, Some (Plain (el_token e))}"
    "run svc (stop e) w = (stopped, w1)" "\<not> isLeader f" "\<not> el_stopped f" "expiry_valid (PX_ms (el_leaseTtlMs f))"
    "run svc (campaign f) w1 = (res, w2)"
  shows "stopped = Inr (e\<lparr>el_leader := False, el_stopped := True\<rparr>) \<and> res = Inr (f\<lparr>el_leader := True\<rparr>)"
proof -
  have dead: "live_at m t' k = None" if "live_at m t k = None" "t \<le> t'" for m t t' k
    using that by (auto simp: live_at_def split: option.splits if_splits)
  have held: "live_at m t' k \<in> {None, Some v}" if "live_at m t k \<in> {None, Some v}" "t \<le> t'" for m t t' k v
    using that by (auto simp: live_at_def split: option.splits if_splits)
  have one: "stopped = Inr (e\<lparr>el_leader := False, el_stopped := True\<rparr>) \<and> live (V w1) LEADER_KEY = None"
  proof (rule wp_run [OF assms(1) _ assms(4)])
    show "wp (stop e) (\<lambda>res s. res = Inr (e\<lparr>el_leader := False, el_stopped := True\<rparr>) \<and> live s LEADER_KEY = None) (V w)"
      using assms(2,3) held [OF assms(3)] by (auto simp: stop_def setLeader_def isLeader_def later_def Let_def intro: dead)
  qed
  have free: "live_at (st_kv (V w1)) t LEADER_KEY = None" if "st_clock (V w1) \<le> t" for t
    using conjunct2 [OF one] that by (rule dead)
  have "res = Inr (f\<lparr>el_leader := True\<rparr>)"
    using campaign_outcome [OF assms(1,6,7,8)] free assms(5) by (auto simp: Let_def)
  with one show ?thesis by simp
qed

theorem stop_hands_over_witness:
  "let (r, w1) = run ref_svc (stop ((sample_election ''dead'')\<lparr>el_leader := True\<rparr>)) (expired_lease 0)
   in fst (run ref_svc (campaign (sample_election ''a'')) w1) = Inr ((sample_election ''a'')\<lparr>el_leader := True\<rparr>)"
proof -
  let ?e = "(sample_election ''dead'')\<lparr>el_leader := True\<rparr>"
  obtain r w1 where stop: "run ref_svc (stop ?e) (expired_lease 0) = (r, w1)" by fastforce
  obtain res w2 where camp: "run ref_svc (campaign (sample_election ''a'')) w1 = (res, w2)" by fastforce
  have "live (ref_view (expired_lease 0)) LEADER_KEY \<in> {None, Some (Plain (el_token ?e))}"
    by (simp add: expired_lease_def ref_start_def ref_view_def live_at_def sample_election_def)
  from stop_hands_over [OF ref_svc_reliable _ this stop _ _ _ camp] stop camp show ?thesis
    by (simp add: isLeader_def sample_election_def)
qed

text \<open>The heartbeat leaves room for two missed renewals, and leader, lock and cache keys are distinct.\<close>

lemma heartbeat_within_lease:
  "eo_heartbeatMs opts = None \<Longrightarrow> 3 * election_heartbeat opts \<le> election_lease opts"
  by (simp add: election_heartbeat_def)

lemma leader_key_distinct: "LEADER_KEY \<noteq> jobLockKey j f" "LEADER_KEY \<noteq> jobConfigKey j"
  by (simp_all add: LEADER_KEY_def jobLockKey_def jobConfigKey_def)

end
