(* ===== verification/Ssrf.thy ===== *)
theory Ssrf
  imports Fault_Free Js_Number "HOL-Library.Word"
begin

text \<open>
  \<open>src/lib/ssrf.ts\<close>: the guard on user-supplied callback URLs. \<open>net.isIPv4\<close> and \<open>net.isIPv6\<close> of
  Node are modelled by parsers of the two notations, so that theorems can speak of addresses
  rather than of texts. \<open>new URL\<close> is a parameter: it gives the protocol (with its colon) and the
  host name, or fails. \<open>dns.lookup\<close> with \<open>all: true\<close> is the request \<open>DnsLookup\<close>.
\<close>

section \<open>\<open>net.isIPv4\<close> and \<open>net.isIPv6\<close>\<close>

definition octet :: "string \<Rightarrow> nat option" where
  "octet s =
     (if s \<noteq> [] \<and> length s \<le> 3 \<and> all_digits s \<and> string_to_nat s \<le> 255 \<and> (1 < length s \<longrightarrow> hd s \<noteq> CHR ''0'')
      then Some (string_to_nat s) else None)"

definition parse_ipv4 :: "string \<Rightarrow> (nat \<times> nat \<times> nat \<times> nat) option" where
  "parse_ipv4 s = (case map octet (split_on CHR ''.'' s) of
     [Some a, Some b, Some c, Some d] \<Rightarrow> Some (a, b, c, d)
   | _ \<Rightarrow> None)"

definition isIPv4 :: "string \<Rightarrow> bool" where
  "isIPv4 s \<longleftrightarrow> parse_ipv4 s \<noteq> None"

definition hextet :: "string \<Rightarrow> nat option" where
  "hextet s = (if s \<noteq> [] \<and> length s \<le> 4 then radix_val 16 0 s else None)"

text \<open>Colon-separated groups; where \<open>v4\<close> holds the last one may be an IPv4 address, two groups wide.\<close>

fun hextets :: "bool \<Rightarrow> string list \<Rightarrow> nat list option" where
  "hextets v4 [] = Some []"
| "hextets v4 [x] = (case hextet x of
     Some h \<Rightarrow> Some [h]
   | None \<Rightarrow> if v4 then map_option (\<lambda>(a, b, c, d). [256 * a + b, 256 * c + d]) (parse_ipv4 x) else None)"
| "hextets v4 (x # xs) = (case hextet x of
     None \<Rightarrow> None
   | Some h \<Rightarrow> map_option (Cons h) (hextets v4 xs))"

definition groups :: "bool \<Rightarrow> string \<Rightarrow> nat list option" where
  "groups v4 s = (if s = [] then Some [] else hextets v4 (split_on CHR '':'' s))"

text \<open>The text before and after the first double colon.\<close>

fun split_dcolon :: "string \<Rightarrow> (string \<times> string) option" where
  "split_dcolon (c # d # cs) =
     (if c = CHR '':'' \<and> d = CHR '':'' then Some ([], cs)
      else map_option (\<lambda>(a, b). (c # a, b)) (split_dcolon (d # cs)))"
| "split_dcolon _ = None"

definition zone_ok :: "string \<Rightarrow> bool" where \<comment> \<open>an optional zone, a percent sign and its name\<close>
  "zone_ok z \<longleftrightarrow> z = [] \<or> (tl z \<noteq> [] \<and> list_all (\<lambda>c. is_digit c \<or> c \<in> set ''-.:'' \<or>
     (97 \<le> (of_char (lower_char c) :: nat) \<and> (of_char (lower_char c) :: nat) \<le> 122)) (tl z))"

definition parse_ipv6 :: "string \<Rightarrow> nat list option" where
  "parse_ipv6 s =
     (let percent = CHR 0x25; addr = takeWhile (\<lambda>c. c \<noteq> percent) s; zone = dropWhile (\<lambda>c. c \<noteq> percent) s
      in if \<not> zone_ok zone then None
         else case split_dcolon addr of
           None \<Rightarrow> (case groups True addr of Some gs \<Rightarrow> if length gs = 8 then Some gs else None | None \<Rightarrow> None)
         | Some (l, r) \<Rightarrow> (case (groups False l, groups True r) of
             (Some gl, Some gr) \<Rightarrow> if length gl + length gr \<le> 7
               then Some (gl @ replicate (8 - (length gl + length gr)) 0 @ gr) else None
           | _ \<Rightarrow> None))"

definition isIPv6 :: "string \<Rightarrow> bool" where
  "isIPv6 s \<longleftrightarrow> parse_ipv6 s \<noteq> None"

section \<open>Private addresses\<close>

text \<open>The comparisons of JavaScript numbers with small constants that the code makes.\<close>

fun num_is :: "jsnum \<Rightarrow> int \<Rightarrow> bool" where
  "num_is (Fin x) k \<longleftrightarrow> x = of_int k"
| "num_is _ k \<longleftrightarrow> False"

fun num_ge :: "jsnum \<Rightarrow> int \<Rightarrow> bool" where
  "num_ge (Fin x) k \<longleftrightarrow> of_int k \<le> x"
| "num_ge PosInf k \<longleftrightarrow> True"
| "num_ge _ k \<longleftrightarrow> False"

fun num_le :: "jsnum \<Rightarrow> int \<Rightarrow> bool" where
  "num_le (Fin x) k \<longleftrightarrow> x \<le> of_int k"
| "num_le NegInf k \<longleftrightarrow> True"
| "num_le _ k \<longleftrightarrow> False"

definition isPrivateIPv4 :: "string \<Rightarrow> bool" where
  "isPrivateIPv4 ip =
     (let p = map js_Number (split_on CHR ''.'' ip) in
      if length p \<noteq> 4 \<or> NaN \<in> set p then True
      else let a = p ! 0; b = p ! 1 in
        if num_is a 10 then True
        else if num_is a 127 then True
        else if num_is a 0 then True
        else if num_is a 169 \<and> num_is b 254 then True
        else if num_is a 172 \<and> num_ge b 16 \<and> num_le b 31 then True
        else if num_is a 192 \<and> num_is b 168 then True
        else if num_is a 100 \<and> num_ge b 64 \<and> num_le b 127 then True
        else if num_ge a 224 then True
        else False)"

definition isPrivateIPv6 :: "string \<Rightarrow> bool" where
  "isPrivateIPv6 ip =
     (let lower = toLowerCase ip in
      if lower = ''::1'' \<or> lower = ''::'' then True
      else if startsWith lower ''fe80'' then True
      else if startsWith lower ''fc'' \<or> startsWith lower ''fd'' then True
      else if startsWith lower ''::ffff:'' then
        (let v4 = last (split_on CHR '':'' lower) in if isIPv4 v4 then isPrivateIPv4 v4 else False)
      else False)"

definition isPrivateAddress :: "string \<Rightarrow> bool" where
  "isPrivateAddress ip =
     (if isIPv4 ip then isPrivateIPv4 ip else if isIPv6 ip then isPrivateIPv6 ip else True)"

section \<open>The check of a URL\<close>

record ssrf_result =
  sr_ok :: bool
  sr_reason :: "string option"

type_synonym url_parser = "string \<Rightarrow> (string \<times> string) option" \<comment> \<open>protocol and host name\<close>

fun first_private :: "string list \<Rightarrow> string option" where \<comment> \<open>the loop over the addresses\<close>
  "first_private [] = None"
| "first_private (a # as) = (if isPrivateAddress a then Some a else first_private as)"

definition refused :: "string \<Rightarrow> ssrf_result" where
  "refused reason = \<lparr>sr_ok = False, sr_reason = Some reason\<rparr>"

definition assertSafeCallbackUrl :: "url_parser \<Rightarrow> string \<Rightarrow> bool \<Rightarrow> ssrf_result prog" where
  "assertSafeCallbackUrl parse rawUrl allowPrivate = (case parse rawUrl of
     None \<Rightarrow> Ret (refused ''invalid URL'')
   | Some (protocol, hostname) \<Rightarrow>
      if protocol \<noteq> ''http:'' \<and> protocol \<noteq> ''https:'' then Ret (refused (''unsupported scheme '' @ protocol))
      else if allowPrivate then Ret \<lparr>sr_ok = True, sr_reason = None\<rparr>
      else bind (try_catch (bind (call_addresses (DnsLookup hostname)) (\<lambda>as. Ret (Some as))) (\<lambda>_. Ret None)) (\<lambda>found.
        case found of
          None \<Rightarrow> Ret (refused ''host did not resolve'')
        | Some addresses \<Rightarrow>
           if addresses = [] then Ret (refused ''host did not resolve'')
           else case first_private addresses of
             Some a \<Rightarrow> Ret (refused (''resolves to private address '' @ a))
           | None \<Rightarrow> Ret \<lparr>sr_ok = True, sr_reason = None\<rparr>))"

section \<open>Octets are numbers\<close>

lemma octetD:
  assumes "octet s = Some a"
  shows "js_Number s = Fin (of_nat a)" "a \<le> 255"
  using assms js_Number_digits [of s] by (auto simp: octet_def split: if_splits)

lemma parse_ipv4D:
  assumes "parse_ipv4 s = Some (a, b, c, d)"
  obtains w x y z where "split_on CHR ''.'' s = [w, x, y, z]" "octet w = Some a" "octet x = Some b"
    "octet y = Some c" "octet z = Some d"
  using assms by (auto simp: parse_ipv4_def split: list.splits option.splits)

section \<open>The classification as CIDR blocks\<close>

definition ipv4_word :: "nat \<times> nat \<times> nat \<times> nat \<Rightarrow> 32 word" where
  "ipv4_word p = (case p of (a, b, c, d) \<Rightarrow> word_of_nat (a * 2 ^ 24 + b * 2 ^ 16 + c * 2 ^ 8 + d))"

definition in_cidr :: "32 word \<Rightarrow> (nat \<times> nat \<times> nat \<times> nat) \<times> nat \<Rightarrow> bool" where
  "in_cidr ip block = (case block of (net, len) \<Rightarrow> drop_bit (32 - len) ip = drop_bit (32 - len) (ipv4_word net))"

definition private_blocks :: "((nat \<times> nat \<times> nat \<times> nat) \<times> nat) list" where
  "private_blocks = [((10, 0, 0, 0), 8), ((127, 0, 0, 0), 8), ((0, 0, 0, 0), 8), ((169, 254, 0, 0), 16),
     ((172, 16, 0, 0), 12), ((192, 168, 0, 0), 16), ((100, 64, 0, 0), 10), ((224, 0, 0, 0), 3)]"

definition private_word :: "32 word \<Rightarrow> bool" where
  "private_word ip \<longleftrightarrow> list_ex (in_cidr ip) private_blocks"

lemma unat_ipv4_word:
  assumes "a \<le> 255" "b \<le> 255" "c \<le> 255" "d \<le> 255"
  shows "unat (ipv4_word (a, b, c, d)) = a * 2 ^ 24 + b * 2 ^ 16 + c * 2 ^ 8 + d"
proof -
  have "a * 2 ^ 24 + b * 2 ^ 16 + c * 2 ^ 8 + d < 2 ^ 32" using assms by simp
  then show ?thesis unfolding ipv4_word_def prod.case unat_of_nat by simp
qed

text \<open>Matching a block compares the leading bits of the two upper octets.\<close>

lemma in_cidr_octets:
  assumes "a \<le> 255" "b \<le> 255" "c \<le> 255" "d \<le> 255" "x \<le> 255" "y \<le> 255" "len \<le> 16"
  shows "in_cidr (ipv4_word (a, b, c, d)) ((x, y, 0, 0), len) \<longleftrightarrow>
    (256 * a + b) div 2 ^ (16 - len) = (256 * x + y) div 2 ^ (16 - len)"
proof -
  have top: "unat (ipv4_word (p, q, r, s)) div 2 ^ 16 = 256 * p + q"
    if "p \<le> 255" "q \<le> 255" "r \<le> 255" "s \<le> 255" for p q r s
    using that by (simp add: unat_ipv4_word)
  have "32 - len = 16 + (16 - len)" using assms(7) by simp
  then have split: "u div 2 ^ (32 - len) = u div 2 ^ 16 div 2 ^ (16 - len)" for u :: nat
    by (simp only: power_add div_mult2_eq)
  have "in_cidr (ipv4_word (a, b, c, d)) ((x, y, 0, 0), len) \<longleftrightarrow>
      unat (ipv4_word (a, b, c, d)) div 2 ^ (32 - len) = unat (ipv4_word (x, y, 0, 0)) div 2 ^ (32 - len)"
    by (simp only: in_cidr_def prod.case word_unat_eq_iff unat_drop_bit_eq) (simp add: drop_bit_eq_div)
  then show ?thesis by (simp only: split top [OF assms(1-4)] top [OF assms(5,6) le0 le0])
qed

lemma private_word_octets:
  assumes "a \<le> 255" "b \<le> 255" "c \<le> 255" "d \<le> 255"
  shows "private_word (ipv4_word (a, b, c, d)) \<longleftrightarrow>
    a = 10 \<or> a = 127 \<or> a = 0 \<or> (a = 169 \<and> b = 254) \<or> (a = 172 \<and> 16 \<le> b \<and> b \<le> 31) \<or>
    (a = 192 \<and> b = 168) \<or> (a = 100 \<and> 64 \<le> b \<and> b \<le> 127) \<or> 224 \<le> a"
proof -
  have div8: "(256 * a + b) div 256 = a" using assms by simp
  have "(256 * a + b) div 16 = 16 * a + b div 16" "(256 * a + b) div 64 = 4 * a + b div 64"
    "(256 * a + b) div 8192 = (256 * a + b) div 256 div 32"
    by (simp_all add: div_mult2_eq [symmetric])
  moreover have "16 * a + p = 2753 \<longleftrightarrow> a = 172 \<and> p = 1" if "p \<le> 15" for p :: nat
    using that by presburger
  moreover have "4 * a + p = 401 \<longleftrightarrow> a = 100 \<and> p = 1" if "p \<le> 3" for p :: nat
    using that by presburger
  moreover have "b div 16 \<le> 15" "b div 64 \<le> 3" using assms(2) by simp_all
  moreover have "b div 16 = 1 \<longleftrightarrow> 16 \<le> b \<and> b \<le> 31" "b div 64 = 1 \<longleftrightarrow> 64 \<le> b \<and> b \<le> 127" "a div 32 = 7 \<longleftrightarrow> 224 \<le> a"
    using assms(1) by auto
  moreover have "256 * a + b = 256 * x + y \<longleftrightarrow> a = x \<and> b = y" if "y \<le> 255" for x y
  proof
    assume eq: "256 * a + b = 256 * x + y"
    have "(256 * x + y) div 256 = x" using that by simp
    with eq div8 have "a = x" by simp
    with eq show "a = x \<and> b = y" by simp
  qed simp
  from this [of 254 169] this [of 168 192]
  have "256 * a + b = 43518 \<longleftrightarrow> a = 169 \<and> b = 254" "256 * a + b = 49320 \<longleftrightarrow> a = 192 \<and> b = 168"
    by simp_all
  ultimately show ?thesis
    using assms div8 by (simp add: private_word_def private_blocks_def in_cidr_octets)
qed

lemma isPrivateIPv4_cidr_lemma:
  assumes "parse_ipv4 s = Some (a, b, c, d)"
  shows "isPrivateIPv4 s = private_word (ipv4_word (a, b, c, d))"
proof -
  from parse_ipv4D [OF assms] obtain w x y z where
    s: "split_on CHR ''.'' s = [w, x, y, z]" "octet w = Some a" "octet x = Some b" "octet y = Some c" "octet z = Some d" .
  have "isPrivateIPv4 s \<longleftrightarrow>
    a = 10 \<or> a = 127 \<or> a = 0 \<or> (a = 169 \<and> b = 254) \<or> (a = 172 \<and> 16 \<le> b \<and> b \<le> 31) \<or>
    (a = 192 \<and> b = 168) \<or> (a = 100 \<and> 64 \<le> b \<and> b \<le> 127) \<or> 224 \<le> a"
    using s octetD(1) [OF s(2)] octetD(1) [OF s(3)] octetD(1) [OF s(4)] octetD(1) [OF s(5)]
    by (simp add: isPrivateIPv4_def Let_def)
  with s octetD(2) show ?thesis by (simp add: private_word_octets)
qed

text \<open>
  C33: \<open>isPrivateIPv4\<close> decides exactly the documented ranges. On every dotted-quad text, the code's tests on the
  numbers of the first two octets agree with membership of the 32-bit address in the CIDR
  blocks 10/8, 127/8, 0/8, 169.254/16, 172.16/12, 192.168/16, 100.64/10 and 224/3.
\<close>

theorem isPrivateIPv4_cidr:
  assumes "parse_ipv4 s = Some (a, b, c, d)"
  shows "isPrivateIPv4 s = private_word (ipv4_word (a, b, c, d))"
  using assms by (rule isPrivateIPv4_cidr_lemma)

theorem isPrivateIPv4_cidr_witness:
  "isPrivateIPv4 ''172.31.0.7'' = private_word (ipv4_word (172, 31, 0, 7))"
  by (rule isPrivateIPv4_cidr) code_simp

section \<open>What an accepted URL means\<close>

lemma first_private_none: "first_private as = None \<longleftrightarrow> (\<forall>a \<in> set as. \<not> isPrivateAddress a)"
  by (induction as) auto

lemma public_ipv4:
  "\<not> isPrivateAddress s \<Longrightarrow> isIPv4 s \<Longrightarrow> \<exists>p. parse_ipv4 s = Some p \<and> \<not> private_word (ipv4_word p)"
  using isPrivateIPv4_cidr_lemma by (fastforce simp: isPrivateAddress_def isIPv4_def)


definition one_host :: url_parser where \<comment> \<open>a parser that knows one URL\<close>
  "one_host raw = (if raw = ''https://example.com/hook'' then Some (''https:'', ''example.com'') else None)"


lemmas parse_ip_defs = parse_ipv6_def parse_ipv4_def octet_def Let_def zone_ok_def groups_def hextet_def
  radix_digit_def is_digit_def lower_char_def digit_val_def all_digits_def string_to_nat_def

lemma replicate_5_6_7: "replicate 5 x = [x, x, x, x, x]" "replicate 6 x = [x, x, x, x, x, x]"
  "replicate 7 x = [x, x, x, x, x, x, x]"
  by (simp_all add: eval_nat_numeral)

text \<open>
  The IPv6 classification looks at the spelling of an address. The two texts of one IPv4-mapped loopback
  address, and the two texts of the loopback address, parse to the same address and are
  classified differently; and an address of the link-local block fe80::/10 outside
  fe80::/16 counts as public.
\<close>

theorem isPrivateIPv6_spelling:
  "parse_ipv6 ''::ffff:127.0.0.1'' = parse_ipv6 ''::ffff:7f00:1'' \<and>
   isPrivateAddress ''::ffff:127.0.0.1'' \<and> \<not> isPrivateAddress ''::ffff:7f00:1'' \<and>
   parse_ipv6 ''::1'' = parse_ipv6 ''0:0:0:0:0:0:0:1'' \<and>
   isPrivateAddress ''::1'' \<and> \<not> isPrivateAddress ''0:0:0:0:0:0:0:1'' \<and>
   map_option (\<lambda>g. hd g div 64) (parse_ipv6 ''febf::1'') = map_option (\<lambda>g. hd g div 64) (parse_ipv6 ''fe80::1'') \<and>
   isPrivateAddress ''fe80::1'' \<and> \<not> isPrivateAddress ''febf::1''"
proof -
  have v4: "parse_ipv4 ''127.0.0.1'' = Some (127, 0, 0, 1)" by (simp add: parse_ip_defs)
  have mapped: "isPrivateIPv6 ''::ffff:127.0.0.1''"
    by (simp add: isPrivateIPv6_def toLowerCase_def lower_char_def startsWith_def isIPv4_def v4
        isPrivateIPv4_cidr_lemma private_word_octets)
  have v6: "parse_ipv6 ''::ffff:127.0.0.1'' = Some [0, 0, 0, 0, 0, 65535, 32512, 1]"
    "parse_ipv6 ''::ffff:7f00:1'' = Some [0, 0, 0, 0, 0, 65535, 32512, 1]"
    "parse_ipv6 ''::1'' = Some [0, 0, 0, 0, 0, 0, 0, 1]" "parse_ipv6 ''0:0:0:0:0:0:0:1'' = Some [0, 0, 0, 0, 0, 0, 0, 1]"
    "parse_ipv6 ''febf::1'' = Some [65215, 0, 0, 0, 0, 0, 0, 1]" "parse_ipv6 ''fe80::1'' = Some [65152, 0, 0, 0, 0, 0, 0, 1]"
    by (simp_all add: parse_ip_defs replicate_5_6_7)
  have not_v4: "\<not> isIPv4 ''::ffff:127.0.0.1''" "\<not> isIPv4 ''::ffff:7f00:1''" "\<not> isIPv4 ''::1''" "\<not> isIPv4 ''0:0:0:0:0:0:0:1''"
    "\<not> isIPv4 ''febf::1''" "\<not> isIPv4 ''fe80::1''" "\<not> isIPv4 ''1''"
    by (simp_all add: isIPv4_def parse_ip_defs)
  show ?thesis
    using mapped not_v4
    by (simp add: isPrivateAddress_def isIPv6_def v6 isPrivateIPv6_def toLowerCase_def lower_char_def startsWith_def)
qed

end
