(* ===== verification/Job_Service.thy ===== *)
theory Job_Service
  imports Cron_Utils Job_Cache Ssrf Reference_Services
begin

text \<open>
  \<open>src/services/job.service.ts\<close>: creating, reading, updating and deleting jobs, with the Redis cache of job
  rows kept in step. \<open>UpdateJobInput\<close> is a \<open>job_patch\<close> that leaves the dead streak alone.
\<close>

definition ensureSafeCallback :: "url_parser \<Rightarrow> env \<Rightarrow> string \<Rightarrow> unit prog" where
  "ensureSafeCallback parse cfg url =
     bind (assertSafeCallbackUrl parse url (CRONHIVE_ALLOW_PRIVATE_CALLBACKS cfg)) (\<lambda>result.
     if sr_ok result then Ret ()
     else Throw (UnsafeCallbackUrlError (''Unsafe callback URL: '' @ option_get_or (sr_reason result) ''rejected'')))"

record create_input =
  ci_name :: string
  ci_cronExpression :: string
  ci_callbackUrl :: string
  ci_maxRetries :: int
  ci_backoffMs :: int
  ci_timezone :: "string option"
  ci_enabled :: "bool option"
  ci_paused :: "bool option"
  ci_callbackTimeoutMs :: "int option"

definition create_data :: "env \<Rightarrow> create_input \<Rightarrow> job_data" where
  "create_data cfg i = \<lparr>jd_name = ci_name i, jd_cronExpression = ci_cronExpression i,
     jd_callbackUrl = ci_callbackUrl i, jd_timezone = option_get_or (ci_timezone i) ''UTC'',
     jd_maxRetries = ci_maxRetries i, jd_backoffMs = ci_backoffMs i,
     jd_callbackTimeoutMs = option_get_or (ci_callbackTimeoutMs i) (DEFAULT_CALLBACK_TIMEOUT_MS cfg),
     jd_enabled = option_get_or (ci_enabled i) True, jd_paused = option_get_or (ci_paused i) False\<rparr>"

definition createJob :: "cron_parser \<Rightarrow> url_parser \<Rightarrow> env \<Rightarrow> create_input \<Rightarrow> job prog" where
  "createJob cp parse cfg i =
     bind (assertValidCron cp (ci_cronExpression i) (option_get_or (ci_timezone i) ''UTC'')) (\<lambda>_.
     bind (ensureSafeCallback parse cfg (ci_callbackUrl i)) (\<lambda>_.
     bind (call_job (JobCreate (create_data cfg i))) (\<lambda>job.
     bind (cacheJobConfig job) (\<lambda>_. Ret job))))"

definition getJobById :: "string \<Rightarrow> job option prog" where
  "getJobById i = call_job_opt (JobFindUnique i)"

definition listJobs :: "job list prog" where
  "listJobs = call_jobs (JobFindMany NewestFirst)"

text \<open>The checks before the update: \<open>Some ()\<close> when they pass, \<open>None\<close> when the job is missing.\<close>

definition check_cron :: "cron_parser \<Rightarrow> string \<Rightarrow> job_patch \<Rightarrow> unit option prog" where
  "check_cron cp i p =
     (if jp_cronExpression p \<noteq> None \<or> jp_timezone p \<noteq> None
      then bind (call_job_opt (JobFindUnique i)) (\<lambda>existing.
        case existing of
          None \<Rightarrow> Ret None
        | Some e \<Rightarrow>
            bind (assertValidCron cp (option_get_or (jp_cronExpression p) (cronExpression e))
              (option_get_or (jp_timezone p) (timezone e))) (\<lambda>_. Ret (Some ())))
      else Ret (Some ()))"

definition write_job :: "string \<Rightarrow> job_patch \<Rightarrow> job option prog" where
  "write_job i p =
     try_catch
       (bind (call_job (JobUpdate i p)) (\<lambda>job.
        bind (invalidateJobConfig i) (\<lambda>_.
        bind (cacheJobConfig job) (\<lambda>_. Ret (Some job)))))
       (\<lambda>_. Ret None)"

definition updateJob :: "cron_parser \<Rightarrow> url_parser \<Rightarrow> env \<Rightarrow> string \<Rightarrow> job_patch \<Rightarrow> job option prog" where
  "updateJob cp parse cfg i p =
     bind (check_cron cp i p) (\<lambda>ok.
     case ok of
       None \<Rightarrow> Ret None
     | Some _ \<Rightarrow>
        bind (case jp_callbackUrl p of None \<Rightarrow> Ret () | Some url \<Rightarrow> ensureSafeCallback parse cfg url) (\<lambda>_.
        write_job i p))"

definition deleteJob :: "string \<Rightarrow> bool prog" where
  "deleteJob i =
     try_catch
       (bind (call_unit (JobDelete i)) (\<lambda>_. bind (invalidateJobConfig i) (\<lambda>_. Ret True)))
       (\<lambda>_. Ret False)"

definition setPaused :: "cron_parser \<Rightarrow> url_parser \<Rightarrow> env \<Rightarrow> string \<Rightarrow> bool \<Rightarrow> job option prog" where
  "setPaused cp parse cfg i b = updateJob cp parse cfg i (no_job_patch\<lparr>jp_paused := Some b\<rparr>)"

text \<open>
  \<open>Promise.all(xs.map(f))\<close>: every call is made, in the order of the list on the one connection; the
  whole rejects when one of them does.
\<close>

definition attempt :: "'a prog \<Rightarrow> 'a outcome prog" where
  "attempt p = try_catch (bind p (\<lambda>a. Ret (Inr a))) (\<lambda>e. Ret (Inl e))"

fun promise_all :: "('a \<Rightarrow> unit prog) \<Rightarrow> 'a list \<Rightarrow> unit prog" where
  "promise_all f [] = Ret ()"
| "promise_all f (x # xs) =
     bind (attempt (f x)) (\<lambda>r. bind (attempt (promise_all f xs)) (\<lambda>rs.
       case r of Inl e \<Rightarrow> Throw e | Inr _ \<Rightarrow> (case rs of Inl e \<Rightarrow> Throw e | Inr _ \<Rightarrow> Ret ())))"

definition bulkSetEnabled :: "string list \<Rightarrow> bool \<Rightarrow> int prog" where
  "bulkSetEnabled ids b =
     bind (call_int (JobUpdateMany ids b)) (\<lambda>count.
     bind (promise_all invalidateJobConfig ids) (\<lambda>_. Ret count))"

section \<open>Fault-free runs\<close>

text \<open>The check of a URL reads only the name service.\<close>

lemma wp_ensureSafeCallback:
  assumes "\<And>t. st_clock s \<le> t \<Longrightarrow> Q (Inr ()) (s\<lparr>st_clock := t\<rparr>)"
    "\<And>t m. st_clock s \<le> t \<Longrightarrow> Q (Inl (UnsafeCallbackUrlError m)) (s\<lparr>st_clock := t\<rparr>)"
  shows "wp (ensureSafeCallback parse cfg url) Q s"
proof -
  have now: "Q (Inr ()) s" "Q (Inl (UnsafeCallbackUrlError m)) s" for m
    using assms(1) [of "st_clock s"] assms(2) [of "st_clock s" m] by simp_all
  show ?thesis
    using assms now
    by (auto simp: ensureSafeCallback_def assertSafeCallbackUrl_def refused_def later_def split: option.split)
qed

lemma wp_assertValidCron [simp]:
  "wp (assertValidCron cp e tz) Q s =
     (case cp_parse cp e (tz_or_utc tz) of Some x \<Rightarrow> Q (Inl x) s | None \<Rightarrow> Q (Inr ()) s)"
  by (simp add: assertValidCron_def split: option.split)

text \<open>Every unexpired cached row is the row in the table.\<close>

definition cache_coherent :: "store \<Rightarrow> bool" where
  "cache_coherent s \<longleftrightarrow> (\<forall>i j d. st_kv s (jobConfigKey i) = Some (JobJson j, d) \<longrightarrow> st_clock s < d \<longrightarrow> st_jobs s i = Some j)"

lemma cache_coherent_cached: "cache_coherent s \<Longrightarrow> cached_job s i = Some j \<Longrightarrow> st_jobs s i = Some j"
  by (auto simp: cache_coherent_def cached_job_def parse_cached_def live_at_def split: option.splits if_splits rvalue.splits)

lemma cache_coherentI:
  assumes "cache_coherent s" "st_clock s \<le> st_clock s'"
    "\<And>i. i \<notin> I \<Longrightarrow> st_jobs s' i = st_jobs s i \<and> st_kv s' (jobConfigKey i) = st_kv s (jobConfigKey i)"
    "\<And>i j d. i \<in> I \<Longrightarrow> st_kv s' (jobConfigKey i) = Some (JobJson j, d) \<Longrightarrow> st_clock s' < d \<Longrightarrow> st_jobs s' i = Some j"
  shows "cache_coherent s'"
  unfolding cache_coherent_def
proof (intro allI impI)
  fix i j d
  assume j: "st_kv s' (jobConfigKey i) = Some (JobJson j, d)" "st_clock s' < d"
  show "st_jobs s' i = Some j"
  proof (cases "i \<in> I")
    case False
    with assms(3) j have "st_kv s (jobConfigKey i) = Some (JobJson j, d)" "st_jobs s' i = st_jobs s i" by auto
    with assms(1,2) j(2) show ?thesis unfolding cache_coherent_def by fastforce
  qed (use assms(4) j in blast)
qed

definition without_keys :: "string list \<Rightarrow> (string \<Rightarrow> (rvalue \<times> time) option) \<Rightarrow> string \<Rightarrow> (rvalue \<times> time) option" where
  "without_keys ids m = (\<lambda>k. if k \<in> jobConfigKey ` set ids then None else m k)"

lemma wp_promise_all_invalidate:
  assumes "\<And>s'. st_clock s \<le> st_clock s' \<Longrightarrow> st_kv s' = without_keys ids (st_kv s) \<Longrightarrow>
      s'\<lparr>st_kv := st_kv s, st_clock := st_clock s\<rparr> = s \<Longrightarrow> Q (Inr ()) s'"
  shows "wp (promise_all invalidateJobConfig ids) Q s"
  using assms
proof (induction ids arbitrary: s Q)
  case Nil
  then show ?case by (simp add: without_keys_def)
next
  case (Cons i ids)
  have "wp (promise_all invalidateJobConfig ids) (\<lambda>res s'. res = Inr () \<and> Q (Inr ()) s')
      (s\<lparr>st_clock := t, st_kv := (st_kv s)(jobConfigKey i := None)\<rparr>)" if t: "st_clock s \<le> t" for t
  proof (rule Cons.IH, intro conjI refl Cons.prems)
    fix s'
    let ?s = "s\<lparr>st_clock := t, st_kv := (st_kv s)(jobConfigKey i := None)\<rparr>"
    assume s': "st_clock ?s \<le> st_clock s'" "st_kv s' = without_keys ids (st_kv ?s)"
      "s'\<lparr>st_kv := st_kv ?s, st_clock := st_clock ?s\<rparr> = ?s"
    show "st_clock s \<le> st_clock s'" using s'(1) t by simp
    show "st_kv s' = without_keys (i # ids) (st_kv s)" using s'(2) by (auto simp: without_keys_def)
    show "s'\<lparr>st_kv := st_kv s, st_clock := st_clock s\<rparr> = s"
      using arg_cong [OF s'(3), of "\<lambda>x. x\<lparr>st_kv := st_kv s, st_clock := st_clock s\<rparr>"] by simp
  qed
  note rest = this [THEN wp_mono]
  show ?case
    unfolding promise_all.simps attempt_def by (auto simp: later_def intro!: rest)
qed

section \<open>Updating\<close>

definition new_cron_error :: "cron_parser \<Rightarrow> job_patch \<Rightarrow> job \<Rightarrow> err option" where
  "new_cron_error cp p old =
     (if jp_cronExpression p \<noteq> None \<or> jp_timezone p \<noteq> None
      then cp_parse cp (option_get_or (jp_cronExpression p) (cronExpression old))
        (tz_or_utc (option_get_or (jp_timezone p) (timezone old)))
      else None)"

definition update_effect :: "cron_parser \<Rightarrow> string \<Rightarrow> job_patch \<Rightarrow> store \<Rightarrow> job option outcome \<Rightarrow> store \<Rightarrow> bool" where
  "update_effect cp i p s res s' \<longleftrightarrow>
     st_clock s \<le> st_clock s' \<and> st_execs s' = st_execs s \<and> st_ids s' = st_ids s \<and> st_queue s' = st_queue s \<and>
     (case res of
        Inr (Some j) \<Rightarrow> (\<exists>old t d. st_jobs s i = Some old \<and> new_cron_error cp p old = None \<and>
          st_clock s \<le> t \<and> t \<le> st_clock s' \<and> j = (apply_job_patch p old)\<lparr>updatedAt := t\<rparr> \<and>
          st_jobs s' = (st_jobs s)(i \<mapsto> j) \<and> st_kv s' = (st_kv s)(jobConfigKey i \<mapsto> (JobJson j, d)))
      | Inr None \<Rightarrow> st_jobs s i = None \<and> st_jobs s' = st_jobs s \<and> st_kv s' = st_kv s
      | Inl e \<Rightarrow> st_jobs s' = st_jobs s \<and> st_kv s' = st_kv s \<and>
          ((\<exists>m. e = UnsafeCallbackUrlError m \<and> jp_callbackUrl p \<noteq> None) \<or>
           (\<exists>old. st_jobs s i = Some old \<and> new_cron_error cp p old = Some e)))"

lemma write_job_wp:
  assumes "\<And>old. st_jobs u i = Some old \<Longrightarrow> job_id old = i \<and> new_cron_error cp p old = None"
    "st_clock s \<le> st_clock u" "u\<lparr>st_clock := st_clock s\<rparr> = s"
  shows "wp (write_job i p) (update_effect cp i p s) u"
proof -
  have same: "st_jobs u = st_jobs s" "st_kv u = st_kv s" "st_execs u = st_execs s" "st_ids u = st_ids s" "st_queue u = st_queue s"
    using arg_cong [OF assms(3), of st_jobs] arg_cong [OF assms(3), of st_kv] arg_cong [OF assms(3), of st_execs]
      arg_cong [OF assms(3), of st_ids] arg_cong [OF assms(3), of st_queue] by simp_all
  show ?thesis
  proof (cases "st_jobs u i")
    case None
    then show ?thesis
      using assms(2) same by (auto simp: write_job_def later_def update_effect_def)
  next
    case (Some old)
    with assms(1) have "job_id old = i" "new_cron_error cp p old = None" by simp_all
    with Some same assms(2) show ?thesis
      apply (auto simp: write_job_def later_def update_effect_def patched_job_def)
      subgoal for t ta tb by (rule exI [of _ t]) auto
      done
  qed
qed

lemma updateJob_wp:
  assumes "tables_wf s"
  shows "wp (updateJob cp parse cfg i p) (update_effect cp i p s) s"
proof -
  have ids: "job_id old = i" if "st_jobs s i = Some old" for old
    using assms that by (auto simp: tables_wf_def)
  have rest: "wp (bind (case jp_callbackUrl p of None \<Rightarrow> Ret () | Some url \<Rightarrow> ensureSafeCallback parse cfg url) (\<lambda>_. write_job i p))
      (update_effect cp i p s) (s\<lparr>st_clock := t\<rparr>)"
    if t: "st_clock s \<le> t" and ok: "\<And>old. st_jobs s i = Some old \<Longrightarrow> new_cron_error cp p old = None" for t
  proof (cases "jp_callbackUrl p")
    case None
    then show ?thesis using t ok ids by (auto intro!: write_job_wp)
  next
    case (Some url)
    show ?thesis unfolding wp_bind Some option.case
      using t ok ids Some by (intro wp_ensureSafeCallback) (auto simp: update_effect_def intro!: write_job_wp)
  qed
  define tail where "tail = bind (case jp_callbackUrl p of None \<Rightarrow> Ret () | Some url \<Rightarrow> ensureSafeCallback parse cfg url) (\<lambda>_. write_job i p)"
  show ?thesis
  proof (cases "jp_cronExpression p \<noteq> None \<or> jp_timezone p \<noteq> None")
    case True
    have "wp (check_cron cp i p) (\<lambda>res u. case res of Inl e \<Rightarrow> update_effect cp i p s (Inl e) u
        | Inr a \<Rightarrow> wp (case a of None \<Rightarrow> Ret None | Some _ \<Rightarrow> tail) (update_effect cp i p s) u) s"
      using True rest ids unfolding tail_def [symmetric]
      by (auto simp: check_cron_def later_def update_effect_def new_cron_error_def split: option.split)
    then show ?thesis unfolding updateJob_def tail_def wp_bind .
  next
    case False
    then have "wp (check_cron cp i p) (\<lambda>res u. case res of Inl e \<Rightarrow> update_effect cp i p s (Inl e) u
        | Inr a \<Rightarrow> wp (case a of None \<Rightarrow> Ret None | Some _ \<Rightarrow> tail) (update_effect cp i p s) u) s"
      using rest [of "st_clock s"] ids unfolding tail_def [symmetric]
      by (auto simp: check_cron_def new_cron_error_def)
    then show ?thesis unfolding updateJob_def tail_def wp_bind .
  qed
qed

section \<open>Creating, deleting, switching many\<close>

definition create_effect :: "env \<Rightarrow> create_input \<Rightarrow> store \<Rightarrow> job outcome \<Rightarrow> store \<Rightarrow> bool" where
  "create_effect cfg ci s res s' \<longleftrightarrow>
     st_clock s \<le> st_clock s' \<and> st_execs s' = st_execs s \<and> st_queue s' = st_queue s \<and>
     (case res of
        Inr j \<Rightarrow> job_id j \<notin> st_ids s \<and> st_ids s' = insert (job_id j) (st_ids s) \<and>
          (\<exists>t d. st_clock s \<le> t \<and> job_inserted (create_data cfg ci) j (s\<lparr>st_clock := t\<rparr>) (s'\<lparr>st_kv := st_kv s, st_clock := t\<rparr>) \<and>
            st_kv s' = (st_kv s)(jobConfigKey (job_id j) \<mapsto> (JobJson j, d)))
      | Inl e \<Rightarrow> s'\<lparr>st_clock := st_clock s\<rparr> = s)"

lemma createJob_wp: "wp (createJob cp parse cfg ci) (create_effect cfg ci s) s"
proof -
  have "wp (bind (call_job (JobCreate (create_data cfg ci))) (\<lambda>job. bind (cacheJobConfig job) (\<lambda>_. Ret job)))
      (create_effect cfg ci s) (s\<lparr>st_clock := t\<rparr>)" if "st_clock s \<le> t" for t
    using that
    apply (auto simp: later_def create_effect_def job_inserted_def)
    subgoal for ta j taa
      by (rule exI [of _ ta], intro conjI, simp, assumption, rule exI [of _ "taa + 3600000"], rule refl)
    done
  then have "wp (bind (ensureSafeCallback parse cfg (ci_callbackUrl ci))
        (\<lambda>_. bind (call_job (JobCreate (create_data cfg ci))) (\<lambda>job. bind (cacheJobConfig job) (\<lambda>_. Ret job))))
      (create_effect cfg ci s) s"
    unfolding wp_bind [of "ensureSafeCallback parse cfg (ci_callbackUrl ci)"]
    by (intro wp_ensureSafeCallback) (simp_all add: create_effect_def)
  then show ?thesis
    unfolding createJob_def by (simp add: create_effect_def split: option.split del: wp_lookups wp_fresh)
qed

definition delete_effect :: "string \<Rightarrow> store \<Rightarrow> bool outcome \<Rightarrow> store \<Rightarrow> bool" where
  "delete_effect i s res s' \<longleftrightarrow>
     st_clock s \<le> st_clock s' \<and> st_ids s' = st_ids s \<and> st_queue s' = st_queue s \<and>
     res = Inr (st_jobs s i \<noteq> None) \<and> st_jobs s' = (st_jobs s)(i := None) \<and>
     (if st_jobs s i = None then st_execs s' = st_execs s \<and> st_kv s' = st_kv s
      else st_execs s' = st_execs (delete_job i s) \<and> st_kv s' = (st_kv s)(jobConfigKey i := None))"

lemma deleteJob_wp: "wp (deleteJob i) (delete_effect i s) s"
  by (cases "st_jobs s i") (auto simp: deleteJob_def later_def delete_effect_def delete_job_def)

definition bulk_effect :: "string list \<Rightarrow> bool \<Rightarrow> store \<Rightarrow> int outcome \<Rightarrow> store \<Rightarrow> bool" where
  "bulk_effect ids b s res s' \<longleftrightarrow>
     st_clock s \<le> st_clock s' \<and> st_ids s' = st_ids s \<and> st_queue s' = st_queue s \<and> st_execs s' = st_execs s \<and>
     res = Inr (int (card {i \<in> set ids. st_jobs s i \<noteq> None})) \<and>
     (\<exists>t. st_jobs s' = st_jobs (enable_jobs ids b (s\<lparr>st_clock := t\<rparr>))) \<and> st_kv s' = without_keys ids (st_kv s)"

lemma bulkSetEnabled_wp: "wp (bulkSetEnabled ids b) (bulk_effect ids b s) s"
proof -
  let ?n = "int (card {i \<in> set ids. st_jobs s i \<noteq> None})"
  have "wp (promise_all invalidateJobConfig ids) (\<lambda>res s'. case res of Inl e \<Rightarrow> bulk_effect ids b s (Inl e) s'
      | Inr _ \<Rightarrow> bulk_effect ids b s (Inr ?n) s') (enable_jobs ids b (s\<lparr>st_clock := t\<rparr>))" if t: "st_clock s \<le> t" for t
  proof (rule wp_promise_all_invalidate)
    fix s'
    let ?s = "enable_jobs ids b (s\<lparr>st_clock := t\<rparr>)"
    assume A: "st_clock ?s \<le> st_clock s'" "st_kv s' = without_keys ids (st_kv ?s)"
      "s'\<lparr>st_kv := st_kv ?s, st_clock := st_clock ?s\<rparr> = ?s"
    have "st_jobs s' = st_jobs ?s" "st_ids s' = st_ids ?s" "st_execs s' = st_execs ?s" "st_queue s' = st_queue ?s"
      using arg_cong [OF A(3), of st_jobs] arg_cong [OF A(3), of st_ids] arg_cong [OF A(3), of st_execs]
        arg_cong [OF A(3), of st_queue] by simp_all
    with A t show "case Inr () of Inl e \<Rightarrow> bulk_effect ids b s (Inl e) s' | Inr _ \<Rightarrow> bulk_effect ids b s (Inr ?n) s'"
      by (auto simp: bulk_effect_def enable_jobs_def)
  qed
  note rest = this [THEN wp_mono]
  show ?thesis
    by (auto simp: bulkSetEnabled_def later_def intro!: rest split: sum.splits)
qed

section \<open>The cache follows the table\<close>

datatype job_op = CreateOp create_input | UpdateOp string job_patch | DeleteOp string | PauseOp string bool
  | BulkOp "string list" bool

fun job_op_prog :: "cron_parser \<Rightarrow> url_parser \<Rightarrow> env \<Rightarrow> job_op \<Rightarrow> unit prog" where
  "job_op_prog cp parse cfg (CreateOp ci) = bind (createJob cp parse cfg ci) (\<lambda>_. Ret ())"
| "job_op_prog cp parse cfg (UpdateOp i p) = bind (updateJob cp parse cfg i p) (\<lambda>_. Ret ())"
| "job_op_prog cp parse cfg (DeleteOp i) = bind (deleteJob i) (\<lambda>_. Ret ())"
| "job_op_prog cp parse cfg (PauseOp i b) = bind (setPaused cp parse cfg i b) (\<lambda>_. Ret ())"
| "job_op_prog cp parse cfg (BulkOp ids b) = bind (bulkSetEnabled ids b) (\<lambda>_. Ret ())"

lemma wp_unit_result:
  "wp p (\<lambda>_ s'. P s') s \<Longrightarrow> wp (bind p (\<lambda>_. Ret ())) (\<lambda>_ s'. P s') s"
  by (auto elim!: wp_mono split: sum.split)

lemma update_coherent:
  assumes "cache_coherent s" "update_effect cp i p s res s'"
  shows "cache_coherent s'"
proof (rule cache_coherentI [of s s' "{i}"])
  show "st_jobs s' k = st_jobs s k \<and> st_kv s' (jobConfigKey k) = st_kv s (jobConfigKey k)" if "k \<notin> {i}" for k
    using assms(2) that by (auto simp: update_effect_def split: sum.splits option.splits)
  show "st_jobs s' k = Some j" if "k \<in> {i}" "st_kv s' (jobConfigKey k) = Some (JobJson j, d)" "st_clock s' < d" for k j d
    using assms that by (auto simp: update_effect_def cache_coherent_def split: sum.splits option.splits)
qed (use assms in \<open>simp_all add: update_effect_def\<close>)

lemma create_coherent:
  assumes "cache_coherent s" "tables_wf s" "create_effect cfg ci s res s'"
  shows "cache_coherent s'"
proof (cases res)
  case (Inl e)
  with assms(3) have "s'\<lparr>st_clock := st_clock s\<rparr> = s" "st_clock s \<le> st_clock s'" by (simp_all add: create_effect_def)
  then have "st_jobs s' = st_jobs s" "st_kv s' = st_kv s"
    by (metis store.select_convs store.surjective store.update_convs(11))+
  with assms(1) \<open>st_clock s \<le> st_clock s'\<close> show ?thesis by (auto simp: cache_coherent_def)
next
  case (Inr j)
  with assms(3) have j: "st_jobs s' = (st_jobs s)(job_id j \<mapsto> j)" "\<exists>d. st_kv s' = (st_kv s)(jobConfigKey (job_id j) \<mapsto> (JobJson j, d))"
    by (auto simp: create_effect_def job_inserted_def dest: arg_cong [of _ _ st_jobs])
  then show ?thesis
    using assms(1,3) by (intro cache_coherentI [of s s' "{job_id j}"]) (auto simp: create_effect_def)
qed

lemma delete_coherent:
  "cache_coherent s \<Longrightarrow> delete_effect i s res s' \<Longrightarrow> cache_coherent s'"
  by (rule cache_coherentI [of s s' "if st_jobs s i = None then {} else {i}"])
    (auto simp: delete_effect_def split: if_splits)

lemma bulk_coherent:
  assumes "cache_coherent s" "bulk_effect ids b s res s'"
  shows "cache_coherent s'"
  by (rule cache_coherentI [of s s' "set ids"])
    (use assms in \<open>auto simp: bulk_effect_def enable_jobs_def without_keys_def\<close>)

text \<open>
  C9: the job service keeps the Redis cache coherent with the table. If every unexpired cached row equals
  the stored row, it still does after any operation of the service in a fault-free run: create, update,
  delete, pause, resume and the bulk switch.
\<close>

theorem job_service_cache_coherent:
  assumes "reliable svc V" "tables_wf (V w)" "cache_coherent (V w)" "run svc (job_op_prog cp parse cfg op) w = (res, w')"
  shows "cache_coherent (V w')"
proof -
  have "wp (job_op_prog cp parse cfg op) (\<lambda>_ s'. cache_coherent s') (V w)"
  proof (cases op)
    case (CreateOp ci)
    show ?thesis unfolding CreateOp job_op_prog.simps
      by (intro wp_unit_result wp_mono [OF createJob_wp]) (rule create_coherent [OF assms(3,2)])
  next
    case (UpdateOp i p)
    show ?thesis unfolding UpdateOp job_op_prog.simps
      by (intro wp_unit_result wp_mono [OF updateJob_wp [OF assms(2)]]) (rule update_coherent [OF assms(3)])
  next
    case (DeleteOp i)
    show ?thesis unfolding DeleteOp job_op_prog.simps
      by (intro wp_unit_result wp_mono [OF deleteJob_wp]) (rule delete_coherent [OF assms(3)])
  next
    case (PauseOp i b)
    show ?thesis unfolding PauseOp job_op_prog.simps setPaused_def
      by (intro wp_unit_result wp_mono [OF updateJob_wp [OF assms(2)]]) (rule update_coherent [OF assms(3)])
  next
    case (BulkOp ids b)
    show ?thesis unfolding BulkOp job_op_prog.simps
      by (intro wp_unit_result wp_mono [OF bulkSetEnabled_wp]) (rule bulk_coherent [OF assms(3)])
  qed
  from wp_run [OF assms(1) this assms(4)] show ?thesis .
qed

lemma sample_coherent: "cache_coherent (ref_view (ref_start [sample_job] t n))"
  by (simp add: cache_coherent_def ref_view_def ref_start_def)

theorem job_service_cache_coherent_witness:
  "cache_coherent (ref_view (snd (run ref_svc (job_op_prog minute_parser one_host default_env (PauseOp ''id-0'' True))
     (ref_start [sample_job] 0 1))))"
proof -
  obtain res w' where run: "run ref_svc (job_op_prog minute_parser one_host default_env (PauseOp ''id-0'' True))
      (ref_start [sample_job] 0 1) = (res, w')" by fastforce
  from job_service_cache_coherent [OF ref_svc_reliable sample_start_wf sample_coherent run] run show ?thesis by simp
qed

text \<open>
  What an update does. When the job exists, the new cron expression and time zone are valid together and the new callback
  URL is accepted, the row becomes the patched row and the cache holds exactly that row. A
  missing job gives no job, an invalid schedule or an unsafe URL gives its error, and then
  neither table nor cache changes; executions and queue never change.
\<close>

theorem updateJob_outcome:
  assumes "reliable svc V" "tables_wf (V w)" "run svc (updateJob cp parse cfg i p) w = (res, w')"
  shows "st_execs (V w') = st_execs (V w) \<and> st_queue (V w') = st_queue (V w) \<and>
    (case res of
       Inr (Some j) \<Rightarrow> (\<exists>old t d. st_jobs (V w) i = Some old \<and> new_cron_error cp p old = None \<and>
         st_clock (V w) \<le> t \<and> t \<le> st_clock (V w') \<and> j = (apply_job_patch p old)\<lparr>updatedAt := t\<rparr> \<and>
         st_jobs (V w') = (st_jobs (V w))(i \<mapsto> j) \<and> st_kv (V w') = (st_kv (V w))(jobConfigKey i \<mapsto> (JobJson j, d)))
     | Inr None \<Rightarrow> st_jobs (V w) i = None \<and> st_jobs (V w') = st_jobs (V w) \<and> st_kv (V w') = st_kv (V w)
     | Inl e \<Rightarrow> st_jobs (V w') = st_jobs (V w) \<and> st_kv (V w') = st_kv (V w) \<and>
         ((\<exists>m. e = UnsafeCallbackUrlError m \<and> jp_callbackUrl p \<noteq> None) \<or>
          (\<exists>old. st_jobs (V w) i = Some old \<and> new_cron_error cp p old = Some e)))"
  using wp_run [OF assms(1) updateJob_wp [OF assms(2)] assms(3)] by (simp add: update_effect_def)

theorem updateJob_outcome_witness:
  "\<exists>j. fst (run ref_svc (updateJob minute_parser one_host default_env ''id-0'' (no_job_patch\<lparr>jp_paused := Some True\<rparr>))
     (ref_start [sample_job] 0 0)) = Inr (Some j) \<and> paused j"
proof -
  let ?p = "no_job_patch\<lparr>jp_paused := Some True\<rparr>" and ?w = "ref_start [sample_job] 0 0"
  obtain res w' where run: "run ref_svc (updateJob minute_parser one_host default_env ''id-0'' ?p) ?w = (res, w')"
    by fastforce
  have row: "st_jobs (ref_view ?w) ''id-0'' = Some sample_job"
    by (simp add: ref_view_def ref_start_def sample_job_def)
  have none: "new_cron_error minute_parser ?p old = None" "jp_callbackUrl ?p = None" "jp_paused ?p = Some True" for old
    by (simp_all add: new_cron_error_def no_job_patch_def)
  from updateJob_outcome [OF ref_svc_reliable sample_start_wf run] run row none show ?thesis
    by (auto simp: apply_job_patch_def split: sum.splits option.splits)
qed

text \<open>
  C32: an update can be reported as a missing job although it was committed. When the row was written and the
  invalidation of the cache then fails, \<open>updateJob\<close> returns no job, which the API answers with 404; the
  row stays written, whatever the services are.
\<close>

theorem updateJob_hides_committed_write:
  assumes "jp_cronExpression p = None" "jp_timezone p = None" "jp_callbackUrl p = None"
    "svc (JobUpdate i p) w = (RJob j, w1)" "svc (RedisDel (jobConfigKey i)) w1 = (RErr e, w2)"
  shows "run svc (updateJob cp parse cfg i p) w = (Inr None, w2)"
  using assms
  by (simp add: updateJob_def check_cron_def write_job_def invalidateJobConfig_def run_bind run_try_catch prog_defs)

definition is_redis_del :: "req \<Rightarrow> bool" where
  "is_redis_del q \<longleftrightarrow> (case q of RedisDel k \<Rightarrow> True | _ \<Rightarrow> False)"

theorem updateJob_hides_committed_write_witness:
  "let (res, w') = run (faulty_svc is_redis_del) (updateJob minute_parser one_host default_env ''id-0''
         (no_job_patch\<lparr>jp_paused := Some True\<rparr>)) (ref_start [sample_job] 0 0)
   in res = Inr None \<and> map_option paused (st_jobs (ref_view w') ''id-0'') = Some True"
proof -
  let ?svc = "faulty_svc is_redis_del" and ?p = "no_job_patch\<lparr>jp_paused := Some True\<rparr>" and ?w = "ref_start [sample_job] 0 0"
  obtain r w1 where one: "?svc (JobUpdate ''id-0'' ?p) ?w = (r, w1)" by fastforce
  then have "ref_call (JobUpdate ''id-0'' ?p) ?w = (r, w1)"
    by (simp add: is_redis_del_def faulty_svc_def Let_def ref_start_def)
  from ref_call_effect [OF this] obtain j where
    j: "r = RJob j" "map_option paused (st_jobs (ref_view w1) ''id-0'') = Some True"
    by (auto simp: ref_view_def ref_start_def sample_job_def patched_job_def apply_job_patch_def no_job_patch_def)
  obtain r2 w2 where two: "?svc (RedisDel (jobConfigKey ''id-0'')) w1 = (r2, w2)" by fastforce
  then have two': "r2 = RErr outage" "rw_jobs w2 = rw_jobs w1"
    by (auto simp: is_redis_del_def faulty_svc_def Let_def)
  have "run ?svc (updateJob minute_parser one_host default_env ''id-0'' ?p) ?w = (Inr None, w2)"
    using one two j(1) two'(1) by (intro updateJob_hides_committed_write) (simp_all add: no_job_patch_def)
  with j(2) two'(2) show ?thesis by simp
qed

end
