(* ===== verification/Json_Schema.thy ===== *)
theory Json_Schema
  imports Job_Service
begin

text \<open>
  The request bodies of \<open>src/routes/jobs.router.ts\<close>: JSON values and the zod schemas that the handlers parse
  them with. A value is \<open>None\<close> when it is \<open>undefined\<close>; an object lists its fields once each, as
  \<open>JSON.parse\<close> leaves them. A schema is a function to an option, \<open>None\<close> being the \<open>ZodError\<close>.
\<close>

datatype json = JNull | JBool bool | JNum jsnum | JStr string | JArr "json list" | JObj "(string \<times> json) list"

type_synonym 'a schema = "json option \<Rightarrow> 'a option"

definition field :: "(string \<times> json) list \<Rightarrow> string \<Rightarrow> json option" where
  "field kvs k = map_of kvs k"

section \<open>The schema combinators used\<close>

definition z_string :: "nat \<Rightarrow> nat option \<Rightarrow> string schema" where \<comment> \<open>\<open>z.string().min(lo).max(hi)\<close>\<close>
  "z_string lo hi v = (case v of
     Some (JStr s) \<Rightarrow> if lo \<le> length s \<and> (case hi of None \<Rightarrow> True | Some h \<Rightarrow> length s \<le> h) then Some s else None
   | _ \<Rightarrow> None)"

definition z_url :: "url_parser \<Rightarrow> string schema" where \<comment> \<open>\<open>z.string().url()\<close>: \<open>new URL\<close> accepts it\<close>
  "z_url parse v = (case v of Some (JStr s) \<Rightarrow> if parse s \<noteq> None then Some s else None | _ \<Rightarrow> None)"

definition z_int :: "int \<Rightarrow> int \<Rightarrow> int schema" where \<comment> \<open>\<open>z.number().int().min(lo).max(hi)\<close>\<close>
  "z_int lo hi v = (case v of
     Some (JNum (Fin x)) \<Rightarrow> if is_int x \<and> of_int lo \<le> x \<and> x \<le> of_int hi then Some \<lfloor>x\<rfloor> else None
   | _ \<Rightarrow> None)"

definition z_bool :: "bool schema" where
  "z_bool v = (case v of Some (JBool b) \<Rightarrow> Some b | _ \<Rightarrow> None)"

definition z_optional :: "'a schema \<Rightarrow> 'a option schema" where
  "z_optional p v = (case v of None \<Rightarrow> Some None | _ \<Rightarrow> map_option Some (p v))"

fun z_all :: "'a schema \<Rightarrow> json list \<Rightarrow> 'a list option" where
  "z_all p [] = Some []"
| "z_all p (x # xs) = Option.bind (p (Some x)) (\<lambda>y. map_option (Cons y) (z_all p xs))"

definition z_array :: "'a schema \<Rightarrow> nat \<Rightarrow> nat \<Rightarrow> 'a list schema" where \<comment> \<open>\<open>z.array(p).min(lo).max(hi)\<close>\<close>
  "z_array p lo hi v = (case v of
     Some (JArr xs) \<Rightarrow> if lo \<le> length xs \<and> length xs \<le> hi then z_all p xs else None
   | _ \<Rightarrow> None)"

definition z_object :: "((string \<times> json) list \<Rightarrow> 'a option) \<Rightarrow> 'a schema" where
  "z_object f v = (case v of Some (JObj kvs) \<Rightarrow> f kvs | _ \<Rightarrow> None)"

section \<open>The schemas of the router\<close>

abbreviation retries_schema :: "int schema" where "retries_schema \<equiv> z_int 0 50"
abbreviation backoff_schema :: "int schema" where "backoff_schema \<equiv> z_int 100 3600000"
abbreviation timeout_schema :: "int schema" where "timeout_schema \<equiv> z_int 1000 300000"

definition retryPolicySchema :: "(int \<times> int) schema" where
  "retryPolicySchema = z_object (\<lambda>kvs.
     Option.bind (retries_schema (field kvs ''maxRetries'')) (\<lambda>r.
     map_option (Pair r) (backoff_schema (field kvs ''backoffMs''))))"

definition createBody :: "url_parser \<Rightarrow> create_input schema" where
  "createBody parse = z_object (\<lambda>kvs.
     Option.bind (z_string 1 (Some 200) (field kvs ''name'')) (\<lambda>nm.
     Option.bind (z_string 1 None (field kvs ''cronExpression'')) (\<lambda>cron.
     Option.bind (z_url parse (field kvs ''callbackUrl'')) (\<lambda>url.
     Option.bind (retryPolicySchema (field kvs ''retryPolicy'')) (\<lambda>(retries, backoff).
     Option.bind (z_optional (z_string 1 None) (field kvs ''timezone'')) (\<lambda>tz.
     Option.bind (z_optional z_bool (field kvs ''enabled'')) (\<lambda>en.
     Option.bind (z_optional z_bool (field kvs ''paused'')) (\<lambda>pa.
     Option.bind (z_optional timeout_schema (field kvs ''callbackTimeoutMs'')) (\<lambda>timeout.
     Some \<lparr>ci_name = nm, ci_cronExpression = cron, ci_callbackUrl = url, ci_maxRetries = retries,
       ci_backoffMs = backoff, ci_timezone = tz, ci_enabled = en, ci_paused = pa,
       ci_callbackTimeoutMs = timeout\<rparr>)))))))))"

definition update_fields :: "string list" where
  "update_fields = [''name'', ''cronExpression'', ''callbackUrl'', ''timezone'', ''maxRetries'', ''backoffMs'',
     ''callbackTimeoutMs'', ''enabled'', ''paused'']"

definition updateBody :: "url_parser \<Rightarrow> job_patch schema" where
  "updateBody parse = z_object (\<lambda>kvs.
     if \<not> list_all (\<lambda>(k, _). k \<in> set update_fields) kvs then None
     else
     Option.bind (z_optional (z_string 1 (Some 200)) (field kvs ''name'')) (\<lambda>nm.
     Option.bind (z_optional (z_string 1 None) (field kvs ''cronExpression'')) (\<lambda>cron.
     Option.bind (z_optional (z_url parse) (field kvs ''callbackUrl'')) (\<lambda>url.
     Option.bind (z_optional (z_string 1 None) (field kvs ''timezone'')) (\<lambda>tz.
     Option.bind (z_optional retries_schema (field kvs ''maxRetries'')) (\<lambda>retries.
     Option.bind (z_optional backoff_schema (field kvs ''backoffMs'')) (\<lambda>backoff.
     Option.bind (z_optional timeout_schema (field kvs ''callbackTimeoutMs'')) (\<lambda>timeout.
     Option.bind (z_optional z_bool (field kvs ''enabled'')) (\<lambda>en.
     Option.bind (z_optional z_bool (field kvs ''paused'')) (\<lambda>pa.
     Some \<lparr>jp_name = nm, jp_cronExpression = cron, jp_callbackUrl = url, jp_timezone = tz,
       jp_maxRetries = retries, jp_backoffMs = backoff, jp_callbackTimeoutMs = timeout,
       jp_enabled = en, jp_paused = pa, jp_consecutiveDeadCount = None\<rparr>))))))))))"

definition bulkBody :: "(string list \<times> bool) schema" where
  "bulkBody = z_object (\<lambda>kvs.
     Option.bind (z_array (z_string 1 None) 1 500 (field kvs ''ids'')) (\<lambda>ids.
     map_option (Pair ids) (z_bool (field kvs ''enabled''))))"

section \<open>What a parsed body satisfies\<close>

lemma z_intD: "z_int lo hi v = Some n \<Longrightarrow> lo \<le> n \<and> n \<le> hi"
  by (auto simp: z_int_def le_floor_iff floor_le_iff split: option.splits json.splits jsnum.splits if_splits)

lemma z_stringD: "z_string lo hi v = Some s \<Longrightarrow> lo \<le> length s \<and> (\<forall>h. hi = Some h \<longrightarrow> length s \<le> h)"
  by (auto simp: z_string_def split: option.splits json.splits if_splits)

text \<open>The checks of the schemas, as a predicate on stored jobs.\<close>

definition job_wf :: "url_parser \<Rightarrow> env \<Rightarrow> job \<Rightarrow> bool" where
  "job_wf parse cfg j \<longleftrightarrow>
     1 \<le> length (job_name j) \<and> length (job_name j) \<le> 200 \<and> cronExpression j \<noteq> [] \<and> timezone j \<noteq> [] \<and>
     parse (callbackUrl j) \<noteq> None \<and> 0 \<le> maxRetries j \<and> maxRetries j \<le> 50 \<and>
     100 \<le> backoffMs j \<and> backoffMs j \<le> 3600000 \<and>
     (1000 \<le> callbackTimeoutMs j \<and> callbackTimeoutMs j \<le> 300000 \<or>
      callbackTimeoutMs j = DEFAULT_CALLBACK_TIMEOUT_MS cfg)"

lemma z_urlD: "z_url parse v = Some s \<Longrightarrow> parse s \<noteq> None"
  by (auto simp: z_url_def split: option.splits json.splits if_splits)

lemma z_optionalD: "z_optional p v = Some r \<Longrightarrow> \<forall>x. r = Some x \<longrightarrow> p v = Some x"
  by (auto simp: z_optional_def split: option.splits)

lemma opt_stringD: "z_optional (z_string lo hi) v = Some r \<Longrightarrow> \<forall>x. r = Some x \<longrightarrow> lo \<le> length x \<and> (\<forall>h. hi = Some h \<longrightarrow> length x \<le> h)"
  using z_optionalD z_stringD by blast

lemma opt_intD: "z_optional (z_int lo hi) v = Some r \<Longrightarrow> \<forall>x. r = Some x \<longrightarrow> lo \<le> x \<and> x \<le> hi"
  using z_optionalD z_intD by blast

lemma opt_urlD: "z_optional (z_url parse) v = Some r \<Longrightarrow> \<forall>x. r = Some x \<longrightarrow> parse x \<noteq> None"
  using z_optionalD z_urlD by blast

lemma option_get_orI: "\<forall>x. r = Some x \<longrightarrow> P x \<Longrightarrow> P d \<Longrightarrow> P (option_get_or r d)"
  by (cases r) simp_all

lemma bind_SomeD: "Option.bind m f = Some y \<Longrightarrow> \<exists>x. m = Some x \<and> f x = Some y"
  by (cases m) auto

lemma z_objectD: "z_object f v = Some x \<Longrightarrow> \<exists>kvs. v = Some (JObj kvs) \<and> f kvs = Some x"
  by (auto simp: z_object_def split: option.splits json.splits)

lemma createBodyD:
  assumes "createBody parse v = Some ci"
  shows "1 \<le> length (ci_name ci) \<and> length (ci_name ci) \<le> 200 \<and> ci_cronExpression ci \<noteq> [] \<and>
    (\<forall>tz. ci_timezone ci = Some tz \<longrightarrow> tz \<noteq> []) \<and> parse (ci_callbackUrl ci) \<noteq> None \<and>
    0 \<le> ci_maxRetries ci \<and> ci_maxRetries ci \<le> 50 \<and> 100 \<le> ci_backoffMs ci \<and> ci_backoffMs ci \<le> 3600000 \<and>
    (\<forall>t. ci_callbackTimeoutMs ci = Some t \<longrightarrow> 1000 \<le> t \<and> t \<le> 300000)"
proof -
  from assms obtain kvs nm cron url retries backoff tz en pa timeout where
    f: "z_string 1 (Some 200) (field kvs ''name'') = Some nm" "z_string 1 None (field kvs ''cronExpression'') = Some cron"
      "z_url parse (field kvs ''callbackUrl'') = Some url" "retryPolicySchema (field kvs ''retryPolicy'') = Some (retries, backoff)"
      "z_optional (z_string 1 None) (field kvs ''timezone'') = Some tz"
      "z_optional timeout_schema (field kvs ''callbackTimeoutMs'') = Some timeout"
    and ci: "ci = \<lparr>ci_name = nm, ci_cronExpression = cron, ci_callbackUrl = url, ci_maxRetries = retries,
       ci_backoffMs = backoff, ci_timezone = tz, ci_enabled = en, ci_paused = pa, ci_callbackTimeoutMs = timeout\<rparr>"
    unfolding createBody_def
    by (auto dest!: z_objectD bind_SomeD)
  from f(4) have "0 \<le> retries \<and> retries \<le> 50" "100 \<le> backoff \<and> backoff \<le> 3600000"
    by (auto simp: retryPolicySchema_def dest!: z_objectD bind_SomeD dest: z_intD)
  then show ?thesis
    using z_stringD [OF f(1)] z_stringD [OF f(2)] z_urlD [OF f(3)] opt_stringD [OF f(5)] opt_intD [OF f(6)]
    by (auto simp: ci)
qed

lemma created_job_wf:
  assumes "createBody parse v = Some ci" "job_inserted (create_data cfg ci) j s s'"
  shows "job_wf parse cfg j"
proof -
  have "job_name j = ci_name ci" "cronExpression j = ci_cronExpression ci" "callbackUrl j = ci_callbackUrl ci"
    "timezone j = option_get_or (ci_timezone ci) ''UTC''" "maxRetries j = ci_maxRetries ci" "backoffMs j = ci_backoffMs ci"
    "callbackTimeoutMs j = option_get_or (ci_callbackTimeoutMs ci) (DEFAULT_CALLBACK_TIMEOUT_MS cfg)"
    using assms(2) unfolding job_inserted_def create_data_def by (metis job.select_convs job_data.select_convs)+
  with createBodyD [OF assms(1)] show ?thesis
    by (cases "ci_timezone ci"; cases "ci_callbackTimeoutMs ci") (simp_all add: job_wf_def)
qed

lemma updateBody_wf:
  assumes "updateBody parse v = Some p" "job_wf parse cfg old"
  shows "job_wf parse cfg ((apply_job_patch p old)\<lparr>updatedAt := t\<rparr>)" "jp_consecutiveDeadCount p = None"
proof -
  from assms(1) obtain kvs nm cron url tz retries backoff timeout en pa where
    f: "z_optional (z_string 1 (Some 200)) (field kvs ''name'') = Some nm"
      "z_optional (z_string 1 None) (field kvs ''cronExpression'') = Some cron"
      "z_optional (z_url parse) (field kvs ''callbackUrl'') = Some url"
      "z_optional (z_string 1 None) (field kvs ''timezone'') = Some tz"
      "z_optional retries_schema (field kvs ''maxRetries'') = Some retries"
      "z_optional backoff_schema (field kvs ''backoffMs'') = Some backoff"
      "z_optional timeout_schema (field kvs ''callbackTimeoutMs'') = Some timeout"
    and p: "p = \<lparr>jp_name = nm, jp_cronExpression = cron, jp_callbackUrl = url, jp_timezone = tz,
       jp_maxRetries = retries, jp_backoffMs = backoff, jp_callbackTimeoutMs = timeout,
       jp_enabled = en, jp_paused = pa, jp_consecutiveDeadCount = None\<rparr>"
    unfolding updateBody_def by (auto dest!: z_objectD simp: Option.bind_eq_Some_conv split: if_splits)
  show "jp_consecutiveDeadCount p = None" by (simp add: p)
  let ?new = "\<lambda>r d. option_get_or r d"
  have "1 \<le> length (?new nm (job_name old)) \<and> length (?new nm (job_name old)) \<le> 200"
    using opt_stringD [OF f(1)] assms(2) by (intro option_get_orI [where P = "\<lambda>x. 1 \<le> length x \<and> length x \<le> 200"]) (auto simp: job_wf_def)
  moreover have "?new cron (cronExpression old) \<noteq> []"
    using opt_stringD [OF f(2)] assms(2) by (intro option_get_orI [where P = "\<lambda>x. x \<noteq> []"]) (auto simp: job_wf_def)
  moreover have "parse (?new url (callbackUrl old)) \<noteq> None"
    using opt_urlD [OF f(3)] assms(2) by (intro option_get_orI [where P = "\<lambda>u. parse u \<noteq> None"]) (auto simp: job_wf_def)
  moreover have "?new tz (timezone old) \<noteq> []"
    using opt_stringD [OF f(4)] assms(2) by (intro option_get_orI [where P = "\<lambda>x. x \<noteq> []"]) (auto simp: job_wf_def)
  moreover have "0 \<le> ?new retries (maxRetries old) \<and> ?new retries (maxRetries old) \<le> 50"
    using opt_intD [OF f(5)] assms(2) by (intro option_get_orI [where P = "\<lambda>x. 0 \<le> x \<and> x \<le> 50"]) (auto simp: job_wf_def)
  moreover have "100 \<le> ?new backoff (backoffMs old) \<and> ?new backoff (backoffMs old) \<le> 3600000"
    using opt_intD [OF f(6)] assms(2) by (intro option_get_orI [where P = "\<lambda>x. 100 \<le> x \<and> x \<le> 3600000"]) (auto simp: job_wf_def)
  moreover have "1000 \<le> ?new timeout (callbackTimeoutMs old) \<and> ?new timeout (callbackTimeoutMs old) \<le> 300000 \<or>
      ?new timeout (callbackTimeoutMs old) = DEFAULT_CALLBACK_TIMEOUT_MS cfg"
    using opt_intD [OF f(7)] assms(2)
    by (intro option_get_orI [where P = "\<lambda>t. 1000 \<le> t \<and> t \<le> 300000 \<or> t = DEFAULT_CALLBACK_TIMEOUT_MS cfg"]) (auto simp: job_wf_def)
  ultimately show "job_wf parse cfg ((apply_job_patch p old)\<lparr>updatedAt := t\<rparr>)"
    unfolding job_wf_def p apply_job_patch_def by simp
qed

end
