(* ===== verification/Auth.thy ===== *)
theory Auth
  imports Env_Config
begin

text \<open>
  \<open>src/lib/auth.ts\<close>: API-key authentication. A request is its two headers; the middleware either passes
  it on or answers 401. \<open>Buffer.from\<close> is the UTF-8 encoding, \<open>timingSafeEqual\<close> compares
  buffers of one length and throws on different lengths.
\<close>

definition nonempty_keys :: "string list \<Rightarrow> string list" where \<comment> \<open>\<open>.filter(Boolean)\<close>\<close>
  "nonempty_keys ks = filter (\<lambda>k. k \<noteq> []) ks"

definition parseKeys :: "env \<Rightarrow> string list" where
  "parseKeys cfg = nonempty_keys (map trim (split_on CHR '','' (CRONHIVE_API_KEYS cfg)))"

definition authEnabled :: "env \<Rightarrow> bool" where
  "authEnabled cfg \<longleftrightarrow> 0 < length (parseKeys cfg)"

fun utf8_char :: "char \<Rightarrow> nat list" where
  "utf8_char c = (let n = of_char c in if n < 128 then [n] else [192 + n div 64, 128 + n mod 64])"

definition buffer_from :: "string \<Rightarrow> nat list" where
  "buffer_from s = concat (map utf8_char s)"

definition timingSafeEqual :: "nat list \<Rightarrow> nat list \<Rightarrow> bool option" where \<comment> \<open>\<open>None\<close>: it throws\<close>
  "timingSafeEqual a b = (if length a = length b then Some (a = b) else None)"

definition safeEqual :: "string \<Rightarrow> string \<Rightarrow> bool option" where
  "safeEqual a b =
     (let ab = buffer_from a; bb = buffer_from b
      in if length ab \<noteq> length bb then Some False else timingSafeEqual ab bb)"

record auth_headers =
  ah_authorization :: "string option"
  ah_x_api_key :: "string option"

datatype auth_verdict = AuthNext | Auth401 | AuthThrows

definition bearer_token :: "auth_headers \<Rightarrow> string option" where
  "bearer_token req = (case ah_authorization req of
     Some h \<Rightarrow> if startsWith h ''Bearer '' then Some (drop 7 h) else None
   | None \<Rightarrow> None)"

definition provided_key :: "auth_headers \<Rightarrow> string option" where \<comment> \<open>\<open>bearer ?? req.header("x-api-key")\<close>\<close>
  "provided_key req = (case bearer_token req of Some b \<Rightarrow> Some b | None \<Rightarrow> ah_x_api_key req)"

fun some_equal :: "string list \<Rightarrow> string \<Rightarrow> bool option" where \<comment> \<open>\<open>keys.some(\<dots>)\<close>\<close>
  "some_equal [] p = Some False"
| "some_equal (k # ks) p = (case safeEqual k p of
     None \<Rightarrow> None
   | Some True \<Rightarrow> Some True
   | Some False \<Rightarrow> some_equal ks p)"

definition requireApiKey :: "env \<Rightarrow> auth_headers \<Rightarrow> auth_verdict" where
  "requireApiKey cfg req =
     (let keys = parseKeys cfg in
      if keys = [] then AuthNext
      else case provided_key req of
        None \<Rightarrow> Auth401
      | Some p \<Rightarrow> if p = [] then Auth401
          else case some_equal keys p of None \<Rightarrow> AuthThrows | Some b \<Rightarrow> if b then AuthNext else Auth401)"

section \<open>The comparison is equality\<close>

lemma utf8_char_first:
  "utf8_char c @ s = utf8_char d @ t \<longleftrightarrow> c = d \<and> s = t"
proof -
  have bound: "(of_char c :: nat) < 256" for c :: char
    using of_char_mod_256 [of c, where 'a = nat] by (metis mod_less_divisor zero_less_numeral)
  have "c = d" if "utf8_char c @ s = utf8_char d @ t"
  proof -
    let ?c = "of_char c :: nat" and ?d = "of_char d :: nat"
    have "?c < 128 \<longleftrightarrow> ?d < 128" using that bound [of c] bound [of d] by (auto simp: Let_def split: if_splits)
    moreover have "?c = ?d" if "\<not> ?c < 128" "\<not> ?d < 128" "192 + ?c div 64 = 192 + ?d div 64" "128 + ?c mod 64 = 128 + ?d mod 64"
      using that by (metis add_left_cancel div_mult_mod_eq)
    ultimately have "?c = ?d" using that by (auto simp: Let_def split: if_splits)
    then show ?thesis by simp
  qed
  then show ?thesis by auto
qed

lemma buffer_from_inject: "buffer_from s = buffer_from t \<longleftrightarrow> s = t"
proof (induction s arbitrary: t)
  case Nil
  then show ?case by (cases t) (auto simp: buffer_from_def Let_def)
next
  case (Cons c s)
  show ?case
  proof (cases t)
    case Nil
    then show ?thesis by (auto simp: buffer_from_def Let_def)
  next
    case (Cons d t')
    then show ?thesis using Cons.IH [of t'] utf8_char_first [of c "buffer_from s" d "buffer_from t'"]
      by (simp add: buffer_from_def del: utf8_char.simps)
  qed
qed

lemma safeEqual_eq: "safeEqual a b = Some (a = b)"
  by (auto simp: safeEqual_def timingSafeEqual_def buffer_from_inject Let_def)

lemma some_equal_mem: "some_equal ks p = Some (p \<in> set ks)"
  by (induction ks) (auto simp: safeEqual_eq split: bool.splits)

lemma requireApiKey_exact_rule:
  "requireApiKey cfg req =
    (if parseKeys cfg = [] \<or> (\<exists>k \<in> set (parseKeys cfg). provided_key req = Some k) then AuthNext else Auth401)"
proof -
  have "[] \<notin> set (parseKeys cfg)" by (simp add: parseKeys_def nonempty_keys_def)
  then show ?thesis
    by (auto simp: requireApiKey_def some_equal_mem Let_def split: option.splits)
qed

text \<open>
  C35: who passes. The middleware never throws; it passes every request when no key is configured, and otherwise
  exactly those whose bearer token, or without a bearer header whose x-api-key header, is
  one of the configured keys.
\<close>

theorem requireApiKey_exact:
  "requireApiKey cfg req =
    (if parseKeys cfg = [] \<or> (\<exists>k \<in> set (parseKeys cfg). provided_key req = Some k) then AuthNext else Auth401)"
  by (rule requireApiKey_exact_rule)

text \<open>The keys an operator lists are the keys that are accepted.\<close>

definition clean_key :: "string \<Rightarrow> bool" where
  "clean_key k \<longleftrightarrow> k \<noteq> [] \<and> CHR '','' \<notin> set k \<and> trim k = k"

fun join_keys :: "string list \<Rightarrow> string" where
  "join_keys [] = []"
| "join_keys [k] = k"
| "join_keys (k # ks) = k @ '','' @ join_keys ks"

lemma split_join_keys: "ks \<noteq> [] \<Longrightarrow> \<forall>k \<in> set ks. CHR '','' \<notin> set k \<Longrightarrow> split_on CHR '','' (join_keys ks) = ks"
  by (induction ks rule: join_keys.induct) (auto simp: split_on_absent split_on_append_sep)

text \<open>
  A list of clean keys, joined by commas in CRONHIVE_API_KEYS, is read back as that list.
\<close>

theorem parseKeys_join:
  assumes "\<forall>k \<in> set ks. clean_key k"
  shows "parseKeys (cfg\<lparr>CRONHIVE_API_KEYS := join_keys ks\<rparr>) = ks"
proof (cases "ks = []")
  case True
  then show ?thesis by (simp add: parseKeys_def nonempty_keys_def trim_def)
next
  case False
  have "map trim ks = ks" using assms by (intro map_idI) (simp add: clean_key_def)
  moreover have "filter (\<lambda>k. k \<noteq> []) ks = ks" using assms by (auto simp: clean_key_def filter_id_conv)
  ultimately show ?thesis
    using False assms by (simp add: parseKeys_def nonempty_keys_def split_join_keys clean_key_def)
qed

theorem parseKeys_join_witness:
  "parseKeys (default_env\<lparr>CRONHIVE_API_KEYS := ''alpha,beta''\<rparr>) = [''alpha'', ''beta'']"
  using parseKeys_join [of "[''alpha'', ''beta'']" default_env]
  by (simp add: clean_key_def trim_def is_space_def)

end
