(* ===== verification/Jobs_Router.thy ===== *)
theory Jobs_Router
  imports Json_Schema Execution_Service Lock_Ttl Job_Lock Queues Auth
begin

text \<open>
  \<open>src/routes/jobs.router.ts\<close>: the handlers of the management API. A handler is a program that returns the
  HTTP response; an error it throws, or passes to \<open>next\<close>, is the program's error, which the
  error middleware of \<open>server.ts\<close> turns into a response (theory \<open>Api_Server\<close>).
\<close>

section \<open>Requests and responses\<close>

datatype http_method = GET | POST | PUT | DELETE

datatype query_value = QAbsent | QText string | QList "string list" | QObject

record http_request =
  hr_method :: http_method
  hr_path :: "string list" \<comment> \<open>the segments below \<open>/jobs\<close>\<close>
  hr_query :: "string \<Rightarrow> query_value"
  hr_body :: "json option"
  hr_auth :: auth_headers

record page_body =
  pb_data :: "execution list"
  pb_page :: jsnum
  pb_limit :: jsnum
  pb_total :: int
  pb_totalPages :: int

datatype body =
  BJob job | BJobs "job list" | BExec execution | BPage page_body | BStats job_stats | BUpdated int
| BError string \<comment> \<open>\<open>{ error }\<close>\<close> | BValidation | BHealth bool bool | BLive string | BText string | BNone

record response =
  rs_status :: int
  rs_body :: body

definition respond :: "int \<Rightarrow> body \<Rightarrow> response" where
  "respond st b = \<lparr>rs_status = st, rs_body = b\<rparr>"

definition not_found :: response where
  "not_found = respond 404 (BError ''Not found'')"

section \<open>Query parameters\<close>

fun join_commas :: "string list \<Rightarrow> string" where
  "join_commas [] = []"
| "join_commas [s] = s"
| "join_commas (s # ss) = s @ '','' @ join_commas ss"

text \<open>\<open>Number(v)\<close> of a parsed query value: an array is converted through its text.\<close>

fun query_number :: "query_value \<Rightarrow> jsnum" where
  "query_number QAbsent = NaN"
| "query_number (QText s) = js_Number s"
| "query_number (QList ss) = js_Number (join_commas ss)"
| "query_number QObject = NaN"

definition js_or :: "jsnum \<Rightarrow> jsnum \<Rightarrow> jsnum" where \<comment> \<open>\<open>a || b\<close>\<close>
  "js_or a b = (if falsy_num a then b else a)"

fun js_max :: "rat \<Rightarrow> jsnum \<Rightarrow> jsnum" where \<comment> \<open>\<open>Math.max(k, n)\<close>\<close>
  "js_max k NaN = NaN"
| "js_max k PosInf = PosInf"
| "js_max k NegInf = Fin k"
| "js_max k (Fin x) = Fin (max k x)"

fun js_min :: "rat \<Rightarrow> jsnum \<Rightarrow> jsnum" where \<comment> \<open>\<open>Math.min(k, n)\<close>\<close>
  "js_min k NaN = NaN"
| "js_min k PosInf = Fin k"
| "js_min k NegInf = NegInf"
| "js_min k (Fin x) = Fin (min k x)"

definition page_param :: "query_value \<Rightarrow> jsnum" where
  "page_param v = js_max 1 (js_or (query_number v) (Fin 1))"

definition limit_param :: "query_value \<Rightarrow> jsnum" where
  "limit_param v = js_min 100 (js_max 1 (js_or (query_number v) (Fin 20)))"

definition days_param :: "query_value \<Rightarrow> jsnum" where
  "days_param v = js_min 30 (js_max 1 (js_or (query_number v) (Fin 7)))"

fun fin_value :: "jsnum \<Rightarrow> rat" where \<comment> \<open>the value of a finite number\<close>
  "fin_value (Fin x) = x"
| "fin_value _ = 0"

section \<open>The handlers\<close>

definition parse_body :: "'a schema \<Rightarrow> json option \<Rightarrow> 'a prog" where \<comment> \<open>\<open>schema.parse(req.body)\<close>\<close>
  "parse_body schema v = (case schema v of None \<Rightarrow> Throw ZodError | Some x \<Rightarrow> Ret x)"

definition get_jobs :: "response prog" where
  "get_jobs = bind listJobs (\<lambda>jobs. Ret (respond 200 (BJobs jobs)))"

definition post_jobs :: "cron_parser \<Rightarrow> url_parser \<Rightarrow> env \<Rightarrow> json option \<Rightarrow> response prog" where
  "post_jobs cp parse cfg v =
     bind (parse_body (createBody parse) v) (\<lambda>ci.
     bind (createJob cp parse cfg ci) (\<lambda>job. Ret (respond 201 (BJob job))))"

definition post_bulk :: "json option \<Rightarrow> response prog" where
  "post_bulk v =
     bind (parse_body bulkBody v) (\<lambda>(ids, en).
     bind (bulkSetEnabled ids en) (\<lambda>count. Ret (respond 200 (BUpdated count))))"

definition job_or_404 :: "job option \<Rightarrow> response" where
  "job_or_404 job = (case job of None \<Rightarrow> not_found | Some j \<Rightarrow> respond 200 (BJob j))"

definition get_job :: "string \<Rightarrow> response prog" where
  "get_job i = bind (getJobById i) (\<lambda>job. Ret (job_or_404 job))"

definition put_job_route :: "cron_parser \<Rightarrow> url_parser \<Rightarrow> env \<Rightarrow> string \<Rightarrow> json option \<Rightarrow> response prog" where
  "put_job_route cp parse cfg i v =
     bind (parse_body (updateBody parse) v) (\<lambda>p.
     bind (updateJob cp parse cfg i p) (\<lambda>job. Ret (job_or_404 job)))"

definition delete_job_route :: "string \<Rightarrow> response prog" where
  "delete_job_route i = bind (deleteJob i) (\<lambda>ok. Ret (if ok then respond 204 BNone else not_found))"

definition page_of :: "execution list \<Rightarrow> jsnum \<Rightarrow> jsnum \<Rightarrow> int \<Rightarrow> page_body" where
  "page_of items page limit n = \<lparr>pb_data = items, pb_page = page, pb_limit = limit, pb_total = n,
     pb_totalPages = \<lceil>dbl (of_int n / fin_value limit)\<rceil>\<rparr>"

definition get_executions :: "string \<Rightarrow> query_value \<Rightarrow> query_value \<Rightarrow> response prog" where
  "get_executions i pageq limitq =
     (let page = page_param pageq; limit = limit_param limitq in
      bind (getJobById i) (\<lambda>job.
      case job of
        None \<Rightarrow> Ret not_found
      | Some _ \<Rightarrow> bind (listExecutions i page limit) (\<lambda>(items, n).
          Ret (respond 200 (BPage (page_of items page limit n))))))"

definition get_stats :: "(time \<Rightarrow> rat \<Rightarrow> time) \<Rightarrow> string \<Rightarrow> query_value \<Rightarrow> response prog" where
  "get_stats back i daysq =
     bind (getJobStats back i (fin_value (days_param daysq))) (\<lambda>stats.
     Ret (case stats of None \<Rightarrow> not_found | Some st \<Rightarrow> respond 200 (BStats st)))"

definition manual_job_data :: "string \<Rightarrow> string \<Rightarrow> exec_job_data" where
  "manual_job_data exId jobId = \<lparr>ej_executionId = exId, ej_jobId = jobId, ej_fireSlot = Manual\<rparr>"

definition trigger_locked :: "job \<Rightarrow> job_lock \<Rightarrow> response prog" where \<comment> \<open>once the lock is held\<close>
  "trigger_locked job l =
     try_catch
       (bind (createExecution (job_id job) ''manual'') (\<lambda>ex.
        bind (call_unit (QueueAdd (manual_job_data (exec_id ex) (job_id job)) (executionJobOptions job))) (\<lambda>_.
        Ret (respond 202 (BExec ex)))))
       (\<lambda>e. bind (releaseJobLock l) (\<lambda>_. Throw e))"

definition post_trigger :: "env \<Rightarrow> string \<Rightarrow> response prog" where
  "post_trigger cfg i =
     bind (getJobById i) (\<lambda>found.
     case found of
       None \<Rightarrow> Ret not_found
     | Some job \<Rightarrow>
        if \<not> enabled job then Ret (respond 409 (BError ''Job is disabled''))
        else bind (acquireJobLock (job_id job) Manual (computeJobLockTtlSeconds cfg job)) (\<lambda>lock.
          case lock of
            None \<Rightarrow> Ret (respond 409 (BError ''Could not acquire execution lock; job may already be running''))
          | Some l \<Rightarrow> trigger_locked job l))"

definition post_paused :: "cron_parser \<Rightarrow> url_parser \<Rightarrow> env \<Rightarrow> bool \<Rightarrow> string \<Rightarrow> response prog" where
  "post_paused cp parse cfg b i = bind (setPaused cp parse cfg i b) (\<lambda>job. Ret (job_or_404 job))"

text \<open>Which handler serves a request; other paths have none.\<close>

record api_config =
  ac_cron :: cron_parser
  ac_url :: url_parser
  ac_env :: env
  ac_back :: "time \<Rightarrow> rat \<Rightarrow> time"

definition route :: "api_config \<Rightarrow> http_request \<Rightarrow> response prog option" where
  "route ac req = (let cp = ac_cron ac; parse = ac_url ac; cfg = ac_env ac in
     case hr_path req of
       [] \<Rightarrow> (case hr_method req of GET \<Rightarrow> Some get_jobs | POST \<Rightarrow> Some (post_jobs cp parse cfg (hr_body req)) | _ \<Rightarrow> None)
     | [i] \<Rightarrow> (case hr_method req of
          GET \<Rightarrow> Some (get_job i)
        | POST \<Rightarrow> if i = ''bulk'' then Some (post_bulk (hr_body req)) else None
        | PUT \<Rightarrow> Some (put_job_route cp parse cfg i (hr_body req))
        | DELETE \<Rightarrow> Some (delete_job_route i))
     | [i, action] \<Rightarrow> (case hr_method req of
          GET \<Rightarrow> if action = ''executions'' then Some (get_executions i (hr_query req ''page'') (hr_query req ''limit''))
            else if action = ''stats'' then Some (get_stats (ac_back ac) i (hr_query req ''days'')) else None
        | POST \<Rightarrow> if action = ''trigger'' then Some (post_trigger cfg i)
            else if action = ''pause'' then Some (post_paused cp parse cfg True i)
            else if action = ''resume'' then Some (post_paused cp parse cfg False i) else None
        | _ \<Rightarrow> None)
     | _ \<Rightarrow> None)"

section \<open>Query parameters stay in range\<close>

text \<open>Whatever the query says, the page size is a number from 1 to 100 and the window from 1 to 30 days.\<close>

lemma js_max_or: "\<exists>x \<ge> 1. js_max 1 (js_or n (Fin d)) = Fin x \<or> js_max 1 (js_or n (Fin d)) = PosInf"
  by (cases n) (auto simp: js_or_def)

lemma limit_param_range: "\<exists>x. limit_param v = Fin x \<and> 1 \<le> x \<and> x \<le> 100"
  using js_max_or [of "query_number v" 20] by (auto simp: limit_param_def)

lemma days_param_range: "\<exists>x. days_param v = Fin x \<and> 1 \<le> x \<and> x \<le> 30"
  using js_max_or [of "query_number v" 7] by (auto simp: days_param_def)

lemma page_param_range: "page_param v = PosInf \<or> (\<exists>x. page_param v = Fin x \<and> 1 \<le> x)"
  using js_max_or [of "query_number v" 1] by (auto simp: page_param_def)

end
