(* ===== verification/Jobs_Api.thy ===== *)
theory Jobs_Api
  imports Jobs_Router
begin

text \<open>
  What the handlers of theory \<open>Jobs_Router\<close> guarantee: the stored jobs satisfy the schemas, the manual
  trigger enqueues one execution per lock lifetime, and the pages of the history are its
  slices.
\<close>

section \<open>Calls that leave the jobs alone\<close>

fun writes_jobs :: "req \<Rightarrow> bool" where
  "writes_jobs (JobCreate d) = True"
| "writes_jobs (JobUpdate i p) = True"
| "writes_jobs (JobUpdateMany ids b) = True"
| "writes_jobs (JobDelete i) = True"
| "writes_jobs _ = False"

lemma done_effect_jobs:
  assumes "done_effect q r s s'" "\<not> writes_jobs q"
  shows "st_jobs s' = st_jobs s"
proof (cases q)
  case (RedisEval sc k)
  with assms obtain n where "script_effect (lua_program sc k) n s s'" by (auto simp: done_effect_def)
  then have "s' = s\<lparr>st_kv := st_kv s'\<rparr>" by (rule script_effect_keys)
  then show ?thesis by (metis store.select_convs(1) store.surjective store.update_convs(4))
qed (use assms in \<open>auto simp: done_effect_def ok_effect_def exec_inserted_def split: if_splits option.splits\<close>)

lemma reliable_effect_jobs:
  "reliable_effect q r s s' \<Longrightarrow> \<not> writes_jobs q \<Longrightarrow> st_jobs s' = st_jobs s"
  using done_effect_jobs by (auto simp: reliable_effect_def fail_effect_def)

lemma wp_jobs_unwritten:
  assumes "calls_only (\<lambda>q. \<not> writes_jobs q) p" "st_jobs s = m"
  shows "wp p (\<lambda>_ s'. st_jobs s' = m) s"
  using assms
  by (induction p arbitrary: s) (auto simp: later_def dest!: reliable_effect_jobs)

lemma unwritten_calls [simp]:
  "calls_only (\<lambda>q. \<not> writes_jobs q) (acquireJobLock j f ttl)"
  "calls_only (\<lambda>q. \<not> writes_jobs q) (releaseJobLock l)"
  "calls_only (\<lambda>q. \<not> writes_jobs q) (createExecution j src)"
  "calls_only (\<lambda>q. \<not> writes_jobs q) (listExecutions j page limit)"
  "calls_only (\<lambda>q. \<not> writes_jobs q) (getJobStats back j days)"
  "calls_only (\<lambda>q. \<not> writes_jobs q) (getJobById j)"
  "calls_only (\<lambda>q. \<not> writes_jobs q) listJobs"
  by (auto simp: acquireJobLock_def releaseJobLock_def createExecution_def listExecutions_def getJobStats_def
      getJobById_def listJobs_def Let_def intro!: calls_only_bind split: option.split)

lemma unwritten_handlers:
  "calls_only (\<lambda>q. \<not> writes_jobs q) get_jobs" "calls_only (\<lambda>q. \<not> writes_jobs q) (get_job i)"
  "calls_only (\<lambda>q. \<not> writes_jobs q) (get_executions i pageq limitq)"
  "calls_only (\<lambda>q. \<not> writes_jobs q) (get_stats back i daysq)"
  "calls_only (\<lambda>q. \<not> writes_jobs q) (post_trigger cfg i)"
  by (auto simp: get_jobs_def get_job_def get_executions_def get_stats_def post_trigger_def trigger_locked_def
      Let_def intro!: calls_only_bind calls_only_try_catch split: option.split)

section \<open>The stored jobs satisfy the schemas\<close>

definition jobs_wf :: "url_parser \<Rightarrow> env \<Rightarrow> store \<Rightarrow> bool" where
  "jobs_wf parse cfg s \<longleftrightarrow> (\<forall>i j. st_jobs s i = Some j \<longrightarrow> job_wf parse cfg j)"

lemma wp_reads_wf:
  "calls_only (\<lambda>q. \<not> writes_jobs q) p \<Longrightarrow> jobs_wf parse cfg s \<Longrightarrow> wp p (\<lambda>_ s'. jobs_wf parse cfg s') s"
  by (rule wp_mono [OF wp_jobs_unwritten]) (auto simp: jobs_wf_def)

lemma wp_respond: "wp p (\<lambda>_ s'. P s') s \<Longrightarrow> wp (bind p (\<lambda>x. Ret (f x))) (\<lambda>_ s'. P s') s"
  by (auto elim!: wp_mono split: sum.split)

lemma post_jobs_wf:
  assumes "jobs_wf parse cfg s"
  shows "wp (post_jobs cp parse cfg v) (\<lambda>_ s'. jobs_wf parse cfg s') s"
proof (cases "createBody parse v")
  case None
  with assms show ?thesis by (simp add: post_jobs_def parse_body_def)
next
  case (Some ci)
  have "jobs_wf parse cfg s'" if "create_effect cfg ci s res s'" for res s'
  proof (cases res)
    case (Inl e)
    with that have "s'\<lparr>st_clock := st_clock s\<rparr> = s" by (simp add: create_effect_def)
    then have "st_jobs s' = st_jobs s" by (metis store.select_convs(1) store.surjective store.update_convs(11))
    with assms show ?thesis by (simp add: jobs_wf_def)
  next
    case (Inr j)
    with that obtain t where ins: "job_inserted (create_data cfg ci) j (s\<lparr>st_clock := t\<rparr>) (s'\<lparr>st_kv := st_kv s, st_clock := t\<rparr>)"
      by (auto simp: create_effect_def)
    then have "st_jobs s' = (st_jobs s)(job_id j \<mapsto> j)" by (auto simp: job_inserted_def dest: arg_cong [of _ _ st_jobs])
    with created_job_wf [OF Some ins] assms show ?thesis by (auto simp: jobs_wf_def)
  qed
  then have "wp (createJob cp parse cfg ci) (\<lambda>_ s'. jobs_wf parse cfg s') s"
    by (rule wp_mono [OF createJob_wp])
  from wp_respond [OF this, of "\<lambda>job. respond 201 (BJob job)"] show ?thesis
    by (simp add: post_jobs_def parse_body_def Some)
qed

lemma updated_wf:
  assumes "jobs_wf parse cfg s" "update_effect cp i p s res s'"
    "\<And>old t. job_wf parse cfg old \<Longrightarrow> job_wf parse cfg ((apply_job_patch p old)\<lparr>updatedAt := t\<rparr>)"
  shows "jobs_wf parse cfg s'"
  using assms by (auto simp: jobs_wf_def update_effect_def split: sum.splits option.splits if_splits)

lemma put_job_wf:
  assumes "jobs_wf parse cfg s" "tables_wf s"
  shows "wp (put_job_route cp parse cfg i v) (\<lambda>_ s'. jobs_wf parse cfg s') s"
proof (cases "updateBody parse v")
  case None
  with assms show ?thesis by (simp add: put_job_route_def parse_body_def)
next
  case (Some p)
  have "wp (updateJob cp parse cfg i p) (\<lambda>_ s'. jobs_wf parse cfg s') s"
    by (rule wp_mono [OF updateJob_wp [OF assms(2)]]) (rule updated_wf [OF assms(1)], assumption, rule updateBody_wf(1) [OF Some])
  from wp_respond [OF this, of job_or_404] show ?thesis by (simp add: put_job_route_def parse_body_def Some)
qed

lemma post_paused_wf:
  assumes "jobs_wf parse cfg s" "tables_wf s"
  shows "wp (post_paused cp parse cfg b i) (\<lambda>_ s'. jobs_wf parse cfg s') s"
proof -
  have "wp (setPaused cp parse cfg i b) (\<lambda>_ s'. jobs_wf parse cfg s') s"
    unfolding setPaused_def
    by (rule wp_mono [OF updateJob_wp [OF assms(2)]], rule updated_wf [OF assms(1)], assumption)
      (simp add: job_wf_def apply_job_patch_def no_job_patch_def)
  then show ?thesis unfolding post_paused_def by (rule wp_respond)
qed

lemma job_wf_switch [simp]: "job_wf parse cfg (j\<lparr>enabled := b, updatedAt := t\<rparr>) = job_wf parse cfg j"
  by (simp add: job_wf_def)

lemma post_bulk_wf:
  assumes "jobs_wf parse cfg s"
  shows "wp (post_bulk v) (\<lambda>_ s'. jobs_wf parse cfg s') s"
proof (cases "bulkBody v")
  case None
  with assms show ?thesis by (simp add: post_bulk_def parse_body_def)
next
  case (Some x)
  obtain ids b where x: "x = (ids, b)" by (cases x)
  have "wp (bulkSetEnabled ids b) (\<lambda>_ s'. jobs_wf parse cfg s') s"
    by (rule wp_mono [OF bulkSetEnabled_wp])
      (use assms in \<open>auto simp: jobs_wf_def bulk_effect_def enable_jobs_def split: if_splits\<close>)
  from wp_respond [OF this, of "\<lambda>c. respond 200 (BUpdated c)"] show ?thesis
    by (simp add: post_bulk_def parse_body_def Some x)
qed

lemma delete_route_wf:
  assumes "jobs_wf parse cfg s"
  shows "wp (delete_job_route i) (\<lambda>_ s'. jobs_wf parse cfg s') s"
  unfolding delete_job_route_def
  by (rule wp_respond, rule wp_mono [OF deleteJob_wp])
    (use assms in \<open>auto simp: jobs_wf_def delete_effect_def split: if_splits\<close>)

text \<open>
  C13: stored jobs satisfy the schemas. If every stored job has a name, schedule, time zone, callback URL, retry policy and timeout
  within the limits of the request schemas (a timeout may also be the configured default),
  then it still does after any request to the management API, valid or not.
\<close>

theorem api_keeps_jobs_wf:
  assumes "reliable svc V" "tables_wf (V w)" "jobs_wf (ac_url ac) (ac_env ac) (V w)"
    "route ac req = Some h" "run svc h w = (res, w')"
  shows "jobs_wf (ac_url ac) (ac_env ac) (V w')"
proof -
  have "wp h (\<lambda>_ s'. jobs_wf (ac_url ac) (ac_env ac) s') (V w)"
    using assms(4)
    by (auto simp: route_def Let_def post_jobs_wf post_bulk_wf put_job_wf post_paused_wf delete_route_wf assms(2,3)
        split: list.splits http_method.splits if_splits
        intro!: wp_reads_wf [OF unwritten_handlers(1)] wp_reads_wf [OF unwritten_handlers(2)] wp_reads_wf [OF unwritten_handlers(3)]
          wp_reads_wf [OF unwritten_handlers(4)] wp_reads_wf [OF unwritten_handlers(5)])
  from wp_run [OF assms(1) this assms(5)] show ?thesis .
qed

definition sample_api :: api_config where
  "sample_api = \<lparr>ac_cron = minute_parser, ac_url = one_host, ac_env = default_env,
     ac_back = (\<lambda>t d. t - 86400000 * \<lfloor>d\<rfloor>)\<rparr>"

definition sample_request :: "http_method \<Rightarrow> string list \<Rightarrow> json option \<Rightarrow> http_request" where
  "sample_request m path b = \<lparr>hr_method = m, hr_path = path, hr_query = (\<lambda>_. QAbsent), hr_body = b,
     hr_auth = \<lparr>ah_authorization = None, ah_x_api_key = None\<rparr>\<rparr>"

theorem api_keeps_jobs_wf_witness:
  "\<exists>h. route sample_api (sample_request PUT [''id-0''] (Some (JObj [(''maxRetries'', JNum (Fin 50))]))) = Some h \<and>
     jobs_wf one_host default_env (ref_view (snd (run ref_svc h (ref_start [sample_job] 0 1))))"
proof -
  let ?req = "sample_request PUT [''id-0''] (Some (JObj [(''maxRetries'', JNum (Fin 50))]))"
  obtain h where h: "route sample_api ?req = Some h"
    by (simp add: route_def sample_request_def Let_def)
  obtain res w' where run: "run ref_svc h (ref_start [sample_job] 0 1) = (res, w')" by fastforce
  have "jobs_wf (ac_url sample_api) (ac_env sample_api) (ref_view (ref_start [sample_job] 0 1))"
    by (simp add: jobs_wf_def job_wf_def ref_view_def ref_start_def sample_job_def sample_api_def one_host_def)
  from api_keeps_jobs_wf [OF ref_svc_reliable sample_start_wf this h run] run h show ?thesis
    by (simp add: sample_api_def)
qed

section \<open>The manual trigger\<close>

definition manual_row :: "string \<Rightarrow> execution \<Rightarrow> bool" where
  "manual_row i e \<longleftrightarrow> exec_jobId e = i \<and> scheduledFor e = None \<and> status e = PENDING \<and> triggerSource e = ''manual'' \<and>
     attemptNumber e = 1"

definition triggered :: "env \<Rightarrow> job \<Rightarrow> store \<Rightarrow> response outcome \<Rightarrow> store \<Rightarrow> bool" where
  "triggered cfg job s res s' \<longleftrightarrow> (\<exists>t. st_clock s \<le> t \<and> t \<le> st_clock s' \<and>
     (if live_at (st_kv s) t (jobLockKey (job_id job) Manual) \<noteq> None
      then res = Inr (respond 409 (BError ''Could not acquire execution lock; job may already be running'')) \<and>
        st_execs s' = st_execs s \<and> st_queue s' = st_queue s \<and> st_kv s' = st_kv s
      else (\<exists>e token. res = Inr (respond 202 (BExec e)) \<and> exec_id e \<notin> st_ids s \<and> manual_row (job_id job) e \<and>
        st_execs s' = (st_execs s)(exec_id e \<mapsto> e) \<and>
        st_queue s' = st_queue s @ [(manual_job_data (exec_id e) (job_id job), executionJobOptions job)] \<and>
        st_kv s' = (st_kv s)(jobLockKey (job_id job) Manual \<mapsto>
          (Plain token, t + 1000 * max 1 (computeJobLockTtlSeconds cfg job))))))"

lemma wp_createExecution:
  "wp (createExecution j src) Q s \<longleftrightarrow> later s (\<lambda>u.
     (\<forall>e s'. exec_inserted \<lparr>ed_jobId = j, ed_scheduledFor = None, ed_status = PENDING, ed_attemptNumber = 1,
        ed_triggerSource = src\<rparr> e u s' \<longrightarrow> Q (Inr e) s') \<and>
     (st_jobs u j = None \<longrightarrow> (\<forall>m. Q (Inl (PrismaKnownRequestError ''P2003'' m)) u)))"
  by (simp add: createExecution_def wp_exec_create)

lemma triggered_enqueued:
  assumes "job_id job = i" "exec_inserted \<lparr>ed_jobId = i, ed_scheduledFor = None, ed_status = PENDING, ed_attemptNumber = 1,
        ed_triggerSource = ''manual''\<rparr> e s1 s2"
    "live_at (st_kv s) t (jobLockKey (i) Manual) = None" "st_clock s \<le> t" "t \<le> st_clock s1" "st_clock s2 \<le> st_clock s'"
    "st_execs s1 = st_execs s" "st_ids s1 = st_ids s" "st_queue s1 = st_queue s"
    "st_kv s1 = (st_kv s)(jobLockKey (i) Manual \<mapsto> (Plain token, t + 1000 * max 1 (computeJobLockTtlSeconds cfg job)))"
    "st_execs s' = st_execs s2" "st_kv s' = st_kv s2"
    "st_queue s' = st_queue s2 @ [(manual_job_data (exec_id e) (i), executionJobOptions job)]"
  shows "triggered cfg job s (Inr (respond 202 (BExec e))) s'"
  using exec_inserted_select [OF assms(2)] assms(1,3-)
  by (auto simp: triggered_def manual_row_def intro!: exI [of _ t])

lemma triggered_refused:
  assumes "job_id job = i" "live_at (st_kv s) t (jobLockKey i Manual) \<noteq> None" "st_clock s \<le> t" "t \<le> st_clock s'"
    "st_execs s' = st_execs s" "st_queue s' = st_queue s" "st_kv s' = st_kv s"
  shows "triggered cfg job s (Inr (respond 409 (BError ''Could not acquire execution lock; job may already be running''))) s'"
  using assms by (auto simp: triggered_def)

lemma post_trigger_wp:
  assumes "st_jobs s i = Some job" "job_id job = i" "enabled job" "lock_ttl_valid (computeJobLockTtlSeconds cfg job)"
  shows "wp (post_trigger cfg i) (triggered cfg job s) s"
  using assms
  apply (simp add: post_trigger_def getJobById_def trigger_locked_def wp_acquireJobLock wp_createExecution
      wp_releaseJobLock later_def Let_def, intro allI impI conjI)
  subgoal by (erule triggered_enqueued [rotated]) auto
  subgoal for t ta token tb by (rule triggered_refused [of _ i _ tb]) auto
  done

definition same_tables :: "store \<Rightarrow> store \<Rightarrow> bool" where
  "same_tables s s' \<longleftrightarrow> st_execs s' = st_execs s \<and> st_queue s' = st_queue s \<and> st_kv s' = st_kv s"

definition trigger_effect :: "env \<Rightarrow> string \<Rightarrow> store \<Rightarrow> response outcome \<Rightarrow> store \<Rightarrow> bool" where
  "trigger_effect cfg i s res s' = (case st_jobs s i of
     None \<Rightarrow> res = Inr not_found \<and> same_tables s s'
   | Some job \<Rightarrow>
      if \<not> enabled job then res = Inr (respond 409 (BError ''Job is disabled'')) \<and> same_tables s s'
      else if \<not> lock_ttl_valid (computeJobLockTtlSeconds cfg job) then (\<exists>e. res = Inl e) \<and> same_tables s s'
      else triggered cfg job s res s')"

lemma post_trigger_effect:
  assumes "tables_wf s"
  shows "wp (post_trigger cfg i) (trigger_effect cfg i s) s"
proof (cases "\<exists>job. st_jobs s i = Some job \<and> enabled job \<and> lock_ttl_valid (computeJobLockTtlSeconds cfg job)")
  case True
  then obtain job where job: "st_jobs s i = Some job" "enabled job" "lock_ttl_valid (computeJobLockTtlSeconds cfg job)" by blast
  with assms have "job_id job = i" by (simp add: tables_wf_def)
  from wp_mono [OF post_trigger_wp [OF job(1) this job(2,3)]] job show ?thesis by (simp add: trigger_effect_def)
next
  case False
  then show ?thesis
    by (auto simp: post_trigger_def getJobById_def wp_acquireJobLock later_def Let_def trigger_effect_def same_tables_def
        split: option.splits)
qed

text \<open>
  C10: the manual trigger. A missing job answers 404 and a disabled one 409. For an enabled job, the request answers 409 and
  changes nothing while the manual lock of the job is held; otherwise it answers 202, inserts one
  fresh PENDING row with source \<open>manual\<close>, adds exactly the entry of that row to the queue and leaves the lock held
  for the lifetime computed from the retry policy. A lifetime that Redis refuses is an error.
\<close>

theorem post_trigger_outcome:
  assumes "reliable svc V" "tables_wf (V w)" "run svc (post_trigger cfg i) w = (res, w')"
  shows "trigger_effect cfg i (V w) res (V w')"
  using wp_run [OF assms(1) post_trigger_effect [OF assms(2)] assms(3)] .

theorem post_trigger_outcome_witness:
  "\<exists>e. fst (run ref_svc (post_trigger default_env ''id-0'') (ref_start [sample_job] 0 0)) = Inr (respond 202 (BExec e)) \<and>
    manual_row ''id-0'' e"
proof -
  let ?w = "ref_start [sample_job] 0 0"
  obtain res w' where run: "run ref_svc (post_trigger default_env ''id-0'') ?w = (res, w')" by fastforce
  have row: "st_jobs (ref_view ?w) ''id-0'' = Some sample_job" "enabled sample_job" "st_kv (ref_view ?w) = (\<lambda>_. None)"
      "job_id sample_job = ''id-0''"
    by (simp_all add: ref_view_def ref_start_def sample_job_def)
  from post_trigger_outcome [OF ref_svc_reliable sample_start_wf run] row sample_ttl_seconds run show ?thesis
    by (auto simp: trigger_effect_def triggered_def live_at_def lock_ttl_valid_def)
qed

text \<open>
  C19: one manual trigger per lock lifetime. After a trigger answered 202, a second trigger of the job (with its row possibly
  updated in between, and its lock key untouched) that completes within the lock's lifetime, counted from the
  start of the first request, answers 409 and neither inserts a row nor adds a queue entry.
\<close>

theorem trigger_once_per_lifetime:
  assumes "reliable svc V" "tables_wf (V w)" "tables_wf (V u)"
    "st_jobs (V w) i = Some job" "run svc (post_trigger cfg i) w = (Inr r, w')" "rs_status r = 202"
    "st_jobs (V u) i = Some job'" "enabled job'" "lock_ttl_valid (computeJobLockTtlSeconds cfg job')"
    "st_kv (V u) (jobLockKey i Manual) = st_kv (V w') (jobLockKey i Manual)"
    "run svc (post_trigger cfg i) u = (res, u')"
    "st_clock (V u') < st_clock (V w) + 1000 * max 1 (computeJobLockTtlSeconds cfg job)"
  shows "res = Inr (respond 409 (BError ''Could not acquire execution lock; job may already be running'')) \<and>
    st_execs (V u') = st_execs (V u) \<and> st_queue (V u') = st_queue (V u)"
proof -
  have ids: "job_id job = i" "job_id job' = i" using assms(2-4,7) by (simp_all add: tables_wf_def)
  from post_trigger_outcome [OF assms(1,2,5)] assms(4,6) have "triggered cfg job (V w) (Inr r) (V w')"
    by (auto simp: trigger_effect_def respond_def not_found_def split: if_splits)
  with assms(6) ids(1) obtain t token where lock: "st_clock (V w) \<le> t"
      "st_kv (V w') (jobLockKey i Manual) = Some (Plain token, t + 1000 * max 1 (computeJobLockTtlSeconds cfg job))"
    by (auto simp: triggered_def respond_def split: if_splits)
  have "live_at (st_kv (V u)) t' (jobLockKey i Manual) \<noteq> None" if "t' \<le> st_clock (V u')" for t'
    using lock assms(10,12) that by (simp add: live_at_def)
  moreover from post_trigger_outcome [OF assms(1,3,11)] assms(7-9) have "triggered cfg job' (V u) res (V u')"
    by (simp add: trigger_effect_def)
  ultimately show ?thesis using ids(2) by (auto simp: triggered_def)
qed

theorem trigger_once_per_lifetime_witness:
  "let (r, w') = run ref_svc (post_trigger default_env ''id-0'') (ref_start [sample_job] 0 0)
   in fst (run ref_svc (post_trigger default_env ''id-0'') w') =
     Inr (respond 409 (BError ''Could not acquire execution lock; job may already be running''))"
proof -
  let ?p = "post_trigger default_env ''id-0''" and ?w = "ref_start [sample_job] 0 0"
  obtain res w' where run: "run ref_svc ?p ?w = (res, w')" by fastforce
  obtain res2 w2 where run2: "run ref_svc ?p w' = (res2, w2)" by fastforce
  have row: "st_jobs (ref_view ?w) ''id-0'' = Some sample_job" "enabled sample_job" "st_kv (ref_view ?w) = (\<lambda>_. None)"
    by (simp_all add: ref_view_def ref_start_def sample_job_def)
  have ttl: "lock_ttl_valid (computeJobLockTtlSeconds default_env sample_job)"
    by (simp add: sample_ttl_seconds lock_ttl_valid_def)
  from wp_run [OF ref_svc_reliable post_trigger_effect [OF sample_start_wf] run] row ttl
  obtain e where res: "res = Inr (respond 202 (BExec e))" by (auto simp: trigger_effect_def triggered_def live_at_def)
  from wp_run [OF ref_svc_reliable wp_jobs_unwritten [OF unwritten_handlers(5) refl] run]
  have row': "st_jobs (ref_view w') ''id-0'' = Some sample_job" using row(1) by simp
  have wf': "tables_wf (ref_view w')"
    using run_kept [OF reliable_ok [OF ref_svc_reliable] sample_start_wf run] by (simp add: tables_kept_def)
  have "rw_clock w' = 0 \<and> rw_latency w' = 0"
    using ref_instant [OF run [unfolded ref_svc_def]] by (simp add: ref_start_def)
  then have "rw_clock w2 = 0" using ref_instant [OF run2 [unfolded ref_svc_def]] by simp
  then have "res2 = Inr (respond 409 (BError ''Could not acquire execution lock; job may already be running''))"
    using trigger_once_per_lifetime [OF ref_svc_reliable sample_start_wf wf' row(1) run [unfolded res] _ row' row(2) ttl refl run2]
    by (simp add: respond_def) (simp add: ref_view_def ref_start_def)
  with run run2 show ?thesis by simp
qed

section \<open>Pages of the history\<close>

text \<open>The history of a job: its executions, newest first.\<close>

definition history :: "store \<Rightarrow> string \<Rightarrow> execution list \<Rightarrow> bool" where
  "history s i hs \<longleftrightarrow> distinct (map exec_id hs) \<and> sorted (map (\<lambda>e. - triggeredAt e) hs) \<and>
     set hs = {e. st_execs s (exec_id e) = Some e \<and> exec_jobId e = i}"

lemma history_unique:
  assumes "history s i hs" "history s i hs'" "inj_on triggeredAt (set hs)"
  shows "hs' = hs"
proof -
  from assms have "inj_on (\<lambda>e. - triggeredAt e) (set hs \<union> set hs')"
    by (simp add: history_def inj_on_def)
  with assms(1,2) show ?thesis
    by (intro map_sorted_distinct_set_unique [of "\<lambda>e. - triggeredAt e"])
      (auto simp: history_def distinct_map inj_on_def)
qed

lemma history_count:
  assumes "history s i hs"
  shows "card {e. st_execs s (exec_id e) = Some e \<and> exec_jobId e = i} = length hs"
proof -
  have "distinct hs" using assms by (auto simp: history_def distinct_map)
  with assms show ?thesis by (auto simp: history_def dest: distinct_card)
qed

lemma reliable_find_page:
  assumes "page_arg sk = Some a" "page_arg tk = Some b"
  shows "reliable_effect (ExecFindMany \<lparr>eq_jobId = i, eq_skip = sk, eq_take = tk\<rparr>) r s s' \<longleftrightarrow>
    s' = s \<and> (\<exists>hs. history s i hs \<and> r = RExecs (take b (drop a hs)))"
proof -
  let ?q = "ExecFindMany \<lparr>eq_jobId = i, eq_skip = sk, eq_take = tk\<rparr>"
  have "reliable_effect ?q r s s' \<longleftrightarrow> done_effect ?q r s s'"
    using assms by (auto simp: reliable_effect_def expected_error_def fail_effect_def error_justified_def)
  also have "\<dots> \<longleftrightarrow> s' = s \<and> (\<exists>hs. history s i hs \<and> r = RExecs (take b (drop a hs)))"
    using assms by (auto simp: done_effect_def ok_effect_def history_def)
  finally show ?thesis .
qed

lemma wp_history:
  assumes "page_arg sk = Some a" "page_arg tk = Some b"
  shows "wp (call_execs (ExecFindMany \<lparr>eq_jobId = i, eq_skip = sk, eq_take = tk\<rparr>)) Q s \<longleftrightarrow>
    later s (\<lambda>u. \<forall>hs. history u i hs \<longrightarrow> Q (Inr (take b (drop a hs))) u)"
  unfolding call_execs_def wp.simps
  by (rule later_eqI, simp add: reliable_find_page [OF assms]) fastforce

lemma wp_exec_count:
  "wp (call_int (ExecCount i)) Q s \<longleftrightarrow>
    later s (\<lambda>u. Q (Inr (int (card {e. st_execs u (exec_id e) = Some e \<and> exec_jobId e = i}))) u)"
  by (simp add: call_int_def reliable_effect_unrefused done_effect_def ok_effect_def)

lemma history_clock [simp]: "history (s\<lparr>st_clock := t\<rparr>) i hs = history s i hs"
  by (simp add: history_def)

text \<open>The page arithmetic in doubles is exact as long as the products stay below \<open>2 ^ 53\<close>.\<close>

lemma page_skip:
  assumes "p < 2 ^ 53" "p * l < 2 ^ 53"
  shows "js_mult (js_sub_one (Fin (of_nat (Suc p)))) (Fin (of_nat l)) = Fin (of_nat (p * l))"
proof -
  have js: "js_of_rat (of_nat n) = Fin (of_nat n)" if "n < 2 ^ 53" for n
  proof -
    have "int n < 2 ^ 53" using that by (metis of_nat_less_iff of_nat_numeral of_nat_power)
    then have d: "dbl (of_nat n) = of_nat n" using dbl_of_int [of "int n"] by simp
    have "of_nat n < (of_nat (2 ^ 53) :: rat)" using that by (intro of_nat_less_iff [THEN iffD2])
    then have "of_nat n < (2 ^ 1024 - 2 ^ 970 :: rat)" by (rule less_le_trans) simp
    moreover have "- (2 ^ 1024 - 2 ^ 970 :: rat) < of_nat n" by (rule less_le_trans [of _ 0]) simp_all
    ultimately show ?thesis using d by (simp add: js_of_rat_def)
  qed
  have "(of_nat (Suc p) :: rat) - 1 = of_nat p" by simp
  then have "js_sub_one (Fin (of_nat (Suc p))) = Fin (of_nat p)" using js [OF assms(1)] by simp
  then show ?thesis using js [OF assms(2)] by simp
qed

lemma page_arg_nat [simp]: "n < 2 ^ 63 \<Longrightarrow> page_arg (Fin (of_nat n)) = Some n"
proof -
  assume "n < 2 ^ 63"
  then have "of_nat n < (of_nat (2 ^ 63) :: rat)" by (rule of_nat_less_iff [THEN iffD2])
  then show ?thesis by (simp add: page_arg_def is_int_def)
qed

definition page_number :: "nat \<Rightarrow> query_value \<Rightarrow> bool" where
  "page_number p q \<longleftrightarrow> page_param q = Fin (of_nat (Suc p))"

definition page_size :: "nat \<Rightarrow> query_value \<Rightarrow> bool" where
  "page_size l q \<longleftrightarrow> limit_param q = Fin (of_nat l)"

definition page_response :: "execution list \<Rightarrow> nat \<Rightarrow> nat \<Rightarrow> response" where
  "page_response hs p l = respond 200 (BPage \<lparr>pb_data = take l (drop (p * l) hs), pb_page = Fin (of_nat (Suc p)),
     pb_limit = Fin (of_nat l), pb_total = int (length hs), pb_totalPages = (int (length hs) + int l - 1) div int l\<rparr>)"

lemma page_size_range: "page_size l q \<Longrightarrow> 1 \<le> l \<and> l \<le> 100"
proof -
  assume "page_size l q"
  with limit_param_range [of q] have "of_nat 1 \<le> (of_nat l :: rat)" "(of_nat l :: rat) \<le> of_nat 100"
    by (auto simp: page_size_def)
  then show ?thesis by (simp_all only: of_nat_le_iff)
qed

lemma ceiling_div:
  assumes "0 < (l :: int)"
  shows "- (- n div l) = (n + l - 1) div l"
proof -
  define q r where "q = n div l" and "r = n mod l"
  have n: "n = q * l + r" "0 \<le> r" "r < l" using assms by (simp_all add: q_def r_def)
  have "(n + l - 1) div l = q + (r + l - 1) div l"
    using assms div_mult_self3 [of l q "r + l - 1"] by (simp add: n(1) algebra_simps)
  moreover have "(r + l - 1) div l = (if r = 0 then 0 else 1)"
    using n(2,3) int_div_pos_eq [of "r + l - 1" l 0 "l - 1"] int_div_pos_eq [of "r + l - 1" l 1 "r - 1"] by auto
  moreover have "- (- n div l) = q + (if r = 0 then 0 else 1)"
    using assms by (simp add: zdiv_zminus1_eq_if q_def r_def)
  ultimately show ?thesis by simp
qed

text \<open>The page number and the page size as decimal text.\<close>

definition decimal :: "nat \<Rightarrow> query_value" where
  "decimal n = QText (nat_to_string n)"

lemma decimal_number: "n \<le> 2 ^ 53 \<Longrightarrow> n \<noteq> 0 \<Longrightarrow> js_or (query_number (decimal n)) d = Fin (of_nat n)"
  by (simp add: decimal_def js_Number_nat js_or_def)

lemma decimal_page: "p < 2 ^ 53 \<Longrightarrow> page_number p (decimal (Suc p))"
  by (simp add: page_number_def page_param_def decimal_number)

lemma decimal_size: "1 \<le> l \<Longrightarrow> l \<le> 100 \<Longrightarrow> page_size l (decimal l)"
proof -
  assume l: "1 \<le> l" "l \<le> 100"
  then have "of_nat 1 \<le> (of_nat l :: rat)" "(of_nat l :: rat) \<le> of_nat 100" by (simp_all only: of_nat_le_iff)
  with l show ?thesis by (simp add: page_size_def limit_param_def decimal_number)
qed

lemma page_count:
  assumes "n < 2 ^ 53" "1 \<le> l" "l \<le> 100"
  shows "\<lceil>dbl (of_int (int n) / of_nat l)\<rceil> = (int n + int l - 1) div int l"
proof -
  have n: "int n < 2 ^ 53" using assms(1) by (metis of_nat_less_iff of_nat_numeral of_nat_power)
  have "\<lceil>dbl (of_int (int n) / of_int (int l))\<rceil> = \<lceil>(of_int (int n) :: rat) / of_int (int l)\<rceil>"
    using n assms by (intro ceiling_dbl_quotient) simp_all
  also have "\<dots> = - (- int n div int l)" by (rule ceiling_divide_eq_div)
  also have "\<dots> = (int n + int l - 1) div int l"
    using assms(2) by (intro ceiling_div) simp
  finally show ?thesis by simp
qed

lemma get_executions_wp:
  assumes "st_jobs s i = Some job" "history s i hs" "inj_on triggeredAt (set hs)" "length hs < 2 ^ 53"
    "page_number p pageq" "page_size l limitq" "p < 2 ^ 53" "p * l < 2 ^ 53"
  shows "wp (get_executions i pageq limitq) (\<lambda>res s'. res = Inr (page_response hs p l)) s"
proof -
  note l = page_size_range [OF assms(6)]
  have only: "hs' = hs" if "history s i hs'" for hs' using history_unique [OF assms(2) that assms(3)] .
  have args: "page_arg (js_mult (js_sub_one (page_param pageq)) (limit_param limitq)) = Some (p * l)"
      "page_arg (limit_param limitq) = Some l"
    using assms(5-8) l page_skip [of p l] page_arg_nat [of "p * l"] page_arg_nat [of l]
    by (simp_all add: page_number_def page_size_def del: of_nat_mult of_nat_Suc page_arg_nat)
  have found: "history s i hs' \<longleftrightarrow> hs' = hs" for hs'
    by (rule iffI, erule only, simp only: assms(2))
  have body: "respond 200 (BPage (page_of (take l (drop (p * l) hs)) (page_param pageq) (limit_param limitq) (int (length hs)))) =
      page_response hs p l"
    using assms(5,6) l page_count [of "length hs" l, OF assms(4)]
    by (simp add: page_of_def page_response_def page_number_def page_size_def)
  show ?thesis
    by (simp add: get_executions_def getJobById_def listExecutions_def Let_def wp_history [OF args] wp_exec_count later_def
        assms(1) found history_count [OF assms(2)] body)
qed

text \<open>
  A page of the history. If the executions of a job have distinct trigger times, then page \<open>p + 1\<close> with page size \<open>l\<close>
  answers 200 with elements \<open>p * l\<close> to \<open>p * l + l - 1\<close> of the history, newest first, with the number of
  executions and the number of pages that hold them all, in spite of the arithmetic in doubles.
\<close>

theorem get_executions_page:
  assumes "reliable svc V" "st_jobs (V w) i = Some job" "history (V w) i hs" "inj_on triggeredAt (set hs)"
    "length hs < 2 ^ 53" "page_number p pageq" "page_size l limitq" "p < 2 ^ 53" "p * l < 2 ^ 53"
    "run svc (get_executions i pageq limitq) w = (res, w')"
  shows "res = Inr (page_response hs p l)"
  using wp_run [OF assms(1) get_executions_wp [OF assms(2-9)] assms(10)] .

text \<open>A job with three executions, read in pages of two.\<close>

definition sample_exec :: "string \<Rightarrow> time \<Rightarrow> execution" where
  "sample_exec x t = \<lparr>exec_id = x, exec_jobId = ''id-0'', triggeredAt = t, scheduledFor = None, startedAt = None,
     finishedAt = None, status = PENDING, attemptNumber = 1, responseCode = None, durationMs = None,
     errorMessage = None, triggerSource = ''manual''\<rparr>"

definition sample_rows :: "execution list" where
  "sample_rows = [sample_exec ''x3'' 3, sample_exec ''x2'' 2, sample_exec ''x1'' 1]"

definition sample_pages :: ref_world where
  "sample_pages = (ref_start [sample_job] 5 0)\<lparr>rw_execs := sample_rows\<rparr>"

lemma sample_history:
  "st_jobs (ref_view sample_pages) ''id-0'' = Some sample_job" "history (ref_view sample_pages) ''id-0'' sample_rows"
  "inj_on triggeredAt (set sample_rows)" "length sample_rows = 3"
proof -
  show "st_jobs (ref_view sample_pages) ''id-0'' = Some sample_job"
    by (simp add: sample_pages_def ref_view_def ref_start_def sample_job_def)
  show "history (ref_view sample_pages) ''id-0'' sample_rows"
    by (auto simp: history_def sample_pages_def ref_view_def sample_rows_def sample_exec_def split: if_splits)
  show "inj_on triggeredAt (set sample_rows)" "length sample_rows = 3"
    by (simp_all add: sample_rows_def sample_exec_def)
qed

theorem get_executions_page_witness:
  "fst (run ref_svc (get_executions ''id-0'' (decimal 2) (decimal 2)) sample_pages) =
     Inr (page_response sample_rows 1 2)"
proof -
  obtain res w' where run: "run ref_svc (get_executions ''id-0'' (decimal 2) (decimal 2)) sample_pages = (res, w')"
    by fastforce
  have "page_number 1 (decimal 2)" "page_size 2 (decimal 2)" using decimal_page [of 1, unfolded Suc_1] decimal_size [of 2] by simp_all
  from get_executions_page [OF ref_svc_reliable sample_history(1-3) _ this _ _ run] run sample_history(4)
  show ?thesis by simp
qed

lemma concat_slices: "length xs \<le> n * l \<Longrightarrow> concat (map (\<lambda>p. take l (drop (p * l) xs)) [0..<n]) = xs"
proof -
  have "concat (map (\<lambda>p. take l (drop (p * l) xs)) [0..<n]) = take (n * l) xs"
    by (induction n) (simp_all add: take_add [symmetric] add.commute [of l])
  then show "length xs \<le> n * l \<Longrightarrow> ?thesis" by simp
qed



end
