(* ===== verification/Api_Server.thy ===== *)
theory Api_Server
  imports Jobs_Api
begin

text \<open>
  \<open>src/server.ts\<close>: the HTTP application and the event relay. A request passes the JSON body parser, then
  meets the probes, the management API behind rate limiter and API-key check, or the root page;
  an error reaches the two error handlers. The body parser, the limiter, the Prometheus
  registry and Express's answer to an unrouted request are libraries: their results are fields of \<open>server\<close> and
  of the request. Paths are lists of segments; helmet, CORS and request logging do not change
  which handler answers.
\<close>

section \<open>The application\<close>

record server =
  sv_api :: api_config
  sv_limiter :: "http_request \<Rightarrow> response option" \<comment> \<open>the refusal, if any\<close>
  sv_scrape :: "string outcome" \<comment> \<open>\<open>registry.metrics()\<close>\<close>
  sv_unrouted :: response

record app_request = http_request +
  ar_body_error :: "err option" \<comment> \<open>the error of \<open>express.json\<close>, if any\<close>

definition live_handler :: "response prog" where
  "live_handler = Ret (respond 200 (BLive ''cronhive-api''))"

definition health_handler :: "response prog" where
  "health_handler =
     bind (try_catch (bind (call_unit DbPing) (\<lambda>_. Ret True)) (\<lambda>_. Ret False)) (\<lambda>db.
     bind (try_catch (bind (call_text RedisPing) (\<lambda>pong. Ret (pong = ''PONG''))) (\<lambda>_. Ret False)) (\<lambda>rd.
     let healthy = db \<and> rd in
     Ret (respond (if healthy then 200 else 503) (BHealth db rd))))"

definition metrics_handler :: "string outcome \<Rightarrow> response prog" where
  "metrics_handler scrape = (case scrape of Inl e \<Rightarrow> Throw e | Inr text \<Rightarrow> Ret (respond 200 (BText text)))"

definition root_handler :: "response prog" where
  "root_handler = Ret (respond 200
     (BText ''CronHive API is running. Access the dashboard via the Next.js frontend.''))"

definition unauthorized :: response where
  "unauthorized = respond 401 (BError ''Unauthorized'')"

text \<open>\<open>app.use("/jobs", limiter, requireApiKey, jobsRouter)\<close>.\<close>

definition jobs_chain :: "server \<Rightarrow> http_request \<Rightarrow> response prog" where
  "jobs_chain sv req = (case sv_limiter sv req of
     Some refusal \<Rightarrow> Ret refusal
   | None \<Rightarrow> (case requireApiKey (ac_env (sv_api sv)) (hr_auth req) of
       Auth401 \<Rightarrow> Ret unauthorized
     | AuthThrows \<Rightarrow> Throw (JsError ''RangeError'' None)
     | AuthNext \<Rightarrow> (case route (sv_api sv) req of
         Some handler \<Rightarrow> handler
       | None \<Rightarrow> Ret (sv_unrouted sv))))"

definition dispatch :: "server \<Rightarrow> app_request \<Rightarrow> response prog" where
  "dispatch sv rq = (case ar_body_error rq of
     Some e \<Rightarrow> Throw e
   | None \<Rightarrow>
      if hr_method rq = GET \<and> hr_path rq = [''health'', ''live''] then live_handler
      else if hr_method rq = GET \<and> hr_path rq = [''health''] then health_handler
      else if hr_method rq = GET \<and> hr_path rq = [''metrics''] then metrics_handler (sv_scrape sv)
      else if hr_path rq \<noteq> [] \<and> hd (hr_path rq) = ''jobs''
      then jobs_chain sv (http_request.truncate (rq\<lparr>hr_path := tl (hr_path rq)\<rparr>))
      else if hr_method rq = GET \<and> hr_path rq = [] then root_handler
      else Ret (sv_unrouted sv))"

section \<open>The error handlers\<close>

fun zodError :: "err \<Rightarrow> response option" where \<comment> \<open>\<open>None\<close>: \<open>next(err)\<close>\<close>
  "zodError ZodError = Some (respond 400 BValidation)"
| "zodError (UnsafeCallbackUrlError m) = Some (respond 400 (BError m))"
| "zodError _ = None"

definition fallbackError :: "err \<Rightarrow> response" where
  "fallbackError e = respond 500 (BError ''Internal server error'')"

definition error_response :: "err \<Rightarrow> response" where
  "error_response e = (case zodError e of Some r \<Rightarrow> r | None \<Rightarrow> fallbackError e)"

definition serve_request :: "server \<Rightarrow> app_request \<Rightarrow> response prog" where
  "serve_request sv rq = try_catch (dispatch sv rq) (\<lambda>e. Ret (error_response e))"

section \<open>The metrics server of scheduler and worker\<close>

text \<open>\<open>src/lib/metrics-server.ts\<close>: the answer to a request by its URL.\<close>

definition metrics_server :: "string outcome \<Rightarrow> string \<Rightarrow> string \<Rightarrow> response" where
  "metrics_server scrape component url =
     (if url = ''/metrics'' then (case scrape of
        Inr body \<Rightarrow> respond 200 (BText body) | Inl e \<Rightarrow> respond 500 (BText (err_text e)))
      else if url = ''/health'' then respond 200 (BLive component)
      else respond 404 BNone)"

section \<open>The event relay\<close>

text \<open>
  A message of the events channel is parsed and broadcast to all sockets; what does not parse, or has no
  properties, is ignored. A socket that connects gets \<open>dashboard.ready\<close>.
\<close>

definition on_connection :: "string \<times> json" where
  "on_connection = (''dashboard.ready'', JObj [(''ok'', JBool True)])"

definition on_message :: "(string \<Rightarrow> json option) \<Rightarrow> string \<Rightarrow> (json option \<times> json option) option" where
  "on_message parse message = (case parse message of
     None \<Rightarrow> None
   | Some JNull \<Rightarrow> None
   | Some (JObj kvs) \<Rightarrow> Some (map_of kvs ''event'', map_of kvs ''payload'')
   | Some _ \<Rightarrow> Some (None, None))"

section \<open>Which responses a program returns\<close>

primrec returns :: "('a \<Rightarrow> bool) \<Rightarrow> 'a prog \<Rightarrow> bool" where
  "returns Q (Ret a) = Q a"
| "returns Q (Throw e) = True"
| "returns Q (Call q k) = (\<forall>r. returns Q (k r))"

lemma returns_any: "returns (\<lambda>_. True) p"
  by (induction p) auto

lemma returns_bind: "returns P p \<Longrightarrow> (\<And>a. P a \<Longrightarrow> returns Q (f a)) \<Longrightarrow> returns Q (bind p f)"
  by (induction p) auto

lemma returns_bind_any: "(\<And>a. returns Q (f a)) \<Longrightarrow> returns Q (bind p f)"
  using returns_any by (rule returns_bind)

lemma returns_try_catch: "returns Q p \<Longrightarrow> (\<And>e. returns Q (h e)) \<Longrightarrow> returns Q (try_catch p h)"
  by (induction p) auto

lemma returns_run: "returns Q p \<Longrightarrow> run svc p w = (Inr a, w') \<Longrightarrow> Q a"
  by (induction p arbitrary: w) (auto split: prod.splits)

lemma run_answers: "\<exists>r w'. run svc (try_catch p (\<lambda>e. Ret (f e))) w = (Inr r, w')"
  by (induction p arbitrary: w) (auto split: prod.splits)

text \<open>The status codes of the API.\<close>

definition api_status :: "response \<Rightarrow> bool" where
  "api_status r \<longleftrightarrow> rs_status r \<in> {200, 201, 202, 204, 400, 404, 409, 500, 503}"

lemma api_status_simps [simp]:
  "api_status (respond st b) \<longleftrightarrow> st \<in> {200, 201, 202, 204, 400, 404, 409, 500, 503}"
  "api_status not_found" "api_status (job_or_404 j)" "api_status (error_response e)"
  by (auto simp: api_status_def respond_def not_found_def job_or_404_def error_response_def fallbackError_def
      split: option.split err.split elim: zodError.elims)

lemma returns_handlers:
  "returns api_status get_jobs" "returns api_status (post_jobs cp parse cfg v)" "returns api_status (post_bulk v)"
  "returns api_status (get_job i)" "returns api_status (put_job_route cp parse cfg i v)"
  "returns api_status (delete_job_route i)" "returns api_status (get_executions i pageq limitq)"
  "returns api_status (get_stats back i daysq)" "returns api_status (post_paused cp parse cfg b i)"
  "returns api_status (post_trigger cfg i)" "returns api_status health_handler"
  by (auto simp: get_jobs_def post_jobs_def post_bulk_def get_job_def put_job_route_def delete_job_route_def
      get_executions_def get_stats_def post_paused_def post_trigger_def trigger_locked_def health_handler_def Let_def
      intro!: returns_bind_any returns_try_catch split: option.split prod.split)

lemma returns_route: "route ac req = Some h \<Longrightarrow> returns api_status h"
  by (auto simp: route_def Let_def returns_handlers split: list.splits http_method.splits if_splits)

definition expected_response :: "server \<Rightarrow> response \<Rightarrow> bool" where
  "expected_response sv r \<longleftrightarrow> api_status r \<or> r = unauthorized \<or> r = sv_unrouted sv \<or> (\<exists>req. sv_limiter sv req = Some r)"

lemma returns_mono: "returns P p \<Longrightarrow> (\<And>a. P a \<Longrightarrow> Q a) \<Longrightarrow> returns Q p"
  by (induction p) auto

lemma returns_dispatch: "returns (expected_response sv) (dispatch sv rq)"
proof -
  have api: "returns (expected_response sv) h" if "returns api_status h" for h
    using that by (rule returns_mono) (simp add: expected_response_def)
  show ?thesis
    by (auto simp: dispatch_def jobs_chain_def live_handler_def metrics_handler_def root_handler_def expected_response_def
        split: option.split sum.split auth_verdict.split
        intro!: api returns_handlers intro: returns_route)
qed

section \<open>Every request is answered\<close>

text \<open>
  C15: every request is answered. Whatever the request is and whatever the services do, fail with any error or even answer
  nonsense, the server produces one response and no error escapes: a status of the API, the 401 of the key
  check, or an answer of Express or of the rate limiter.
\<close>

theorem every_request_answered:
  "\<exists>r w'. run svc (serve_request sv rq) w = (Inr r, w') \<and> expected_response sv r"
proof -
  have ret: "returns (expected_response sv) (serve_request sv rq)"
    unfolding serve_request_def
    by (rule returns_try_catch [OF returns_dispatch]) (simp add: expected_response_def)
  obtain r w' where run: "run svc (serve_request sv rq) w = (Inr r, w')"
    using run_answers [of svc "dispatch sv rq" error_response w] unfolding serve_request_def by (elim exE)
  from returns_run [OF ret run] run show ?thesis by (intro exI conjI)
qed

text \<open>
  C14: a request without a valid key reaches nothing. When API keys are configured and a request to the management API presents none of
  them, the server makes no call to any service: whatever the services are, their state is
  unchanged, and the answer is 401 (or the refusal of the rate limiter, or the error for an unreadable body).
\<close>

theorem unauthenticated_request_inert:
  assumes "hr_path rq = ''jobs'' # rest" "parseKeys (ac_env (sv_api sv)) \<noteq> []"
    "\<And>k. k \<in> set (parseKeys (ac_env (sv_api sv))) \<Longrightarrow> provided_key (hr_auth rq) \<noteq> Some k"
  shows "run svc (serve_request sv rq) w = (Inr (case ar_body_error rq of
      Some e \<Rightarrow> error_response e
    | None \<Rightarrow> (case sv_limiter sv (http_request.truncate (rq\<lparr>hr_path := rest\<rparr>)) of
        Some refusal \<Rightarrow> refusal | None \<Rightarrow> unauthorized)), w)"
proof -
  have "requireApiKey (ac_env (sv_api sv)) (hr_auth rq) = Auth401"
    using assms(2,3) unfolding requireApiKey_exact_rule by auto
  then show ?thesis
    using assms(1)
    by (auto simp: serve_request_def dispatch_def jobs_chain_def http_request.truncate_def split: option.split)
qed

definition sample_server :: server where
  "sample_server = \<lparr>sv_api = sample_api\<lparr>ac_env := default_env\<lparr>CRONHIVE_API_KEYS := ''alpha,beta''\<rparr>\<rparr>,
     sv_limiter = (\<lambda>_. None), sv_scrape = Inr [], sv_unrouted = respond 404 BNone\<rparr>"

definition sample_app_request :: "http_method \<Rightarrow> string list \<Rightarrow> string option \<Rightarrow> app_request" where
  "sample_app_request m path key = \<lparr>hr_method = m, hr_path = path, hr_query = (\<lambda>_. QAbsent), hr_body = None,
     hr_auth = \<lparr>ah_authorization = None, ah_x_api_key = key\<rparr>, ar_body_error = None\<rparr>"

lemma sample_keys: "parseKeys (default_env\<lparr>CRONHIVE_API_KEYS := ''alpha,beta''\<rparr>) = [''alpha'', ''beta'']"
  by (simp add: parseKeys_def nonempty_keys_def trim_def is_space_def)

theorem unauthenticated_request_inert_witness:
  "run ref_svc (serve_request sample_server (sample_app_request DELETE [''jobs'', ''id-0''] (Some ''gamma'')))
     (ref_start [sample_job] 0 0) = (Inr unauthorized, ref_start [sample_job] 0 0)"
proof -
  let ?rq = "sample_app_request DELETE [''jobs'', ''id-0''] (Some ''gamma'')"
  have rq: "hr_path ?rq = [''jobs'', ''id-0'']" "ar_body_error ?rq = None" "provided_key (hr_auth ?rq) = Some ''gamma''"
    by (simp_all add: sample_app_request_def provided_key_def bearer_token_def)
  have sv: "parseKeys (ac_env (sv_api sample_server)) = [''alpha'', ''beta'']" "sv_limiter sample_server req = None" for req
    using sample_keys by (simp_all add: sample_server_def sample_api_def)
  show ?thesis
    using unauthenticated_request_inert [of ?rq "[''id-0'']" sample_server ref_svc "ref_start [sample_job] 0 0"] rq sv
    by auto
qed

end
