(* ===== verification/Interleaving.thy ===== *)
theory Interleaving
  imports Service_Contract
begin

text \<open>
  Many processes at once. A cluster is the services' state, the list of programs in flight and the
  log of all calls with their responses. A step serves the next call of one program, starts a
  new program or crashes one at a call boundary; calls may fail, and may take effect although they
  fail. \<open>disc\<close> is the discipline that the programs of CronHive follow when they enqueue: an
  entry is added to the queue only for an execution that the same program created itself, and
  only once. The locale \<open>enqueue_discipline\<close> shows that disciplined programs never enqueue a
  fire-slot twice, whatever the interleaving.
\<close>

section \<open>The discipline of enqueueing\<close>

text \<open>A claim: an execution, its job and its slot.\<close>

type_synonym claim = "string \<times> string \<times> fire_slot"

definition data_slot :: "exec_data \<Rightarrow> fire_slot" where
  "data_slot d = (case ed_scheduledFor d of None \<Rightarrow> Manual | Some t \<Rightarrow> Slot t)"

definition entry_claim :: "exec_job_data \<Rightarrow> claim" where
  "entry_claim d = (ej_executionId d, ej_jobId d, ej_fireSlot d)"

fun may_call :: "claim set \<Rightarrow> req \<Rightarrow> bool" where
  "may_call H (QueueAdd d opt) \<longleftrightarrow> entry_claim d \<in> H"
| "may_call H _ \<longleftrightarrow> True"

definition held_after :: "claim set \<Rightarrow> req \<Rightarrow> resp \<Rightarrow> claim set" where
  "held_after H q r = (case q of
     ExecCreate d \<Rightarrow> (case r of RExec e \<Rightarrow> insert (exec_id e, ed_jobId d, data_slot d) H | _ \<Rightarrow> H)
   | QueueAdd d opt \<Rightarrow> H - {entry_claim d}
   | _ \<Rightarrow> H)"

primrec disc :: "'a prog \<Rightarrow> ('a \<Rightarrow> claim set \<Rightarrow> bool) \<Rightarrow> (err \<Rightarrow> claim set \<Rightarrow> bool) \<Rightarrow> claim set \<Rightarrow> bool" where
  "disc (Ret a) Q E H = Q a H"
| "disc (Throw e) Q E H = E e H"
| "disc (Call q k) Q E H = (may_call H q \<and> (\<forall>r. disc (k r) Q E (held_after H q r)))"

abbreviation disciplined :: "'a prog \<Rightarrow> claim set \<Rightarrow> bool" where
  "disciplined p H \<equiv> disc p (\<lambda>_ _. True) (\<lambda>_ _. True) H"

lemma disc_bind [simp]: "disc (bind p f) Q E H = disc p (\<lambda>a H'. disc (f a) Q E H') E H"
  by (induction p arbitrary: H) simp_all

lemma disc_try_catch [simp]: "disc (try_catch p h) Q E H = disc p Q (\<lambda>e H'. disc (h e) Q E H') H"
  by (induction p arbitrary: H) simp_all

lemma disc_mono:
  "disc p Q E H \<Longrightarrow> (\<And>a H'. Q a H' \<Longrightarrow> Q' a H') \<Longrightarrow> (\<And>e H'. E e H' \<Longrightarrow> E' e H') \<Longrightarrow> disc p Q' E' H"
  by (induction p arbitrary: H) auto

text \<open>Programs that touch neither executions' creation nor the queue keep what they hold.\<close>

fun neutral :: "req \<Rightarrow> bool" where
  "neutral (ExecCreate d) = False"
| "neutral (QueueAdd d opt) = False"
| "neutral _ = True"

lemma neutral_call: "neutral q \<Longrightarrow> may_call H q" "neutral q \<Longrightarrow> held_after H q r = H"
  by (cases q; simp add: held_after_def)+

abbreviation quiet :: "'a prog \<Rightarrow> bool" where
  "quiet \<equiv> calls_only neutral"

lemma quiet_disc: "quiet p \<Longrightarrow> (\<And>a. Q a H) \<Longrightarrow> (\<And>e. E e H) \<Longrightarrow> disc p Q E H"
  by (induction p) (auto simp: neutral_call)

lemma disc_for_each:
  "\<forall>x \<in> set xs. \<forall>H. disciplined (f x) H \<Longrightarrow> disciplined (for_each f xs) H"
proof (induction xs arbitrary: H)
  case (Cons y ys K)
  have "disciplined (f y) K" using Cons.prems by simp
  then have "disc (f y) (\<lambda>_ H'. disciplined (for_each f ys) H') (\<lambda>_ _. True) K"
    by (rule disc_mono) (use Cons in simp_all)
  then show ?case by simp
qed simp

section \<open>A cluster of processes\<close>

type_synonym call_log = "(req \<times> resp) list"
type_synonym 'w cluster = "'w \<times> unit prog list \<times> call_log"

inductive cluster_step :: "'w services \<Rightarrow> unit prog set \<Rightarrow> 'w cluster \<Rightarrow> 'w cluster \<Rightarrow> bool"
  for svc :: "'w services" and progs :: "unit prog set" where
  serve: "i < length ps \<Longrightarrow> ps ! i = Call q k \<Longrightarrow> svc q w = (r, w') \<Longrightarrow>
    cluster_step svc progs (w, ps, l) (w', ps[i := k r], l @ [(q, r)])"
| start: "p \<in> progs \<Longrightarrow> cluster_step svc progs (w, ps, l) (w, ps @ [p], l)"
| crash: "i < length ps \<Longrightarrow> cluster_step svc progs (w, ps, l) (w, ps[i := Ret ()], l)"

inductive reachable :: "'w services \<Rightarrow> unit prog set \<Rightarrow> 'w \<Rightarrow> 'w cluster \<Rightarrow> bool"
  for svc :: "'w services" and progs :: "unit prog set" and w0 :: 'w where
  init: "reachable svc progs w0 (w0, [], [])"
| step: "reachable svc progs w0 c \<Longrightarrow> cluster_step svc progs c c' \<Longrightarrow> reachable svc progs w0 c'"

text \<open>What a log says: the claims created and the claims enqueued, in order.\<close>

definition created_claim :: "req \<times> resp \<Rightarrow> claim option" where
  "created_claim c = (case fst c of
     ExecCreate d \<Rightarrow> (case snd c of RExec e \<Rightarrow> Some (exec_id e, ed_jobId d, data_slot d) | _ \<Rightarrow> None)
   | _ \<Rightarrow> None)"

definition enqueued_claim :: "req \<times> resp \<Rightarrow> claim option" where
  "enqueued_claim c = (case fst c of QueueAdd d opt \<Rightarrow> Some (entry_claim d) | _ \<Rightarrow> None)"

definition created :: "call_log \<Rightarrow> claim list" where
  "created l = List.map_filter created_claim l"

definition enqueued :: "call_log \<Rightarrow> claim list" where
  "enqueued l = List.map_filter enqueued_claim l"

lemma log_simps [simp]:
  "created [] = []" "enqueued [] = []"
  "created (l @ [c]) = created l @ (case created_claim c of None \<Rightarrow> [] | Some x \<Rightarrow> [x])"
  "enqueued (l @ [c]) = enqueued l @ (case enqueued_claim c of None \<Rightarrow> [] | Some x \<Rightarrow> [x])"
  by (simp_all add: created_def enqueued_def List.map_filter_def split: option.split)

section \<open>The invariant\<close>

text \<open>
  \<open>Hs\<close> are the claims the programs in flight hold: created by them and not yet enqueued. Claims
  are held by one program at a time, are enqueued at most once, and two claims of one scheduled
  slot of a job are the same claim, because each is backed.
\<close>

definition claims_ok :: "store \<Rightarrow> claim list \<Rightarrow> bool" where
  "claims_ok s cs \<longleftrightarrow> (\<forall>(x, j, f) \<in> set cs. x \<in> st_ids s \<and> (\<forall>t. f = Slot t \<longrightarrow> backed s (x, j, t))) \<and>
     (\<forall>x y j t. (x, j, Slot t) \<in> set cs \<longrightarrow> (y, j, Slot t) \<in> set cs \<longrightarrow> x = y)"

definition holders_ok :: "claim set list \<Rightarrow> call_log \<Rightarrow> bool" where
  "holders_ok Hs l \<longleftrightarrow>
     (\<forall>i < length Hs. Hs ! i \<subseteq> set (created l) - set (enqueued l)) \<and>
     (\<forall>i j. i < j \<longrightarrow> j < length Hs \<longrightarrow> Hs ! i \<inter> Hs ! j = {}) \<and>
     distinct (enqueued l) \<and> set (enqueued l) \<subseteq> set (created l)"

definition cluster_inv :: "'w view \<Rightarrow> 'w cluster \<Rightarrow> bool" where
  "cluster_inv V c \<longleftrightarrow> (case c of (w, ps, l) \<Rightarrow>
     tables_wf (V w) \<and> claims_ok (V w) (created l) \<and>
     (\<exists>Hs. length Hs = length ps \<and> holders_ok Hs l \<and> (\<forall>i < length ps. disciplined (ps ! i) (Hs ! i))))"

lemma claims_ok_kept: "claims_ok s cs \<Longrightarrow> tables_kept s s' \<Longrightarrow> claims_ok s' cs"
  unfolding claims_ok_def tables_kept_def by auto

text \<open>A successful insertion at a slot means that the slot had no claim.\<close>

lemma claims_ok_create:
  assumes "claims_ok s cs" "tables_wf s" "exec_inserted d e s s'"
  shows "claims_ok s' (cs @ [(exec_id e, ed_jobId d, data_slot d)])"
    and "\<forall>j f. (exec_id e, j, f) \<notin> set cs"
proof -
  note ins = exec_inserted_select [OF assms(3)]
  have old: "claims_ok s' cs"
    using claims_ok_kept [OF assms(1) exec_inserted_kept [OF assms(2,3)]] .
  show new: "\<forall>j f. (exec_id e, j, f) \<notin> set cs"
    using assms(1) ins(7) by (auto simp: claims_ok_def)
  have free: "(y, ed_jobId d, Slot t) \<notin> set cs" if "ed_scheduledFor d = Some t" for y t
  proof
    assume "(y, ed_jobId d, Slot t) \<in> set cs"
    then have "backed s (y, ed_jobId d, t)" using assms(1) by (auto simp: claims_ok_def)
    moreover have "\<not> slot_taken s (ed_jobId d) t" using assms(3) that by (simp add: exec_inserted_def)
    ultimately show False using ins(8) by (auto simp: backed_def slot_taken_def)
  qed
  have "backed s' (exec_id e, ed_jobId d, t)" if "data_slot d = Slot t" for t
    using that ins by (auto simp: backed_def data_slot_def split: option.splits)
  with old free ins(9) show "claims_ok s' (cs @ [(exec_id e, ed_jobId d, data_slot d)])"
    unfolding claims_ok_def data_slot_def by (auto split: option.splits)
qed

lemma holders_ok_shrink:
  assumes "holders_ok Hs l" "i < length Hs" "H \<subseteq> Hs ! i"
  shows "holders_ok (Hs[i := H]) l"
  unfolding holders_ok_def
proof (intro conjI allI impI)
  fix a b
  assume "a < b" "b < length (Hs[i := H])"
  moreover from this assms have "Hs ! a \<inter> Hs ! b = {}" by (simp add: holders_ok_def)
  ultimately show "Hs[i := H] ! a \<inter> Hs[i := H] ! b = {}"
    using assms(3) by (cases "a = i"; cases "b = i") (auto simp: nth_list_update)
qed (use assms in \<open>auto simp: holders_ok_def nth_list_update\<close>)

lemma holders_ok_create:
  assumes "holders_ok Hs l" "i < length Hs" "c \<notin> set (created l)"
    "created (l @ [x]) = created l @ [c]" "enqueued (l @ [x]) = enqueued l"
  shows "holders_ok (Hs[i := insert c (Hs ! i)]) (l @ [x])"
  unfolding holders_ok_def
proof (intro conjI allI impI)
  have sub: "Hs ! a \<subseteq> set (created l) - set (enqueued l)" if "a < length Hs" for a
    using assms(1) that by (simp add: holders_ok_def)
  have enq: "c \<notin> set (enqueued l)" using assms(1,3) by (auto simp: holders_ok_def)
  show "Hs[i := insert c (Hs ! i)] ! a \<subseteq> set (created (l @ [x])) - set (enqueued (l @ [x]))"
    if "a < length (Hs[i := insert c (Hs ! i)])" for a
    using that sub [of a] enq assms by (auto simp: nth_list_update)
  show "Hs[i := insert c (Hs ! i)] ! a \<inter> Hs[i := insert c (Hs ! i)] ! b = {}"
    if "a < b" "b < length (Hs[i := insert c (Hs ! i)])" for a b
  proof -
    have "Hs ! a \<inter> Hs ! b = {}" using assms(1) that by (simp add: holders_ok_def)
    with sub [of a] sub [of b] that assms(2,3) show ?thesis
      by (cases "a = i"; cases "b = i") (auto simp: nth_list_update)
  qed
qed (use assms in \<open>auto simp: holders_ok_def\<close>)

lemma holders_ok_enqueue:
  assumes "holders_ok Hs l" "i < length Hs" "c \<in> Hs ! i"
    "enqueued (l @ [x]) = enqueued l @ [c]" "created (l @ [x]) = created l"
  shows "holders_ok (Hs[i := Hs ! i - {c}]) (l @ [x])"
  unfolding holders_ok_def
proof (intro conjI allI impI)
  have dis: "Hs ! a \<inter> Hs ! b = {}" if "a < b" "b < length Hs" for a b
    using assms(1) that by (simp add: holders_ok_def)
  have only: "c \<notin> Hs ! a" if "a < length Hs" "a \<noteq> i" for a
    using dis [of a i] dis [of i a] that assms(2,3) by (metis disjoint_iff linorder_neqE_nat)
  have c: "c \<in> set (created l)" "c \<notin> set (enqueued l)"
    using assms(1-3) by (auto simp: holders_ok_def)
  show "Hs[i := Hs ! i - {c}] ! a \<subseteq> set (created (l @ [x])) - set (enqueued (l @ [x]))"
    if "a < length (Hs[i := Hs ! i - {c}])" for a
    using that only [of a] assms by (auto simp: nth_list_update holders_ok_def)
  show "Hs[i := Hs ! i - {c}] ! a \<inter> Hs[i := Hs ! i - {c}] ! b = {}"
    if "a < b" "b < length (Hs[i := Hs ! i - {c}])" for a b
    using dis [of a b] that by (cases "a = i"; cases "b = i") (auto simp: nth_list_update)
  show "distinct (enqueued (l @ [x]))" using assms(1,4) c by (simp add: holders_ok_def)
  show "set (enqueued (l @ [x])) \<subseteq> set (created (l @ [x]))"
    using assms(1,4,5) c by (simp add: holders_ok_def)
qed

section \<open>Disciplined programs never enqueue a slot twice\<close>

lemma serve_inv:
  assumes "services_ok svc V" "cluster_inv V (w, ps, l)" "i < length ps" "ps ! i = Call q k" "svc q w = (r, w')"
  shows "cluster_inv V (w', ps[i := k r], l @ [(q, r)])"
proof -
  from assms(2) obtain Hs where wf: "tables_wf (V w)" and cl: "claims_ok (V w) (created l)"
    and Hs: "length Hs = length ps" "holders_ok Hs l" "\<forall>i < length ps. disciplined (ps ! i) (Hs ! i)"
    by (auto simp: cluster_inv_def)
  have eff: "call_effect q r (V w) (V w')" using assms(1,5) by (rule services_okD)
  have kept: "tables_kept (V w) (V w')" using wf eff by (rule call_effect_kept)
  from Hs(3) assms(3,4) have may: "may_call (Hs ! i) q" and nxt: "disciplined (k r) (held_after (Hs ! i) q r)"
    by (metis disc.simps(3))+
  let ?Hs = "Hs[i := held_after (Hs ! i) q r]"
  have "claims_ok (V w') (created (l @ [(q, r)])) \<and> holders_ok ?Hs (l @ [(q, r)])"
  proof (cases "\<exists>d e. q = ExecCreate d \<and> r = RExec e")
    case True
    then obtain d e where q: "q = ExecCreate d" "r = RExec e" by blast
    with eff obtain t where ins: "exec_inserted d e ((V w)\<lparr>st_clock := t\<rparr>) (V w')"
      by (auto simp: call_effect_def instant_effect_def done_effect_def ok_effect_def)
    have "claims_ok ((V w)\<lparr>st_clock := t\<rparr>) (created l)" "tables_wf ((V w)\<lparr>st_clock := t\<rparr>)"
      using cl wf by (simp_all add: claims_ok_def backed_def tables_wf_clock)
    note new = claims_ok_create [OF this ins]
    have log: "created (l @ [(q, r)]) = created l @ [(exec_id e, ed_jobId d, data_slot d)]"
      "enqueued (l @ [(q, r)]) = enqueued l"
      by (simp_all add: q created_claim_def enqueued_claim_def)
    have "holders_ok (Hs[i := insert (exec_id e, ed_jobId d, data_slot d) (Hs ! i)]) (l @ [(q, r)])"
      using Hs assms(3) new(2) log by (intro holders_ok_create) simp_all
    with new(1) log show ?thesis by (simp add: q held_after_def)
  next
    case False
    have log: "created (l @ [(q, r)]) = created l"
      using False by (auto simp: created_claim_def split: req.splits resp.splits)
    have cl': "claims_ok (V w') (created (l @ [(q, r)]))"
      unfolding log using cl kept by (rule claims_ok_kept)
    show ?thesis
    proof (cases "\<exists>d opt. q = QueueAdd d opt")
      case True
      then obtain d opt where q: "q = QueueAdd d opt" by blast
      have "holders_ok (Hs[i := Hs ! i - {entry_claim d}]) (l @ [(q, r)])"
        using Hs assms(3) may log by (intro holders_ok_enqueue) (simp_all add: q enqueued_claim_def)
      with cl' show ?thesis by (simp add: q held_after_def)
    next
      case no: False
      have "held_after (Hs ! i) q r = Hs ! i" "enqueued (l @ [(q, r)]) = enqueued l"
        using False no by (auto simp: held_after_def enqueued_claim_def split: req.splits resp.splits)
      with cl' Hs(2) log show ?thesis by (simp add: holders_ok_def)
    qed
  qed
  moreover have "\<forall>a < length (ps[i := k r]). disciplined (ps[i := k r] ! a) (?Hs ! a)"
    using Hs assms(3) nxt by (simp add: nth_list_update)
  ultimately show ?thesis
    using kept Hs(1) unfolding cluster_inv_def tables_kept_def
    by (auto intro!: exI [of _ ?Hs])
qed

text \<open>A slot that is claimed at the start is never claimed again, not even after its job is deleted.\<close>

lemma backed_never_created:
  assumes "services_ok svc V" "tables_wf (V w0)" "backed (V w0) (x, j, t)" "reachable svc P w0 c"
  shows "case c of (w, ps, l) \<Rightarrow> tables_wf (V w) \<and> backed (V w) (x, j, t) \<and> (\<forall>y. (y, j, Slot t) \<notin> set (created l))"
  using assms(4)
proof induction
  case init
  with assms(2,3) show ?case by simp
next
  case (step a b)
  from step(2) show ?case
  proof cases
    case (serve i ps q k w r w' l)
    with step(3) have inv: "tables_wf (V w)" "backed (V w) (x, j, t)" "\<forall>y. (y, j, Slot t) \<notin> set (created l)" by simp_all
    have eff: "call_effect q r (V w) (V w')" using assms(1) serve(5) by (rule services_okD)
    have kept: "tables_kept (V w) (V w')" using inv(1) eff by (rule call_effect_kept)
    have "created_claim (q, r) \<noteq> Some (y, j, Slot t)" for y
    proof
      assume claim: "created_claim (q, r) = Some (y, j, Slot t)"
      then obtain d e where q: "q = ExecCreate d" "r = RExec e" "ed_jobId d = j" "data_slot d = Slot t"
        by (auto simp: created_claim_def split: req.splits resp.splits)
      with eff obtain u where ins: "exec_inserted d e ((V w)\<lparr>st_clock := u\<rparr>) (V w')"
        by (auto simp: call_effect_def instant_effect_def done_effect_def ok_effect_def)
      from q(4) have "ed_scheduledFor d = Some t" by (auto simp: data_slot_def split: option.splits)
      with ins q(3) have "\<not> slot_taken (V w) j t" "st_jobs (V w) j \<noteq> None"
        by (auto simp: exec_inserted_def slot_taken_def)
      with inv(2) show False by (auto simp: backed_def slot_taken_def)
    qed
    then have "\<forall>y. (y, j, Slot t) \<notin> set (created (l @ [(q, r)]))" using inv(3) by (auto split: option.splits) metis
    with inv kept serve show ?thesis by (simp add: tables_kept_def)
  qed (use step(3) in auto)
qed

section \<open>Running one program to its end\<close>

primrec run_log :: "'w services \<Rightarrow> 'a prog \<Rightarrow> 'w \<Rightarrow> call_log" where
  "run_log svc (Ret a) w = []"
| "run_log svc (Throw e) w = []"
| "run_log svc (Call q k) w = (case svc q w of (r, w') \<Rightarrow> (q, r) # run_log svc (k r) w')"

lemma run_log_bind: "run_log svc (bind p f) w =
    run_log svc p w @ (case run svc p w of (Inl e, w') \<Rightarrow> [] | (Inr a, w') \<Rightarrow> run_log svc (f a) w')"
  by (induction p arbitrary: w) (auto split: prod.splits)

lemma reachable_run:
  assumes "reachable svc P w0 (w, ps, l)" "i < length ps" "ps ! i = p" "run svc p w = (res, w')"
  shows "reachable svc P w0 (w', ps[i := case res of Inl e \<Rightarrow> Throw e | Inr a \<Rightarrow> Ret a], l @ run_log svc p w)"
  using assms
proof (induction p arbitrary: w ps l)
  case (Call q k)
  obtain r u where u: "svc q w = (r, u)" by fastforce
  have "reachable svc P w0 (u, ps[i := k r], l @ [(q, r)])"
    using Call.prems(1) by (rule reachable.step) (rule cluster_step.serve, (fact Call.prems u)+)
  from Call.IH [OF _ this, of "k r"] Call.prems u show ?case by simp
qed (metis append_Nil2 list_update_id prod.inject run.simps(1,2) run_log.simps(1,2) sum.case)+

lemma reachable_start:
  "reachable svc P w0 (w, ps, l) \<Longrightarrow> p \<in> P \<Longrightarrow> reachable svc P w0 (w, ps @ [p], l)"
  by (erule reachable.step) (rule cluster_step.start)

text \<open>A started program can run to its end next to all others.\<close>

lemma reachable_start_run:
  assumes "reachable svc P w0 (w, ps, l)" "p \<in> P" "run svc p w = (res, w')"
  shows "\<exists>ps'. reachable svc P w0 (w', ps', l @ run_log svc p w)"
  using reachable_run [OF reachable_start [OF assms(1,2)], of "length ps" p res w'] assms(3) by auto

locale enqueue_discipline =
  fixes progs :: "'c \<Rightarrow> unit prog set"
  assumes follows: "p \<in> progs c \<Longrightarrow> disciplined p {}"
begin

lemma step_inv:
  assumes "services_ok svc V" "cluster_step svc (progs c) a b" "cluster_inv V a"
  shows "cluster_inv V b"
  using assms(2)
proof cases
  case (serve i ps q k w r w' l)
  then show ?thesis using serve_inv [OF assms(1)] assms(3) by blast
next
  case (start p w ps l)
  with assms(3) obtain Hs where Hs: "length Hs = length ps" "holders_ok Hs l"
      "\<forall>i < length ps. disciplined (ps ! i) (Hs ! i)" "tables_wf (V w)" "claims_ok (V w) (created l)"
    by (auto simp: cluster_inv_def)
  have "holders_ok (Hs @ [{}]) l" using Hs(2) by (auto simp: holders_ok_def nth_append)
  with Hs follows [OF start(3)] start show ?thesis
    unfolding cluster_inv_def by (auto simp: nth_append less_Suc_eq intro!: exI [of _ "Hs @ [{}]"])
next
  case (crash i ps w l)
  with assms(3) obtain Hs where Hs: "length Hs = length ps" "holders_ok Hs l"
      "\<forall>i < length ps. disciplined (ps ! i) (Hs ! i)" "tables_wf (V w)" "claims_ok (V w) (created l)"
    by (auto simp: cluster_inv_def)
  with holders_ok_shrink [OF Hs(2), of i "{}"] crash show ?thesis
    unfolding cluster_inv_def by (auto simp: nth_list_update intro!: exI [of _ "Hs[i := {}]"])
qed

lemma reachable_inv:
  assumes "services_ok svc V" "tables_wf (V w0)" "reachable svc (progs c) w0 a"
  shows "cluster_inv V a"
  using assms(3)
proof induction
  case init
  with assms(2) show ?case by (simp add: cluster_inv_def claims_ok_def holders_ok_def)
next
  case (step a b)
  with step_inv [OF assms(1)] show ?case by blast
qed

text \<open>One enqueue per scheduled slot, and only of executions created before.\<close>

lemma one_enqueue_per_slot:
  assumes "services_ok svc V" "tables_wf (V w0)" "reachable svc (progs c) w0 (w, ps, l)"
  shows "distinct [(j, t). (x, j, Slot t) \<leftarrow> enqueued l]"
    and "set (enqueued l) \<subseteq> set (created l)"
proof -
  from reachable_inv [OF assms] have inv: "distinct (enqueued l)" "set (enqueued l) \<subseteq> set (created l)"
    and uniq: "\<forall>x y j t. (x, j, Slot t) \<in> set (created l) \<longrightarrow> (y, j, Slot t) \<in> set (created l) \<longrightarrow> x = y"
    by (auto simp: cluster_inv_def holders_ok_def claims_ok_def)
  show "set (enqueued l) \<subseteq> set (created l)" by fact
  have "distinct [(j, t). (x, j, Slot t) \<leftarrow> cs]" if "distinct cs" "set cs \<subseteq> set (created l)" for cs
    using that
  proof (induction cs)
    case (Cons c cs)
    then have "distinct [(j, t). (x, j, Slot t) \<leftarrow> cs]" by simp
    moreover have "(j, t) \<notin> set [(j, t). (x, j, Slot t) \<leftarrow> cs]" if "c = (x, j, Slot t)" for x j t
    proof
      assume "(j, t) \<in> set [(j, t). (x, j, Slot t) \<leftarrow> cs]"
      then obtain y where "(y, j, Slot t) \<in> set cs" by (auto split: fire_slot.splits)
      with uniq Cons.prems that show False by (metis distinct.simps(2) list.set_intros(1) subsetD list.set_intros(2))
    qed
    ultimately show ?case by (cases c; cases "snd (snd c)") auto
  qed simp
  with inv show "distinct [(j, t). (x, j, Slot t) \<leftarrow> enqueued l]" by blast
qed

end

end
