(* ===== verification/Processes.thy ===== *)
theory Processes
  imports Connections Scheduler Worker Leader Api_Server Interleaving "HOL-Library.Sublist"
begin

text \<open>
  The three processes: \<open>main\<close> and \<open>shutdown\<close> of \<open>src/scheduler.ts\<close> and \<open>src/worker.ts\<close>, and the start and \<open>shutdown\<close> of
  \<open>src/server.ts\<close>. What a process opens, closes and arms are \<open>Process\<close> calls. The variables that \<open>main\<close>
  keeps are a record (a scan is taken to read the time of the last logged outage when it starts); an event of the process (a timer, a signal, the end of a task) gives the new record and the tasks
  that it starts. A task runs concurrently with everything else, as in theory \<open>Interleaving\<close>.
\<close>

section \<open>Opening and closing\<close>

text \<open>\<open>arm\<close> is a call whose result the code does not wait for, \<open>close_step\<close> is one that it awaits.\<close>

definition arm :: "process_req \<Rightarrow> unit prog" where
  "arm q = Call (Process q) (\<lambda>_. Ret ())"

definition close_step :: "process_req \<Rightarrow> unit prog" where
  "close_step q = call_unit (Process q)"

definition disconnectPrisma :: "unit prog" where
  "disconnectPrisma = close_step DbDisconnect"

definition startMetricsServer :: "int \<Rightarrow> unit prog" where
  "startMetricsServer port = arm (Listen port)"

section \<open>The scheduler process\<close>

record scheduler_process =
  sp_election :: "election option"
  sp_scanning :: bool \<comment> \<open>the scan interval is armed\<close>
  sp_lastLog :: time

definition scheduler_opts :: "env \<Rightarrow> election_opts" where
  "scheduler_opts cfg = \<lparr>eo_leaseTtlMs = Some (LEADER_LEASE_MS cfg), eo_heartbeatMs = None\<rparr>"

definition scan_task :: "cron_parser \<Rightarrow> env \<Rightarrow> scheduler_process \<Rightarrow> unit prog" where
  "scan_task cp cfg p = silent (scheduler_run cp cfg (map_option isLeader (sp_election p)) (sp_lastLog p))"

definition campaign_tasks :: "election option \<Rightarrow> unit prog list" where
  "campaign_tasks el = (case el of Some e \<Rightarrow> if el_stopped e then [] else [silent (campaign e)] | None \<Rightarrow> [])"

text \<open>
  \<open>main\<close> with the tasks it starts: the first campaign and the first scan. The code starts the scan before it arms the
  interval; as a task interleaves with all other calls, the order makes no difference to what can happen. With leader election
  the first scan finds the flag unset and does nothing.
\<close>

definition scheduler_main :: "cron_parser \<Rightarrow> env \<Rightarrow> (scheduler_process \<times> unit prog list) prog" where
  "scheduler_main cp cfg =
     bind (startMetricsServer (SCHEDULER_METRICS_PORT cfg)) (\<lambda>_.
     bind (if SCHEDULER_LEADER_ELECTION cfg
           then bind (new_election (scheduler_opts cfg)) (\<lambda>e.
                bind (arm (SetInterval (election_heartbeat (scheduler_opts cfg)))) (\<lambda>_. Ret (Some e)))
           else Ret None) (\<lambda>el.
     let p = \<lparr>sp_election = el, sp_scanning = True, sp_lastLog = 0\<rparr> in
     bind (arm (SetInterval (SCHEDULER_SCAN_MS cfg))) (\<lambda>_.
     Ret (p, campaign_tasks el @ [scan_task cp cfg p]))))"

definition scheduler_shutdown :: "election option \<Rightarrow> unit prog" where
  "scheduler_shutdown el =
     bind (arm ClearInterval) (\<lambda>_.
     bind (case el of Some e \<Rightarrow> bind (stop e) (\<lambda>_. Ret ()) | None \<Rightarrow> Ret ()) (\<lambda>_.
     bind (arm CloseListener) (\<lambda>_.
     bind (close_step (CloseQueue QUEUE_EXECUTION)) (\<lambda>_.
     bind (close_step RedisQuit) (\<lambda>_.
     bind (close_step DbDisconnect) (\<lambda>_.
     arm (Exit 0)))))))"

datatype scheduler_event = ScanTimer | HeartbeatTimer | ScanEnded time | CampaignEnded bool | StopSignal

definition scheduler_on ::
  "cron_parser \<Rightarrow> env \<Rightarrow> scheduler_event \<Rightarrow> scheduler_process \<Rightarrow> scheduler_process \<times> unit prog list" where
  "scheduler_on cp cfg ev p = (case ev of
     ScanTimer \<Rightarrow> (p, if sp_scanning p then [scan_task cp cfg p] else [])
   | HeartbeatTimer \<Rightarrow> (p, campaign_tasks (sp_election p))
   | ScanEnded t \<Rightarrow> (p\<lparr>sp_lastLog := t\<rparr>, [])
   | CampaignEnded b \<Rightarrow> (p\<lparr>sp_election := map_option (\<lambda>e. e\<lparr>el_leader := b\<rparr>) (sp_election p)\<rparr>, [])
   | StopSignal \<Rightarrow> (p\<lparr>sp_scanning := False,
        sp_election := map_option (\<lambda>e. e\<lparr>el_stopped := True\<rparr>) (sp_election p)\<rparr>,
        [scheduler_shutdown (sp_election p)]))"

text \<open>The tasks started by a sequence of events.\<close>

fun scheduler_tasks :: "cron_parser \<Rightarrow> env \<Rightarrow> scheduler_event list \<Rightarrow> scheduler_process \<Rightarrow> unit prog list" where
  "scheduler_tasks cp cfg [] p = []"
| "scheduler_tasks cp cfg (ev # evs) p =
     (case scheduler_on cp cfg ev p of (p', ts) \<Rightarrow> ts @ scheduler_tasks cp cfg evs p')"

section \<open>The worker process\<close>

text \<open>
  \<open>startWorker\<close>: BullMQ starts \<open>processExecutionJob\<close> for each delivery, at most \<open>WORKER_CONCURRENCY\<close> at a time; the module
  variable \<open>worker\<close> says whether there is a consumer to close.
\<close>

record worker_process =
  wk_worker :: bool

definition startWorker :: "env \<Rightarrow> worker_process prog" where
  "startWorker cfg =
     bind (arm (Consume QUEUE_EXECUTION QUEUE_PREFIX (WORKER_CONCURRENCY cfg))) (\<lambda>_.
     Ret \<lparr>wk_worker = True\<rparr>)"

definition worker_main :: "env \<Rightarrow> worker_process prog" where
  "worker_main cfg =
     bind (startWorker cfg) (\<lambda>p.
     bind (startMetricsServer (WORKER_METRICS_PORT cfg)) (\<lambda>_. Ret p))"

definition worker_shutdown :: "worker_process \<Rightarrow> unit prog" where
  "worker_shutdown p =
     bind (arm CloseListener) (\<lambda>_.
     bind (if wk_worker p then close_step StopConsuming else Ret ()) (\<lambda>_.
     bind (close_step (CloseQueue QUEUE_DEAD_LETTER)) (\<lambda>_.
     bind (close_step RedisQuit) (\<lambda>_.
     bind (close_step DbDisconnect) (\<lambda>_.
     arm (Exit 0))))))"

text \<open>Only a process started from a file with \<open>worker\<close> in its path runs \<open>main\<close>; an importing test does not.\<close>

definition isEntrypoint :: "string option \<Rightarrow> bool" where
  "isEntrypoint argv1 = (case argv1 of Some path \<Rightarrow> includes_str path ''worker'' | None \<Rightarrow> False)"

definition worker_module :: "env \<Rightarrow> string option \<Rightarrow> worker_process prog" where
  "worker_module cfg argv1 = (if isEntrypoint argv1 then worker_main cfg else Ret \<lparr>wk_worker = False\<rparr>)"

section \<open>The API process\<close>

text \<open>
  The start of \<open>src/server.ts\<close>: the subscription to the events channel, whose outcome is only logged, and the listener. The result
  says whether it warned that the management API is open (\<open>authEnabled()\<close> is false).
\<close>

definition server_start :: "env \<Rightarrow> bool prog" where
  "server_start cfg =
     bind (arm (Subscribe EVENTS_CHANNEL)) (\<lambda>_.
     bind (arm (Listen (API_PORT cfg))) (\<lambda>_.
     Ret (\<not> authEnabled cfg)))"

definition server_shutdown :: "unit prog" where
  "server_shutdown =
     bind (arm CloseSockets) (\<lambda>_.
     bind (close_step CloseListener) (\<lambda>_.
     bind (arm Unsubscribe) (\<lambda>_.
     bind (close_step RedisQuit) (\<lambda>_.
     bind disconnectPrisma (\<lambda>_.
     arm (Exit 0))))))"

section \<open>What a process calls\<close>

definition process_calls :: "call_log \<Rightarrow> process_req list" where
  "process_calls l = List.map_filter (\<lambda>c. case fst c of Process q \<Rightarrow> Some q | _ \<Rightarrow> None) l"

lemma process_calls_simps [simp]:
  "process_calls [] = []" "process_calls (l @ k) = process_calls l @ process_calls k"
  "process_calls ((Process q, r) # l) = q # process_calls l"
  "(\<nexists>q. fst c = Process q) \<Longrightarrow> process_calls (c # l) = process_calls l"
  by (auto simp: process_calls_def List.map_filter_def split: req.split)

text \<open>
  A stepwise program makes the process calls of its plan in that order, up to the first that fails, and all of them if it
  succeeds. An orderly program succeeds exactly if it has made all of them: its last call is one whose failure it ignores.
\<close>

definition succeeds :: "'w services \<Rightarrow> 'a prog \<Rightarrow> 'w \<Rightarrow> bool" where
  "succeeds svc p w \<longleftrightarrow> (\<exists>a. fst (run svc p w) = Inr a)"

definition stepwise :: "'w services \<Rightarrow> 'a prog \<Rightarrow> process_req list \<Rightarrow> bool" where
  "stepwise svc p plan \<longleftrightarrow> (\<forall>w. prefix (process_calls (run_log svc p w)) plan \<and>
     (succeeds svc p w \<longrightarrow> process_calls (run_log svc p w) = plan))"

definition orderly :: "'w services \<Rightarrow> 'a prog \<Rightarrow> process_req list \<Rightarrow> bool" where
  "orderly svc p plan \<longleftrightarrow> (\<forall>w. prefix (process_calls (run_log svc p w)) plan \<and>
     (succeeds svc p w \<longleftrightarrow> process_calls (run_log svc p w) = plan))"

lemma orderly_arm: "orderly svc (arm q) [q]"
  by (auto simp: orderly_def succeeds_def arm_def split: prod.splits)

lemma stepwise_arm: "stepwise svc (arm q) [q]"
  by (auto simp: stepwise_def arm_def split: prod.splits)

lemma stepwise_close: "stepwise svc (close_step q) [q]"
  by (auto simp: stepwise_def succeeds_def close_step_def call_unit_def prefix_Cons split: prod.splits resp.splits)

lemma stepwise_bind_orderly:
  assumes "stepwise svc p xs" "\<And>a. orderly svc (f a) ys" "ys \<noteq> []"
  shows "orderly svc (bind p f) (xs @ ys)"
  unfolding orderly_def
proof
  fix w
  obtain r u where r: "run svc p w = (r, u)" by fastforce
  have p: "prefix (process_calls (run_log svc p w)) xs" "succeeds svc p w \<Longrightarrow> process_calls (run_log svc p w) = xs"
    using assms(1) by (simp_all add: stepwise_def)
  show "prefix (process_calls (run_log svc (bind p f) w)) (xs @ ys) \<and>
    (succeeds svc (bind p f) w \<longleftrightarrow> process_calls (run_log svc (bind p f) w) = xs @ ys)"
  proof (cases r)
    case (Inl e)
    have "process_calls (run_log svc p w) \<noteq> xs @ ys" using p(1) assms(3) by (auto simp: prefix_def)
    with Inl r p(1) show ?thesis by (simp add: succeeds_def run_bind run_log_bind)
  next
    case (Inr a)
    with r p(2) have "process_calls (run_log svc p w) = xs" by (simp add: succeeds_def)
    with Inr r assms(2) [of a] show ?thesis
      by (auto simp: orderly_def succeeds_def run_bind run_log_bind dest!: spec [of _ u])
  qed
qed

lemma stepwise_internal:
  assumes "calls_only (\<lambda>q. \<nexists>pq. q = Process pq) p"
  shows "stepwise svc p []"
proof -
  have "process_calls (run_log svc p w) = []" for w
    using assms by (induction p arbitrary: w) (auto split: prod.splits)
  then show ?thesis by (simp add: stepwise_def)
qed

lemma stop_internal: "stepwise svc (bind (stop e) (\<lambda>_. Ret ())) []"
  by (rule stepwise_internal)
    (auto simp: stop_def setLeader_def Let_def intro!: calls_only_bind calls_only_try_catch)

lemma stepwise_Ret: "stepwise svc (Ret x) []"
  by (simp add: stepwise_def)

lemmas after_arm = stepwise_bind_orderly [OF stepwise_arm]
lemmas after_close = stepwise_bind_orderly [OF stepwise_close]

section \<open>Shutting down\<close>

definition scheduler_plan :: "process_req list" where
  "scheduler_plan = [ClearInterval, CloseListener, CloseQueue QUEUE_EXECUTION, RedisQuit, DbDisconnect, Exit 0]"

definition worker_plan :: "worker_process \<Rightarrow> process_req list" where
  "worker_plan p = [CloseListener] @ (if wk_worker p then [StopConsuming] else []) @
     [CloseQueue QUEUE_DEAD_LETTER, RedisQuit, DbDisconnect, Exit 0]"

definition server_plan :: "process_req list" where
  "server_plan = [CloseSockets, CloseListener, Unsubscribe, RedisQuit, DbDisconnect, Exit 0]"

lemma quit_orderly:
  "orderly svc (bind (close_step RedisQuit) (\<lambda>_. bind (close_step DbDisconnect) (\<lambda>_. arm (Exit 0)))) [RedisQuit, DbDisconnect, Exit 0]"
  using after_close [OF after_close [OF orderly_arm]] by simp


end
