(* ===== verification/Cluster.thy ===== *)
theory Cluster
  imports Processes
begin

text \<open>
  CronHive as a whole: schedulers, workers, leader candidates and API requests run against the same services,
  interleaved at their calls, and may crash at any of them. All programs follow the enqueue
  discipline of theory \<open>Interleaving\<close>, so its locale applies to the cluster.
\<close>

section \<open>The programs of the cluster\<close>

record cluster_config =
  cc_cron :: cron_parser
  cc_env :: env
  cc_hmac :: "string \<Rightarrow> string \<Rightarrow> string"

inductive cluster_program :: "cluster_config \<Rightarrow> unit prog \<Rightarrow> bool" for cc :: cluster_config where
  scan: "cluster_program cc (silent (scheduler_run (cc_cron cc) (cc_env cc) el lastLog))"
| delivery: "cluster_program cc (processExecutionJob (cc_hmac cc) (cc_env cc) bj)"
| request: "ac_env (sv_api sv) = cc_env cc \<Longrightarrow> ac_cron (sv_api sv) = cc_cron cc \<Longrightarrow>
    cluster_program cc (silent (serve_request sv rq))"
| elect: "cluster_program cc (silent (startLeaderElection opts))"
| heartbeat: "cluster_program cc (silent (campaign e))"
| resign: "cluster_program cc (silent (stop e))"
| start_scheduler: "cluster_program cc (silent (scheduler_main (cc_cron cc) (cc_env cc)))"
| start_worker: "cluster_program cc (silent (worker_module (cc_env cc) argv1))"
| start_server: "cluster_program cc (silent (server_start (cc_env cc)))"
| stop_scheduler: "cluster_program cc (scheduler_shutdown el)"
| stop_worker: "cluster_program cc (worker_shutdown wk)"
| stop_server: "cluster_program cc server_shutdown"

definition cronhive_programs :: "cluster_config \<Rightarrow> unit prog set" where
  "cronhive_programs cc = {p. cluster_program cc p}"

section \<open>Most programs do not touch the queue\<close>

lemma quiet_parts [simp]:
  "quiet (acquireJobLock j f ttl)" "quiet (releaseJobLock l)" "quiet (publishEvent ev)"
  "quiet (getCachedJob i)" "quiet (cacheJobConfig job)" "quiet (invalidateJobConfig i)"
  "quiet (invokeCallback hmac cfg url b t)" "quiet (getJobById i)" "quiet listJobs"
  "quiet (assertValidCron cp e tz)" "quiet (listExecutions i page limit)" "quiet (getJobStats bk i days)"
  by (auto simp: acquireJobLock_def releaseJobLock_def publishEvent_def getCachedJob_def cacheJobConfig_def
      invalidateJobConfig_def invokeCallback_def getJobById_def listJobs_def assertValidCron_def listExecutions_def
      getJobStats_def Let_def
      intro!: calls_only_bind calls_only_try_catch split: option.split)

lemma quiet_worker [simp]: "quiet (processExecutionJob hmac cfg bj)"
  by (auto simp: processExecutionJob_def load_job_def run_attempt_def on_success_def on_retryable_def deadLetter_def
      applyCircuitBreaker_def resetDeadStreak_def Let_def
      intro!: calls_only_bind split: option.split callback_result.split)

lemma quiet_job_service [simp]:
  "quiet (createJob cp parse cfg ci)" "quiet (updateJob cp parse cfg i p)" "quiet (deleteJob i)"
  "quiet (setPaused cp parse cfg i b)" "quiet (bulkSetEnabled ids b)"
proof -
  have safe: "quiet (ensureSafeCallback parse cfg url)" for url
    by (auto simp: ensureSafeCallback_def assertSafeCallbackUrl_def intro!: calls_only_bind calls_only_try_catch
        split: option.split prod.split)
  have upd: "quiet (updateJob cp parse cfg i p)" for p
    by (auto simp: updateJob_def check_cron_def write_job_def safe intro!: calls_only_bind calls_only_try_catch split: option.split)
  have all: "quiet (promise_all invalidateJobConfig is)" for "is"
    by (induction "is") (auto simp: attempt_def intro!: calls_only_bind calls_only_try_catch split: sum.split)
  show "quiet (createJob cp parse cfg ci)" by (auto simp: createJob_def safe intro!: calls_only_bind)
  show "quiet (updateJob cp parse cfg i p)" "quiet (setPaused cp parse cfg i b)" using upd by (simp_all add: setPaused_def)
  show "quiet (deleteJob i)" by (auto simp: deleteJob_def intro!: calls_only_bind calls_only_try_catch)
  show "quiet (bulkSetEnabled ids b)" by (auto simp: bulkSetEnabled_def all intro!: calls_only_bind)
qed

lemma quiet_leader [simp]: "quiet (campaign e)" "quiet (stop e)" "quiet (startLeaderElection opts)"
proof -
  have set: "quiet (setLeader b e)" for b e by (auto simp: setLeader_def)
  show camp: "quiet (campaign e)" for e
    by (auto simp: campaign_def set intro!: calls_only_bind calls_only_try_catch)
  show "quiet (stop e)" by (auto simp: stop_def set Let_def intro!: calls_only_bind calls_only_try_catch)
  show "quiet (startLeaderElection opts)" by (auto simp: startLeaderElection_def new_election_def camp intro!: calls_only_bind)
qed

lemma quiet_processes [simp]:
  "quiet (scheduler_main cp cfg)" "quiet (worker_module cfg argv1)" "quiet (server_start cfg)"
  "quiet (scheduler_shutdown el)" "quiet (worker_shutdown wk)" "quiet server_shutdown"
proof -
  have arm: "quiet (arm q)" "quiet (close_step q)" "quiet (startMetricsServer port)" for q port
    by (simp_all add: arm_def close_step_def startMetricsServer_def)
  show "quiet (scheduler_main cp cfg)"
    by (auto simp: scheduler_main_def new_election_def arm Let_def intro!: calls_only_bind)
  show "quiet (worker_module cfg argv1)"
    by (auto simp: worker_module_def worker_main_def startWorker_def arm intro!: calls_only_bind)
  show "quiet (server_start cfg)" by (auto simp: server_start_def arm intro!: calls_only_bind calls_only_try_catch)
  show "quiet (scheduler_shutdown el)" "quiet (worker_shutdown wk)" "quiet server_shutdown"
    by (auto simp: scheduler_shutdown_def worker_shutdown_def server_shutdown_def disconnectPrisma_def arm intro!: calls_only_bind split: option.split)
qed

section \<open>The programs that enqueue\<close>

lemma disc_create:
  "disc (call_exec (ExecCreate d)) Q E H \<longleftrightarrow>
     (\<forall>e. Q e (insert (exec_id e, ed_jobId d, data_slot d) H)) \<and> (\<forall>e. E e H)"
  by (auto simp: call_exec_def held_after_def split: resp.splits)

lemma disc_enqueue:
  "disc (call_unit (QueueAdd d opt)) Q E H \<longleftrightarrow>
     entry_claim d \<in> H \<and> Q () (H - {entry_claim d}) \<and> (\<forall>e. E e (H - {entry_claim d}))"
  by (auto simp: call_unit_def held_after_def split: resp.splits)

lemma disc_quiet [simp]: "quiet p \<Longrightarrow> disciplined p H"
  by (rule quiet_disc) simp_all

lemma disc_quiet_bind:
  "quiet p \<Longrightarrow> (\<And>a. disc (f a) Q E H) \<Longrightarrow> (\<And>e. E e H) \<Longrightarrow> disc (bind p f) Q E H"
  unfolding disc_bind by (rule quiet_disc)

lemma disc_trigger: "disciplined (post_trigger cfg i) H"
proof -
  have locked: "disciplined (trigger_locked job l) K" for job l K
    by (simp add: trigger_locked_def createExecution_def disc_create disc_enqueue entry_claim_def manual_job_data_def data_slot_def)
  show ?thesis
    unfolding post_trigger_def
    by (auto simp: locked simp del: disc_bind intro!: disc_quiet_bind split: option.split)
qed

lemma disc_fire: "disciplined (fire_slot_of_job cfg j slot) H"
  unfolding fire_slot_of_job_def
  by (rule disc_quiet_bind)
    (simp_all add: createScheduledExecution_def disc_create disc_enqueue entry_claim_def slot_job_data_def scheduled_data_def
      data_slot_def split: option.split)

lemma disc_tick: "disciplined (tick cp cfg) H"
proof -
  have one: "disciplined (tick_job cp cfg j) K" for j K
    unfolding tick_job_def disc_bind by (rule quiet_disc) (auto simp: disc_fire split: option.split)
  show ?thesis
    unfolding tick_def disc_bind
    by (rule quiet_disc, simp, rule quiet_disc, simp, rule disc_mono [OF disc_for_each])
      (auto simp: one)
qed

lemma disc_serve: "disciplined (serve_request sv rq) H"
proof -
  have quiet_route: "quiet (get_jobs)" "quiet (post_jobs cp parse cfg v)" "quiet (post_bulk v)" "quiet (get_job i)"
      "quiet (put_job_route cp parse cfg i v)" "quiet (delete_job_route i)" "quiet (get_executions i pageq limitq)"
      "quiet (get_stats bk i daysq)"
      "quiet (post_paused cp parse cfg b i)" for cp parse cfg v i pageq limitq bk daysq b
    by (auto simp: get_jobs_def post_jobs_def parse_body_def post_bulk_def get_job_def put_job_route_def delete_job_route_def
        get_executions_def get_stats_def post_paused_def Let_def split: option.splits intro!: calls_only_bind)
  have r: "disciplined h H" if "route ac req = Some h" for ac req h
    using that
    by (auto simp: route_def Let_def disc_trigger quiet_route split: list.splits http_method.splits if_splits)
  have "disciplined (dispatch sv rq) H"
    by (auto simp: dispatch_def jobs_chain_def live_handler_def health_handler_def metrics_handler_def root_handler_def Let_def r
        split: option.split sum.split auth_verdict.split intro!: disc_quiet calls_only_bind calls_only_try_catch)
  then show ?thesis unfolding serve_request_def disc_try_catch by (rule disc_mono) simp_all
qed

lemma disc_silent: "disciplined p H \<Longrightarrow> disciplined (silent p) H"
  unfolding silent_def disc_bind by (rule disc_mono) simp_all

interpretation cronhive: enqueue_discipline cronhive_programs
proof
  fix p cc
  assume "p \<in> cronhive_programs cc"
  then have "cluster_program cc p" by (simp add: cronhive_programs_def)
  then show "disciplined p {}"
  proof cases
    case (scan el lastLog)
    have "disciplined (if b then bind date_now (\<lambda>now. if now - lastLog < CONNECTION_ERROR_LOG_MS then Ret (lastLog, False)
        else Ret (now, True)) else Ret (lastLog, True)) K" for b K
      by (auto simp del: disc_bind intro!: disc_quiet_bind)
    then have "disciplined (scheduler_run (cc_cron cc) (cc_env cc) el lastLog) {}"
      using disc_tick [of "cc_cron cc" "cc_env cc" "{}"] by (auto simp: scheduler_run_def elim!: disc_mono)
    with scan show ?thesis by (simp add: disc_silent)
  qed (simp_all add: disc_silent disc_serve)
qed

section \<open>The tasks of a scheduler process\<close>

lemma scheduler_tasks_cluster:
  "set (scheduler_tasks (cc_cron cc) (cc_env cc) evs p) \<subseteq> {t. cluster_program cc t}"
proof (induction evs arbitrary: p)
  case (Cons ev evs)
  have "set (snd (scheduler_on (cc_cron cc) (cc_env cc) ev p)) \<subseteq> {t. cluster_program cc t}"
    by (auto simp: scheduler_on_def scan_task_def campaign_tasks_def intro: cluster_program.intros
        split: scheduler_event.split option.split)
  with Cons.IH [of "fst (scheduler_on (cc_cron cc) (cc_env cc) ev p)"] show ?case by (simp add: case_prod_beta)
qed simp

lemma stopped_tasks:
  "\<not> sp_scanning p \<Longrightarrow> campaign_tasks (sp_election p) = [] \<Longrightarrow>
     set (scheduler_tasks cp cfg evs p) \<subseteq> range scheduler_shutdown"
proof (induction evs arbitrary: p)
  case (Cons ev evs)
  have "\<not> sp_scanning (fst (scheduler_on cp cfg ev p)) \<and> campaign_tasks (sp_election (fst (scheduler_on cp cfg ev p))) = [] \<and>
    set (snd (scheduler_on cp cfg ev p)) \<subseteq> range scheduler_shutdown"
    using Cons.prems
    by (auto simp: scheduler_on_def campaign_tasks_def split: scheduler_event.split option.splits if_splits)
  with Cons.IH [of "fst (scheduler_on cp cfg ev p)"] show ?case by (simp add: case_prod_beta)
qed simp


section \<open>At most one enqueue per slot\<close>

text \<open>The scheduled slots that a log enqueues.\<close>

definition enqueued_slots :: "call_log \<Rightarrow> (string \<times> time) list" where
  "enqueued_slots l = [(j, t). (x, j, Slot t) \<leftarrow> enqueued l]"

text \<open>
  C1: no double fire. In every run of a cluster of any number of schedulers, workers, leader candidates and API requests,
  interleaved in any order, crashed anywhere and with calls that fail before or after they took effect, no scheduled slot
  of a job is enqueued twice, and every entry enqueued belongs to an execution that was inserted before.
\<close>

theorem cluster_enqueues_slot_once:
  assumes "services_ok svc V" "tables_wf (V w0)" "reachable svc (cronhive_programs cc) w0 (w, ps, l)"
  shows "distinct (enqueued_slots l) \<and> set (enqueued l) \<subseteq> set (created l)"
  unfolding enqueued_slots_def
  using cronhive.one_enqueue_per_slot [OF assms] by (intro conjI)

text \<open>Two schedulers that both believe to lead scan one after the other.\<close>

definition sample_cluster :: cluster_config where
  "sample_cluster = \<lparr>cc_cron = minute_parser, cc_env = default_env, cc_hmac = (\<lambda>k m. ''mac'')\<rparr>"

definition sample_scan :: "unit prog" where
  "sample_scan = silent (scheduler_run minute_parser default_env (Some True) 0)"

lemma sample_scan_program: "sample_scan \<in> cronhive_programs sample_cluster"
  using cluster_program.scan [of sample_cluster "Some True" 0]
  by (simp add: cronhive_programs_def sample_scan_def sample_cluster_def)

lemma two_scans_reachable:
  assumes "run svc sample_scan w0 = (r1, w1)" "run svc sample_scan w1 = (r2, w2)"
  shows "\<exists>ps. reachable svc (cronhive_programs sample_cluster) w0
    (w2, ps, run_log svc sample_scan w0 @ run_log svc sample_scan w1)"
proof -
  obtain ps where "reachable svc (cronhive_programs sample_cluster) w0 (w1, ps, [] @ run_log svc sample_scan w0)"
    using reachable_start_run [OF reachable.init sample_scan_program assms(1)] by blast
  from reachable_start_run [OF this sample_scan_program assms(2)] show ?thesis by simp
qed

theorem cluster_enqueues_slot_once_witness:
  "let w0 = ref_start [sample_job] 60500 0; w1 = snd (run ref_svc sample_scan w0)
   in distinct (enqueued_slots (run_log ref_svc sample_scan w0 @ run_log ref_svc sample_scan w1))"
proof -
  let ?w0 = "ref_start [sample_job] 60500 0"
  obtain r1 w1 r2 w2 where runs: "run ref_svc sample_scan ?w0 = (r1, w1)" "run ref_svc sample_scan w1 = (r2, w2)"
    by fastforce
  from two_scans_reachable [OF runs] obtain ps where
    "reachable ref_svc (cronhive_programs sample_cluster) ?w0
       (w2, ps, run_log ref_svc sample_scan ?w0 @ run_log ref_svc sample_scan w1)" by blast
  from cluster_enqueues_slot_once [OF reliable_ok [OF ref_svc_reliable] sample_start_wf this] runs
  show ?thesis by simp
qed

section \<open>A lost fire\<close>

text \<open>
  C11: a slot whose row exists is never enqueued later. If the row of a slot was inserted and then the enqueueing failed or the
  scheduler crashed, no run of the cluster from there on enqueues that slot: the fire is
  lost, also after the row or its job is deleted.
\<close>

theorem claimed_slot_never_enqueued:
  assumes "services_ok svc V" "tables_wf (V w0)" "st_execs (V w0) x = Some e" "scheduledFor e = Some t"
    "reachable svc (cronhive_programs cc) w0 (w, ps, l)"
  shows "(exec_jobId e, t) \<notin> set (enqueued_slots l)"
proof -
  have "backed (V w0) (x, exec_jobId e, t)" using assms(3,4) by (simp add: backed_def)
  from backed_never_created [OF assms(1,2) this assms(5)]
  have "\<forall>y. (y, exec_jobId e, Slot t) \<notin> set (created l)" by simp
  moreover have "set (enqueued l) \<subseteq> set (created l)"
    by (rule cronhive.one_enqueue_per_slot(2) [OF assms(1,2,5)])
  ultimately show ?thesis by (auto simp: enqueued_slots_def split: fire_slot.splits)
qed

text \<open>The queue is down during a scan; the next scan, with the queue back, does not fire the slot.\<close>

definition is_queue_add :: "req \<Rightarrow> bool" where
  "is_queue_add q \<longleftrightarrow> (case q of QueueAdd d opt \<Rightarrow> True | _ \<Rightarrow> False)"

lemma scan_without_queue:
  "\<exists>r w1 x e. run (faulty_svc is_queue_add) sample_scan (ref_start [sample_job] 60500 0) = (r, w1) \<and> rw_queue w1 = [] \<and>
     st_execs (ref_view w1) x = Some e \<and> exec_jobId e = ''id-0'' \<and> scheduledFor e = Some 60000"
proof -
  have due: "due_slot minute_parser default_env sample_job 60500 = Some 60000"
    by (subst sample_due) (simp_all add: sample_job_def)
  have rows: "filter (\<lambda>j. enabled j \<and> \<not> paused j) (job_rows [sample_job]) = [sample_job]"
    by (simp add: job_rows_def sample_job_def List.map_filter_def find_job_def)
  have sample: "job_id sample_job = ''id-0''" "find_job [sample_job] ''id-0'' = Some sample_job"
    by (simp_all add: sample_job_def)
  have down: "\<not> isDbUnreachableError outage" "\<not> is_p2002 outage" by (simp_all add: outage_def isDbUnreachableError_def err_text_def startsWith_def)
  show ?thesis
    using due rows
    by (simp add: sample_scan_def silent_def scheduler_run_def tick_def tick_job_def fire_slot_of_job_def
        acquireJobLock_def releaseJobLock_def createScheduledExecution_def run_bind run_try_catch prog_defs
        is_queue_add_def faulty_svc_def ref_call_def Let_def ref_start_def live_at_def sample sample_ttl_seconds
        ref_create_exec_def scheduled_data_def exec_rows_def List.map_filter_def put_exec_def down
        RELEASE_SCRIPT_def)
qed

theorem claimed_slot_never_enqueued_witness:
  "let w0 = ref_start [sample_job] 60500 0; w1 = snd (run (faulty_svc is_queue_add) sample_scan w0)
   in rw_queue w1 = [] \<and> (''id-0'', 60000) \<notin> set (enqueued_slots (run_log ref_svc sample_scan w1))"
proof -
  let ?w0 = "ref_start [sample_job] 60500 0"
  obtain r w1 x e where down: "run (faulty_svc is_queue_add) sample_scan ?w0 = (r, w1)" "rw_queue w1 = []"
      "st_execs (ref_view w1) x = Some e" "exec_jobId e = ''id-0''" "scheduledFor e = Some 60000"
    using scan_without_queue by blast
  have wf: "tables_wf (ref_view w1)"
    using run_kept [OF faulty_svc_ok sample_start_wf down(1)] by (simp add: tables_kept_def)
  obtain r2 w2 where again: "run ref_svc sample_scan w1 = (r2, w2)" by fastforce
  obtain ps where "reachable ref_svc (cronhive_programs sample_cluster) w1 (w2, ps, [] @ run_log ref_svc sample_scan w1)"
    using reachable_start_run [OF reachable.init sample_scan_program again] by blast
  from claimed_slot_never_enqueued [OF reliable_ok [OF ref_svc_reliable] wf down(3,5) this] down show ?thesis
    by simp
qed

end
