(* ===== verification/Call_Bounds.thy ===== *)
theory Call_Bounds
  imports Cluster
begin

text \<open>
  How many calls a handler makes. The handlers have no retry loop of their own: retries are new
  deliveries by BullMQ and new scans. So each handler ends after a number of calls that is
  fixed, or proportional to the jobs listed, whatever the services answer.
\<close>

section \<open>Running on a credit of calls\<close>

primrec credit :: "'a prog \<Rightarrow> ('a \<Rightarrow> nat \<Rightarrow> bool) \<Rightarrow> (err \<Rightarrow> nat \<Rightarrow> bool) \<Rightarrow> nat \<Rightarrow> bool" where
  "credit (Ret a) Q E n = Q a n"
| "credit (Throw e) Q E n = E e n"
| "credit (Call q k) Q E n = (0 < n \<and> (\<forall>r. credit (k r) Q E (n - 1)))"

abbreviation calls_within :: "'a prog \<Rightarrow> nat \<Rightarrow> bool" where
  "calls_within p n \<equiv> credit p (\<lambda>_ _. True) (\<lambda>_ _. True) n"

lemma credit_bind [simp]: "credit (bind p f) Q E n = credit p (\<lambda>a m. credit (f a) Q E m) E n"
  by (induction p arbitrary: n) simp_all

lemma credit_try_catch [simp]: "credit (try_catch p h) Q E n = credit p Q (\<lambda>e m. credit (h e) Q E m) n"
  by (induction p arbitrary: n) simp_all

lemma credit_calls [simp]:
  "credit (call_unit q) Qu E n \<longleftrightarrow> 0 < n \<and> Qu () (n - 1) \<and> (\<forall>e. E e (n - 1))"
  "credit (call_bool q) Qb E n \<longleftrightarrow> 0 < n \<and> (\<forall>b. Qb b (n - 1)) \<and> (\<forall>e. E e (n - 1))"
  "credit (call_int q) Qi E n \<longleftrightarrow> 0 < n \<and> (\<forall>i. Qi i (n - 1)) \<and> (\<forall>e. E e (n - 1))"
  "credit (call_val q) Qv E n \<longleftrightarrow> 0 < n \<and> (\<forall>v. Qv v (n - 1)) \<and> (\<forall>e. E e (n - 1))"
  "credit (call_job q) Qj E n \<longleftrightarrow> 0 < n \<and> (\<forall>j. Qj j (n - 1)) \<and> (\<forall>e. E e (n - 1))"
  "credit (call_job_opt q) Qo E n \<longleftrightarrow> 0 < n \<and> (\<forall>j. Qo j (n - 1)) \<and> (\<forall>e. E e (n - 1))"
  "credit (call_exec q) Qe E n \<longleftrightarrow> 0 < n \<and> (\<forall>x. Qe x (n - 1)) \<and> (\<forall>e. E e (n - 1))"
  "credit (call_exec_opt q) Qx E n \<longleftrightarrow> 0 < n \<and> (\<forall>x. Qx x (n - 1)) \<and> (\<forall>e. E e (n - 1))"
  "credit (call_http q) Qi E n \<longleftrightarrow> 0 < n \<and> (\<forall>i. Qi i (n - 1)) \<and> (\<forall>e. E e (n - 1))"
  "credit date_now Qt E n \<longleftrightarrow> 0 < n \<and> (\<forall>t. Qt t (n - 1)) \<and> (\<forall>e. E e (n - 1))"
  "credit randomUUID Qs E n \<longleftrightarrow> 0 < n \<and> (\<forall>s. Qs s (n - 1)) \<and> (\<forall>e. E e (n - 1))"
  "credit (metric_inc m) Qu E n \<longleftrightarrow> 0 < n \<and> Qu () (n - 1)"
  by (auto simp: prog_defs split: resp.splits)

lemma credit_log: "credit p Q E n \<Longrightarrow> length (run_log svc p w) \<le> n"
proof (induction p arbitrary: n w)
  case (Call q k)
  obtain r u where u: "svc q w = (r, u)" by fastforce
  from Call.prems have "credit (k r) Q E (n - 1)" "0 < n" by auto
  with Call.IH [of "k r" "n - 1" u] u show ?case by simp
qed simp_all

section \<open>Deliveries, triggers and scans\<close>

lemma delivery_credit: "calls_within (processExecutionJob hmac cfg bj) 22"
  by (simp add: processExecutionJob_def load_job_def getCachedJob_def run_attempt_def publishEvent_def invokeCallback_def
      on_success_def on_retryable_def deadLetter_def applyCircuitBreaker_def resetDeadStreak_def Let_def
      split: option.split callback_result.split)

lemma tick_job_credit: "calls_within (tick_job cp cfg j) 7"
  by (simp add: tick_job_def fire_slot_of_job_def acquireJobLock_def createScheduledExecution_def releaseJobLock_def Let_def
      split: option.split)

lemma for_each_log:
  "(\<And>x. calls_within (f x) n) \<Longrightarrow> length (run_log svc (for_each f xs) w) \<le> n * length xs"
proof (induction xs arbitrary: w)
  case (Cons x xs)
  have "length (run_log svc (f x) w) \<le> n" using Cons.prems by (rule credit_log)
  with Cons.IH [OF Cons.prems] show ?case
    by (auto simp: run_log_bind split: prod.splits sum.splits intro: add_mono)
qed simp

text \<open>The jobs that the answers of a log list.\<close>

definition jobs_listed :: "call_log \<Rightarrow> nat" where
  "jobs_listed l = sum_list (map (\<lambda>(q, r). case r of RJobs js \<Rightarrow> length js | _ \<Rightarrow> 0) l)"

lemma tick_calls: "length (run_log svc (tick cp cfg) w) \<le> 3 + 7 * jobs_listed (run_log svc (tick cp cfg) w)"
proof -
  obtain r1 w1 where one: "svc (Metric SchedulerTicksTotal) w = (r1, w1)" by fastforce
  obtain r2 w2 where two: "svc (JobFindMany EnabledNotPaused) w1 = (r2, w2)" by fastforce
  have log: "run_log svc (tick cp cfg) w = (Metric SchedulerTicksTotal, r1) # (JobFindMany EnabledNotPaused, r2) #
    (case r2 of RJobs js \<Rightarrow> run_log svc (bind (for_each (tick_job cp cfg) js) (\<lambda>_. metric_inc SchedulerTickDurationEnd)) w2 | _ \<Rightarrow> [])"
    by (simp add: tick_def metric_inc_def call_jobs_def one two split: resp.split)
  show ?thesis
  proof (cases "\<exists>js. r2 = RJobs js")
    case True
    then obtain js where js: "r2 = RJobs js" by blast
    let ?scan = "bind (for_each (tick_job cp cfg) js) (\<lambda>_. metric_inc SchedulerTickDurationEnd)"
    have "length (run_log svc ?scan w2) \<le> 7 * length js + 1"
      using for_each_log [of "tick_job cp cfg" 7 svc js w2, OF tick_job_credit]
      by (auto simp: run_log_bind metric_inc_def split: prod.splits sum.splits)
    moreover have "length js \<le> jobs_listed (run_log svc (tick cp cfg) w)"
      unfolding log by (simp add: js jobs_listed_def)
    ultimately show ?thesis unfolding log by (simp add: js) 
  next
    case False
    then show ?thesis unfolding log by (simp split: resp.split)
  qed
qed

text \<open>
  C20: handlers end. A delivery makes at most 22 calls, a manual trigger at most 6 and a scan at most three and seven per
  job that the database listed, whatever the services answer, errors and nonsense included; in
  particular none of them retries by itself.
\<close>

theorem handlers_end:
  "length (run_log svc (processExecutionJob hmac cfg bj) w) \<le> 22 \<and>
   length (run_log svc (post_trigger cfg i) w) \<le> 6 \<and>
   length (run_log svc (tick cp cfg) w) \<le> 3 + 7 * jobs_listed (run_log svc (tick cp cfg) w)"
proof (intro conjI)
  show "length (run_log svc (processExecutionJob hmac cfg bj) w) \<le> 22" by (rule credit_log [OF delivery_credit])
  have "calls_within (post_trigger cfg i) 6"
    by (simp add: post_trigger_def getJobById_def acquireJobLock_def trigger_locked_def createExecution_def releaseJobLock_def
        Let_def split: option.split)
  then show "length (run_log svc (post_trigger cfg i) w) \<le> 6" by (rule credit_log)
qed (rule tick_calls)

end
