(* ===== verification/Dashboard.thy ===== *)
theory Dashboard
  imports Json_Schema Callback_Service
begin

text \<open>
  The dashboard, \<open>frontend/src\<close>: the live feed of \<open>hooks/useSocket.ts\<close>, the HTTP client of \<open>lib/api.ts\<close>, the state of
  the page (\<open>app/page.tsx\<close>) and of the creation form (\<open>components/JobModal.tsx\<close>), and the line that
  \<open>components/ExecutionLog.tsx\<close> writes for an event. React state is a record; an asynchronous handler is the function that takes
  it to the state when it has ended. \<open>net\<close> is \<open>fetch\<close>: a call gives a response or an error message, and a
  new state of the world. Theory \<open>Dashboard_View\<close> has what is shown, and the controls.
\<close>

section \<open>The live feed\<close>

record live_event =
  le_id :: string
  le_at :: string
  le_name :: string
  le_payload :: json

record feed =
  fd_connected :: bool
  fd_events :: "live_event list"

datatype socket_msg = SocketConnect | SocketDisconnect | SocketEvent string json

definition pushEvent :: "live_event \<Rightarrow> live_event list \<Rightarrow> live_event list" where
  "pushEvent e prev = take 50 (e # prev)"

definition eventNames :: "string list" where
  "eventNames = [''job.started'', ''job.success'', ''job.failed'', ''job.alert'', ''dashboard.ready'']"

definition in_feed :: "string \<Rightarrow> bool" where
  "in_feed name \<longleftrightarrow> name \<in> set eventNames \<and> name \<noteq> ''dashboard.ready''"

text \<open>A message of the socket, with the identifier and the time that the handler would make.\<close>

definition on_socket :: "string \<times> string \<Rightarrow> socket_msg \<Rightarrow> feed \<Rightarrow> feed" where
  "on_socket stamp msg fd = (case msg of
     SocketConnect \<Rightarrow> fd\<lparr>fd_connected := True\<rparr>
   | SocketDisconnect \<Rightarrow> fd\<lparr>fd_connected := False\<rparr>
   | SocketEvent name payload \<Rightarrow>
      if in_feed name
      then fd\<lparr>fd_events := pushEvent \<lparr>le_id = fst stamp, le_at = snd stamp, le_name = name, le_payload = payload\<rparr>
        (fd_events fd)\<rparr>
      else fd)"

fun feed_after :: "((string \<times> string) \<times> socket_msg) list \<Rightarrow> feed" where
  "feed_after [] = \<lparr>fd_connected = False, fd_events = []\<rparr>"
| "feed_after ((stamp, msg) # earlier) = on_socket stamp msg (feed_after earlier)" \<comment> \<open>latest first\<close>

section \<open>The HTTP client\<close>

datatype call_method = CGet | CPost | CPut | CDelete

record http_call =
  hc_method :: call_method
  hc_path :: "string list"
  hc_body :: "json option"

record client_response =
  cr_status :: int
  cr_text :: string

type_synonym 'w net = "http_call \<Rightarrow> 'w \<Rightarrow> (string + client_response) \<times> 'w"
type_synonym ('a, 'w) client = "'w \<Rightarrow> (string + 'a) \<times> 'w"

text \<open>
  What the client needs from the JavaScript engine: \<open>res.json()\<close> (an error message, or a value), the same read as a list of jobs,
  \<open>String(v)\<close>, and the message of reading a property of \<open>null\<close>.
\<close>

record js_engine =
  je_json :: "string \<Rightarrow> string + json"
  je_jobs :: "string \<Rightarrow> string + job list"
  je_string :: "json \<Rightarrow> string"
  je_null_error :: string

definition call :: "call_method \<Rightarrow> string list \<Rightarrow> json option \<Rightarrow> http_call" where
  "call m path b = \<lparr>hc_method = m, hc_path = path, hc_body = b\<rparr>"

definition failed_with :: "string \<Rightarrow> client_response \<Rightarrow> string" where \<comment> \<open>\<open>`text (${res.status})`\<close>\<close>
  "failed_with text r = text @ '' ('' @ int_to_string (cr_status r) @ '')''"

definition send :: "'w net \<Rightarrow> http_call \<Rightarrow> (client_response \<Rightarrow> string + 'a) \<Rightarrow> ('a, 'w) client" where
  "send net c f w = (case net c w of
     (Inl msg, w') \<Rightarrow> (Inl msg, w')
   | (Inr r, w') \<Rightarrow> (f r, w'))"

definition fetchJobs :: "js_engine \<Rightarrow> 'w net \<Rightarrow> (job list, 'w) client" where
  "fetchJobs je net = send net (call CGet [''jobs''] None) (\<lambda>r.
     if \<not> res_ok (cr_status r) then Inl (''HTTP '' @ int_to_string (cr_status r)) else je_jobs je (cr_text r))"

definition js_truthy :: "json \<Rightarrow> bool" where
  "js_truthy v = (case v of JNull \<Rightarrow> False | JBool b \<Rightarrow> b | JNum n \<Rightarrow> \<not> falsy_num n | JStr s \<Rightarrow> s \<noteq> [] | _ \<Rightarrow> True)"

definition error_member :: "js_engine \<Rightarrow> json \<Rightarrow> string" where \<comment> \<open>\<open>err.error || 'Create failed'\<close>\<close>
  "error_member je v = (case v of
     JNull \<Rightarrow> je_null_error je
   | JObj kvs \<Rightarrow> (case map_of kvs ''error'' of
        Some m \<Rightarrow> if js_truthy m then je_string je m else ''Create failed''
      | None \<Rightarrow> ''Create failed'')
   | _ \<Rightarrow> ''Create failed'')"

definition createJob_call :: "js_engine \<Rightarrow> 'w net \<Rightarrow> json \<Rightarrow> (json, 'w) client" where
  "createJob_call je net data = send net (call CPost [''jobs''] (Some data)) (\<lambda>r.
     if \<not> res_ok (cr_status r)
     then (case je_json je (cr_text r) of Inl m \<Rightarrow> Inl m | Inr v \<Rightarrow> Inl (error_member je v))
     else je_json je (cr_text r))"

definition deleteJob_call :: "'w net \<Rightarrow> string \<Rightarrow> (unit, 'w) client" where
  "deleteJob_call net i = send net (call CDelete [''jobs'', i] None) (\<lambda>r.
     if \<not> res_ok (cr_status r) then Inl (failed_with ''Delete failed'' r) else Inr ())"

definition unit_json :: "js_engine \<Rightarrow> client_response \<Rightarrow> string + unit" where \<comment> \<open>\<open>res.json()\<close>, value unused\<close>
  "unit_json je r = (case je_json je (cr_text r) of Inl m \<Rightarrow> Inl m | Inr _ \<Rightarrow> Inr ())"

definition triggerJob_call :: "js_engine \<Rightarrow> 'w net \<Rightarrow> string \<Rightarrow> (unit, 'w) client" where
  "triggerJob_call je net i = send net (call CPost [''jobs'', i, ''trigger''] None) (\<lambda>r.
     if \<not> res_ok (cr_status r)
     then Inl (if cr_text r \<noteq> [] then cr_text r else failed_with ''Trigger failed'' r)
     else unit_json je r)"

definition pauseJob_call :: "js_engine \<Rightarrow> 'w net \<Rightarrow> string \<Rightarrow> (unit, 'w) client" where
  "pauseJob_call je net i = send net (call CPost [''jobs'', i, ''pause''] None) (\<lambda>r.
     if \<not> res_ok (cr_status r) then Inl (failed_with ''Pause failed'' r) else unit_json je r)"

definition resumeJob_call :: "js_engine \<Rightarrow> 'w net \<Rightarrow> string \<Rightarrow> (unit, 'w) client" where
  "resumeJob_call je net i = send net (call CPost [''jobs'', i, ''resume''] None) (\<lambda>r.
     if \<not> res_ok (cr_status r) then Inl (failed_with ''Resume failed'' r) else unit_json je r)"

definition toggleJob_call :: "js_engine \<Rightarrow> 'w net \<Rightarrow> string \<Rightarrow> bool \<Rightarrow> (unit, 'w) client" where
  "toggleJob_call je net i b = send net (call CPut [''jobs'', i] (Some (JObj [(''enabled'', JBool b)]))) (\<lambda>r.
     if \<not> res_ok (cr_status r) then Inl (failed_with ''Update failed'' r) else unit_json je r)"

section \<open>The page\<close>

record page =
  pg_jobs :: "job list"
  pg_loading :: bool
  pg_error :: "string option"
  pg_modal :: bool
  pg_busy :: "string option"

definition initial_page :: page where
  "initial_page = \<lparr>pg_jobs = [], pg_loading = True, pg_error = None, pg_modal = False, pg_busy = None\<rparr>"

definition loadJobs :: "js_engine \<Rightarrow> 'w net \<Rightarrow> page \<times> 'w \<Rightarrow> page \<times> 'w" where
  "loadJobs je net = (\<lambda>(pg, w).
     let pg0 = pg\<lparr>pg_loading := True\<rparr>;
         (res, w') = fetchJobs je net w;
         pg1 = (case res of Inr data \<Rightarrow> pg0\<lparr>pg_jobs := data\<rparr> | Inl msg \<Rightarrow> pg0\<lparr>pg_error := Some msg\<rparr>)
     in (pg1\<lparr>pg_loading := False\<rparr>, w'))"

text \<open>The call of an action; \<open>toggle\<close> looks the job up in the jobs shown, other actions do nothing.\<close>

definition action_call :: "js_engine \<Rightarrow> 'w net \<Rightarrow> job list \<Rightarrow> string \<Rightarrow> string \<Rightarrow> (unit, 'w) client" where
  "action_call je net jobs i action =
     (if action = ''trigger'' then triggerJob_call je net i
      else if action = ''pause'' then pauseJob_call je net i
      else if action = ''resume'' then resumeJob_call je net i
      else if action = ''delete'' then deleteJob_call net i
      else if action = ''toggle'' then (case find (\<lambda>j. job_id j = i) jobs of
          Some job \<Rightarrow> toggleJob_call je net i (\<not> enabled job)
        | None \<Rightarrow> Pair (Inr ()))
      else Pair (Inr ()))"

definition handleAction :: "js_engine \<Rightarrow> 'w net \<Rightarrow> string \<Rightarrow> string \<Rightarrow> page \<times> 'w \<Rightarrow> page \<times> 'w" where
  "handleAction je net i action = (\<lambda>(pg, w).
     let pg1 = pg\<lparr>pg_busy := Some i, pg_error := None\<rparr>;
         (res, w1) = action_call je net (pg_jobs pg) i action w;
         (pg2, w2) = (case res of Inr _ \<Rightarrow> loadJobs je net (pg1, w1) | Inl msg \<Rightarrow> (pg1\<lparr>pg_error := Some msg\<rparr>, w1))
     in (pg2\<lparr>pg_busy := None\<rparr>, w2))"

section \<open>The execution log\<close>

text \<open>A property of the payload in a template literal.\<close>

definition payload_text :: "js_engine \<Rightarrow> json \<Rightarrow> string \<Rightarrow> string" where
  "payload_text je payload k = (case payload of
     JObj kvs \<Rightarrow> (case map_of kvs k of Some v \<Rightarrow> je_string je v | None \<Rightarrow> ''undefined'')
   | _ \<Rightarrow> ''undefined'')"

definition short_job :: "json \<Rightarrow> string" where \<comment> \<open>\<open>jobId?.slice(0, 8)\<close> of a string\<close>
  "short_job payload = (case payload of
     JObj kvs \<Rightarrow> (case map_of kvs ''jobId'' of Some (JStr s) \<Rightarrow> take 8 s | _ \<Rightarrow> ''undefined'')
   | _ \<Rightarrow> ''undefined'')"

definition log_line :: "js_engine \<Rightarrow> live_event \<Rightarrow> string" where
  "log_line je e = (let p = le_payload e in
     if le_name e = ''job.started''
     then ''Job '' @ short_job p @ '' started (Attempt '' @ payload_text je p ''attemptNumber'' @ '')''
     else if le_name e = ''job.success''
     then ''Job '' @ short_job p @ '' succeeded ('' @ payload_text je p ''durationMs'' @ ''ms)''
     else if le_name e = ''job.failed''
     then ''Job '' @ short_job p @ '' failed ('' @ payload_text je p ''status'' @ '')''
     else if le_name e = ''job.alert'' then payload_text je p ''message''
     else [])"

section \<open>The creation form\<close>

record job_form =
  jf_name :: string
  jf_cron :: string
  jf_url :: string
  jf_timezone :: string
  jf_maxRetries :: jsnum \<comment> \<open>\<open>parseInt\<close> of the input, so possibly NaN\<close>
  jf_backoffMs :: jsnum
  jf_timeoutMs :: jsnum

definition defaultForm :: job_form where
  "defaultForm = \<lparr>jf_name = [], jf_cron = [], jf_url = [], jf_timezone = ''UTC'',
     jf_maxRetries = Fin 3, jf_backoffMs = Fin 1000, jf_timeoutMs = Fin 30000\<rparr>"

record modal =
  md_form :: job_form
  md_saving :: bool
  md_error :: "string option"

definition json_num :: "jsnum \<Rightarrow> json" where \<comment> \<open>\<open>JSON.stringify\<close> writes NaN and infinities as null\<close>
  "json_num n = (case n of Fin x \<Rightarrow> JNum (Fin x) | _ \<Rightarrow> JNull)"

definition form_json :: "job_form \<Rightarrow> json" where
  "form_json f = JObj [(''name'', JStr (trim (jf_name f))), (''cronExpression'', JStr (trim (jf_cron f))),
     (''callbackUrl'', JStr (trim (jf_url f))),
     (''timezone'', JStr (if trim (jf_timezone f) \<noteq> [] then trim (jf_timezone f) else ''UTC'')),
     (''retryPolicy'', JObj [(''maxRetries'', json_num (jf_maxRetries f)), (''backoffMs'', json_num (jf_backoffMs f))]),
     (''callbackTimeoutMs'', json_num (jf_timeoutMs f)), (''enabled'', JBool True), (''paused'', JBool False)]"

text \<open>Submitting the form: the new state, and whether the page is told to close it and reload.\<close>

definition handleSubmit :: "js_engine \<Rightarrow> 'w net \<Rightarrow> modal \<times> 'w \<Rightarrow> bool \<times> modal \<times> 'w" where
  "handleSubmit je net = (\<lambda>(md, w).
     let (res, w') = createJob_call je net (form_json (md_form md)) w;
         md1 = md\<lparr>md_saving := True, md_error := None\<rparr>
     in (case res of
          Inr _ \<Rightarrow> (True, md1\<lparr>md_form := defaultForm, md_saving := False\<rparr>, w')
        | Inl msg \<Rightarrow> (False, md1\<lparr>md_error := Some msg, md_saving := False\<rparr>, w')))"

definition onSuccess :: "js_engine \<Rightarrow> 'w net \<Rightarrow> page \<times> 'w \<Rightarrow> page \<times> 'w" where
  "onSuccess je net = (\<lambda>(pg, w). loadJobs je net (pg\<lparr>pg_modal := False\<rparr>, w))"

section \<open>The feed holds the last fifty events\<close>

text \<open>The events of the messages that belong to the feed, latest first.\<close>

definition feed_entries :: "((string \<times> string) \<times> socket_msg) list \<Rightarrow> live_event list" where
  "feed_entries ms = List.map_filter (\<lambda>(stamp, msg). case msg of
     SocketEvent name payload \<Rightarrow> if in_feed name
       then Some \<lparr>le_id = fst stamp, le_at = snd stamp, le_name = name, le_payload = payload\<rparr> else None
   | _ \<Rightarrow> None) ms"

lemma feed_last_fifty: "fd_events (feed_after ms) = take 50 (feed_entries ms)"
proof (induction ms)
  case (Cons m ms)
  obtain stamp msg where m: "m = (stamp, msg)" by (cases m)
  have "take 50 (e # take 50 es) = take 50 (e # es)" for e :: live_event and es
    by (simp add: take_Cons' min_def)
  with Cons show ?case
    by (cases msg) (simp_all add: m on_socket_def pushEvent_def feed_entries_def List.map_filter_def)
qed (simp add: feed_entries_def List.map_filter_def)

section \<open>The page is never stuck\<close>

lemma handleAction_idle:
  "pg_busy (fst (handleAction je net i action (pg, w))) = None"
  "pg_loading pg = False \<Longrightarrow> pg_loading (fst (handleAction je net i action (pg, w))) = False"
  by (auto simp: handleAction_def loadJobs_def Let_def split: prod.splits sum.splits)

section \<open>What the server accepts from the form\<close>

definition in_range :: "int \<Rightarrow> int \<Rightarrow> jsnum \<Rightarrow> bool" where
  "in_range lo hi n \<longleftrightarrow> (\<exists>k. n = Fin (of_int k) \<and> lo \<le> k \<and> k \<le> hi)"

lemma z_int_num: "z_int lo hi (Some (json_num n)) = (if in_range lo hi n then Some \<lfloor>case n of Fin x \<Rightarrow> x | _ \<Rightarrow> 0\<rfloor> else None)"
proof (cases n)
  case (Fin x)
  have "is_int x \<and> of_int lo \<le> x \<and> x \<le> of_int hi \<longleftrightarrow> in_range lo hi n"
    by (auto simp: Fin in_range_def is_int_def le_floor_iff floor_le_iff)
  then show ?thesis by (simp add: z_int_def json_num_def Fin)
qed (simp_all add: z_int_def json_num_def in_range_def)

definition form_input :: "job_form \<Rightarrow> create_input" where
  "form_input f = \<lparr>ci_name = trim (jf_name f), ci_cronExpression = trim (jf_cron f), ci_callbackUrl = trim (jf_url f),
     ci_maxRetries = \<lfloor>case jf_maxRetries f of Fin x \<Rightarrow> x | _ \<Rightarrow> 0\<rfloor>, ci_backoffMs = \<lfloor>case jf_backoffMs f of Fin x \<Rightarrow> x | _ \<Rightarrow> 0\<rfloor>,
     ci_timezone = Some (if trim (jf_timezone f) \<noteq> [] then trim (jf_timezone f) else ''UTC''),
     ci_enabled = Some True, ci_paused = Some False,
     ci_callbackTimeoutMs = Some \<lfloor>case jf_timeoutMs f of Fin x \<Rightarrow> x | _ \<Rightarrow> 0\<rfloor>\<rparr>"

definition form_valid :: "url_parser \<Rightarrow> job_form \<Rightarrow> bool" where
  "form_valid parse f \<longleftrightarrow> trim (jf_name f) \<noteq> [] \<and> length (trim (jf_name f)) \<le> 200 \<and> trim (jf_cron f) \<noteq> [] \<and>
     parse (trim (jf_url f)) \<noteq> None \<and> in_range 0 50 (jf_maxRetries f) \<and> in_range 100 3600000 (jf_backoffMs f) \<and>
     in_range 1000 300000 (jf_timeoutMs f)"

lemma createBody_form:
  "createBody parse (Some (form_json f)) = (if form_valid parse f then Some (form_input f) else None)"
  by (auto simp: createBody_def z_object_def form_json_def field_def z_string_def z_url_def retryPolicySchema_def
      z_int_num z_optional_def z_bool_def form_valid_def form_input_def Suc_le_eq split: if_splits)

text \<open>
  C36: the form and the API agree. The request schema accepts the body that the creation form sends exactly when the trimmed
  texts are not blank, the name has at most 200 characters, the URL parses and the three
  numbers are integers within the limits of the retry policy; then the parsed input has
  the values of the form, an empty time zone meaning UTC. A cleared number field is refused.
\<close>

theorem form_accepted_exactly:
  "createBody parse (Some (form_json f)) = (if form_valid parse f then Some (form_input f) else None)"
  by (rule createBody_form)

end
