(* ===== verification/Dashboard_View.thy ===== *)
theory Dashboard_View
  imports Dashboard
begin

text \<open>
  What the dashboard shows and what its controls do: the components of \<open>frontend/src\<close> as functions from the
  state to a view, and the user's and the socket's events as functions on the state. A view has the texts, the values
  and limits of the inputs, the conditional classes and icons, and for each control whether it is disabled; constant markup
  and styles are left out. A control that is not shown, or is disabled, does nothing.
\<close>

section \<open>The job table\<close>

record row_button =
  rb_title :: string
  rb_action :: string
  rb_disabled :: bool
  rb_icon :: string

record job_row =
  jr_key :: string
  jr_name :: string
  jr_id :: string
  jr_schedule :: string
  jr_timezone :: string
  jr_badge :: "string \<times> string" \<comment> \<open>class and text\<close>
  jr_dead :: "string option"
  jr_url :: string
  jr_buttons :: "row_button list"

datatype table_view = TableMessage string | TableRows "string list" "job_row list"

definition job_buttons :: "string option \<Rightarrow> job \<Rightarrow> row_button list" where
  "job_buttons busyId j = (let busy = (busyId = Some (job_id j)) in
     [\<lparr>rb_title = ''Manual Trigger'', rb_action = ''trigger'', rb_disabled = (busy \<or> \<not> enabled j), rb_icon = ''Play''\<rparr>,
      \<lparr>rb_title = (if paused j then ''Resume Schedule'' else ''Pause Schedule''),
       rb_action = (if paused j then ''resume'' else ''pause''), rb_disabled = busy,
       rb_icon = (if paused j then ''Play'' else ''Pause'')\<rparr>,
      \<lparr>rb_title = (if enabled j then ''Disable Job'' else ''Enable Job''), rb_action = ''toggle'', rb_disabled = busy,
       rb_icon = ''Power''\<rparr>,
      \<lparr>rb_title = ''Delete Job'', rb_action = ''delete'', rb_disabled = busy, rb_icon = ''Trash2''\<rparr>])"

definition job_row :: "string option \<Rightarrow> job \<Rightarrow> job_row" where
  "job_row busyId j =
     \<lparr>jr_key = job_id j, jr_name = job_name j, jr_id = take 8 (job_id j) @ ''...'',
      jr_schedule = cronExpression j, jr_timezone = timezone j,
      jr_badge = (''badge '' @ (if paused j then ''badge-paused'' else if enabled j then ''badge-active'' else ''badge-disabled''),
        if paused j then ''Paused'' else if enabled j then ''Active'' else ''Disabled''),
      jr_dead = (if 0 < consecutiveDeadCount j then Some (''Dead: '' @ int_to_string (consecutiveDeadCount j)) else None),
      jr_url = callbackUrl j, jr_buttons = job_buttons busyId j\<rparr>"

definition JobTable :: "job list \<Rightarrow> bool \<Rightarrow> string option \<Rightarrow> table_view" where
  "JobTable jobs loading busyId =
     (if loading then TableMessage ''Loading jobs...''
      else if length jobs = 0
      then TableMessage (''No jobs configured. Press '' @ [CHR 0x22] @ ''New Job'' @ [CHR 0x22] @ '' to get started.'')
      else TableRows [''Name / ID'', ''Schedule'', ''Status'', ''Callback URL'', ''Actions''] (map (job_row busyId) jobs))"

section \<open>The execution log\<close>

record log_item =
  li_key :: string
  li_icon :: "string option"
  li_name :: string
  li_time :: string
  li_text :: string
  li_payload :: string

datatype log_view = LogWaiting string | LogItems "log_item list"

text \<open>\<open>new Date(at).toLocaleTimeString()\<close> and \<open>JSON.stringify(payload, null, 2)\<close> belong to the browser.\<close>

record browser =
  br_time :: "string \<Rightarrow> string"
  br_pretty :: "json \<Rightarrow> string"

definition log_icon :: "string \<Rightarrow> string option" where
  "log_icon name = (if name = ''job.success'' then Some ''CheckCircle'' else if name = ''job.failed'' then Some ''XCircle''
     else if name = ''job.alert'' then Some ''AlertTriangle'' else if name = ''job.started'' then Some ''Clock'' else None)"

definition log_item :: "browser \<Rightarrow> js_engine \<Rightarrow> live_event \<Rightarrow> log_item" where
  "log_item br je e = \<lparr>li_key = le_id e, li_icon = log_icon (le_name e), li_name = le_name e,
     li_time = br_time br (le_at e), li_text = log_line je e, li_payload = br_pretty br (le_payload e)\<rparr>"

definition ExecutionLog :: "browser \<Rightarrow> js_engine \<Rightarrow> live_event list \<Rightarrow> log_view" where
  "ExecutionLog br je events =
     (if length events = 0 then LogWaiting ''Waiting for real-time events...'' else LogItems (map (log_item br je) events))"

section \<open>The creation form\<close>

definition shown_error :: "string option \<Rightarrow> string option" where \<comment> \<open>\<open>{error && \<dots>}\<close>\<close>
  "shown_error e = (case e of Some m \<Rightarrow> if m = [] then None else Some m | None \<Rightarrow> None)"

datatype input_value = ShowText string | ShowNumber jsnum

record form_field =
  ff_label :: string
  ff_type :: string
  ff_value :: input_value
  ff_placeholder :: string
  ff_required :: bool
  ff_min :: "int option"
  ff_max :: "int option"

record modal_view =
  mv_title :: string
  mv_error :: "string option"
  mv_fields :: "form_field list"
  mv_cancel_disabled :: bool
  mv_submit :: "string \<times> bool" \<comment> \<open>label, disabled\<close>

definition text_field :: "string \<Rightarrow> string \<Rightarrow> string \<Rightarrow> string \<Rightarrow> bool \<Rightarrow> form_field" where
  "text_field lbl ty v ph rq = \<lparr>ff_label = lbl, ff_type = ty, ff_value = ShowText v, ff_placeholder = ph, ff_required = rq,
     ff_min = None, ff_max = None\<rparr>"

definition number_field :: "string \<Rightarrow> jsnum \<Rightarrow> int \<Rightarrow> int option \<Rightarrow> form_field" where
  "number_field lbl v lo hi = \<lparr>ff_label = lbl, ff_type = ''number'', ff_value = ShowNumber v, ff_placeholder = [],
     ff_required = False, ff_min = Some lo, ff_max = hi\<rparr>"

definition JobModal :: "bool \<Rightarrow> modal \<Rightarrow> modal_view option" where
  "JobModal isOpen md =
     (if \<not> isOpen then None
      else Some \<lparr>mv_title = ''Register New Job'', mv_error = shown_error (md_error md),
        mv_fields =
          [text_field ''Job Name'' ''text'' (jf_name (md_form md)) ''e.g. Daily Inventory Update'' True,
           text_field ''Cron Expression'' ''text'' (jf_cron (md_form md)) ''e.g. * * * * *'' True,
           text_field ''Timezone'' ''text'' (jf_timezone (md_form md)) ''UTC'' False,
           text_field ''Callback URL'' ''url'' (jf_url (md_form md)) ''https://your-api.com/callback'' True,
           number_field ''Max Retries'' (jf_maxRetries (md_form md)) 0 (Some 50),
           number_field ''Backoff (ms)'' (jf_backoffMs (md_form md)) 100 None,
           number_field ''Timeout (ms)'' (jf_timeoutMs (md_form md)) 1000 None],
        mv_cancel_disabled = md_saving md,
        mv_submit = (if md_saving md then ''Creating...'' else ''Register Job'', md_saving md)\<rparr>)"

text \<open>
  Typing into an input. \<open>parseInt\<close> reads the longest decimal prefix after white space and a sign, and gives
  NaN without one (a number input never holds the \<open>0x\<close> prefix that \<open>parseInt\<close> would read as hexadecimal).
\<close>

definition parseInt :: "string \<Rightarrow> jsnum" where
  "parseInt s = (let t = dropWhile is_space s; neg = (t \<noteq> [] \<and> hd t = CHR ''-'');
       u = (if t \<noteq> [] \<and> hd t \<in> {CHR ''-'', CHR ''+''} then tl t else t); ds = takeWhile is_digit u in
     if ds = [] then NaN
     else js_of_rat (if neg then - of_nat (string_to_nat ds) else of_nat (string_to_nat ds)))"

datatype form_input = NameInput | CronInput | TimezoneInput | UrlInput | RetriesInput | BackoffInput | TimeoutInput

definition on_input :: "form_input \<Rightarrow> string \<Rightarrow> job_form \<Rightarrow> job_form" where
  "on_input i v f = (case i of
     NameInput \<Rightarrow> f\<lparr>jf_name := v\<rparr> | CronInput \<Rightarrow> f\<lparr>jf_cron := v\<rparr> | TimezoneInput \<Rightarrow> f\<lparr>jf_timezone := v\<rparr>
   | UrlInput \<Rightarrow> f\<lparr>jf_url := v\<rparr> | RetriesInput \<Rightarrow> f\<lparr>jf_maxRetries := parseInt v\<rparr>
   | BackoffInput \<Rightarrow> f\<lparr>jf_backoffMs := parseInt v\<rparr> | TimeoutInput \<Rightarrow> f\<lparr>jf_timeoutMs := parseInt v\<rparr>)"

section \<open>The page\<close>

record dashboard =
  db_page :: page
  db_feed :: feed
  db_modal :: modal

record page_view =
  pv_dot :: string
  pv_status :: string
  pv_error :: "string option"
  pv_refresh :: "bool \<times> string" \<comment> \<open>disabled, class of the icon\<close>
  pv_table :: table_view
  pv_log :: log_view
  pv_modal :: "modal_view option"

definition Dashboard_page :: "browser \<Rightarrow> js_engine \<Rightarrow> dashboard \<Rightarrow> page_view" where
  "Dashboard_page br je d = (let pg = db_page d; fd = db_feed d in
     \<lparr>pv_dot = ''dot '' @ (if fd_connected fd then ''active'' else []),
      pv_status = (if fd_connected fd then ''Connected'' else ''Reconnecting...''),
      pv_error = shown_error (pg_error pg),
      pv_refresh = (pg_loading pg, if pg_loading pg then ''spin'' else []),
      pv_table = JobTable (pg_jobs pg) (pg_loading pg) (pg_busy pg),
      pv_log = ExecutionLog br je (fd_events fd),
      pv_modal = JobModal (pg_modal pg) (db_modal d)\<rparr>)"

definition initial_dashboard :: dashboard where
  "initial_dashboard = \<lparr>db_page = initial_page, db_feed = feed_after [],
     db_modal = \<lparr>md_form = defaultForm, md_saving = False, md_error = None\<rparr>\<rparr>"

text \<open>
  The events. \<open>Mounted\<close> is the effect of the first render; \<open>SubmitClick\<close> is the form's submit event, which the browser
  raises only for input that passes its own checks of \<open>required\<close>, \<open>type\<close>, \<open>min\<close> and \<open>max\<close>.
\<close>

datatype ui_event =
  Mounted
| RefreshClick
| NewJobClick
| CloseClick
| RowClick string string \<comment> \<open>job and action\<close>
| FormInput form_input string
| SubmitClick
| SocketMessage "string \<times> string" socket_msg

text \<open>The controls that the view offers.\<close>

definition offers :: "dashboard \<Rightarrow> ui_event \<Rightarrow> bool" where
  "offers d ev = (case ev of
     RefreshClick \<Rightarrow> \<not> pg_loading (db_page d)
   | RowClick i a \<Rightarrow> \<not> pg_loading (db_page d) \<and> (\<exists>j \<in> set (pg_jobs (db_page d)). job_id j = i \<and>
        (\<exists>b \<in> set (job_buttons (pg_busy (db_page d)) j). rb_action b = a \<and> \<not> rb_disabled b))
   | CloseClick \<Rightarrow> pg_modal (db_page d)
   | FormInput x v \<Rightarrow> pg_modal (db_page d)
   | SubmitClick \<Rightarrow> pg_modal (db_page d) \<and> \<not> md_saving (db_modal d)
   | _ \<Rightarrow> True)"

definition on_page :: "(page \<times> 'w \<Rightarrow> page \<times> 'w) \<Rightarrow> dashboard \<times> 'w \<Rightarrow> dashboard \<times> 'w" where
  "on_page f = (\<lambda>(d, w). let (pg, w') = f (db_page d, w) in (d\<lparr>db_page := pg\<rparr>, w'))"

definition submit :: "js_engine \<Rightarrow> 'w net \<Rightarrow> dashboard \<times> 'w \<Rightarrow> dashboard \<times> 'w" where
  "submit je net = (\<lambda>(d, w). let (saved, md, w1) = handleSubmit je net (db_modal d, w); d1 = d\<lparr>db_modal := md\<rparr> in
     if saved then on_page (onSuccess je net) (d1, w1) else (d1, w1))"

definition dashboard_on :: "js_engine \<Rightarrow> 'w net \<Rightarrow> ui_event \<Rightarrow> dashboard \<times> 'w \<Rightarrow> dashboard \<times> 'w" where
  "dashboard_on je net ev = (\<lambda>(d, w).
     if \<not> offers d ev then (d, w)
     else (case ev of
       Mounted \<Rightarrow> on_page (loadJobs je net) (d, w)
     | RefreshClick \<Rightarrow> on_page (loadJobs je net) (d, w)
     | NewJobClick \<Rightarrow> on_page (\<lambda>(pg, w). (pg\<lparr>pg_modal := True\<rparr>, w)) (d, w)
     | CloseClick \<Rightarrow> on_page (\<lambda>(pg, w). (pg\<lparr>pg_modal := False\<rparr>, w)) (d, w)
     | RowClick i a \<Rightarrow> on_page (handleAction je net i a) (d, w)
     | FormInput x v \<Rightarrow> (d\<lparr>db_modal := (db_modal d)\<lparr>md_form := on_input x v (md_form (db_modal d))\<rparr>\<rparr>, w)
     | SubmitClick \<Rightarrow> submit je net (d, w)
     | SocketMessage stamp msg \<Rightarrow> (d\<lparr>db_feed := on_socket stamp msg (db_feed d)\<rparr>, w)))"

fun dashboard_run :: "js_engine \<Rightarrow> 'w net \<Rightarrow> ui_event list \<Rightarrow> dashboard \<times> 'w \<Rightarrow> dashboard \<times> 'w" where
  "dashboard_run je net [] dw = dw"
| "dashboard_run je net (ev # evs) dw = dashboard_run je net evs (dashboard_on je net ev dw)"

section \<open>An old error stays\<close>

text \<open>Reloading succeeds, but the message of an earlier failure stays on the page until the next action.\<close>

lemma refresh_keeps_error:
  "fetchJobs je net w = (Inr js, w') \<Longrightarrow> \<not> pg_loading (db_page d) \<Longrightarrow>
     pg_error (db_page (fst (dashboard_on je net RefreshClick (d, w)))) = pg_error (db_page d)"
  by (simp add: dashboard_on_def offers_def loadJobs_def on_page_def Let_def)

section \<open>The dashboard never hangs\<close>

definition at_rest :: "dashboard \<Rightarrow> bool" where
  "at_rest d \<longleftrightarrow> \<not> pg_loading (db_page d) \<and> pg_busy (db_page d) = None \<and> \<not> md_saving (db_modal d) \<and>
     length (fd_events (db_feed d)) \<le> 50"

lemma loadJobs_at_rest:
  "pg_busy (fst (loadJobs je net (pg, w))) = pg_busy pg" "\<not> pg_loading (fst (loadJobs je net (pg, w)))"
  by (auto simp: loadJobs_def Let_def split: prod.splits sum.splits)

lemma on_page_simps [simp]:
  "db_page (fst (on_page f (d, w))) = fst (f (db_page d, w))" "db_feed (fst (on_page f (d, w))) = db_feed d"
  "db_modal (fst (on_page f (d, w))) = db_modal d" "snd (on_page f (d, w)) = snd (f (db_page d, w))"
  by (simp_all add: on_page_def Let_def split: prod.split)

lemma handleSubmit_saved: "\<not> md_saving (fst (snd (handleSubmit je net (md, w))))"
  by (simp add: handleSubmit_def Let_def split: prod.split sum.split)

lemma submit_at_rest: "at_rest d \<Longrightarrow> at_rest (fst (submit je net (d, w)))"
  using handleSubmit_saved [of je net "db_modal d" w]
  by (auto simp: submit_def at_rest_def onSuccess_def loadJobs_at_rest Let_def split: prod.splits)

lemma dashboard_on_at_rest: "at_rest d \<Longrightarrow> at_rest (fst (dashboard_on je net ev (d, w)))"
  by (cases ev) (auto simp: dashboard_on_def at_rest_def loadJobs_at_rest handleAction_idle submit_at_rest [unfolded at_rest_def]
      on_socket_def pushEvent_def split: socket_msg.split)

lemma dashboard_run_at_rest: "at_rest (fst dw) \<Longrightarrow> at_rest (fst (dashboard_run je net evs dw))"
proof (induction evs arbitrary: dw)
  case (Cons ev evs)
  then show ?case using dashboard_on_at_rest [of "fst dw" je net ev "snd dw"] by simp
qed simp

lemma mounted_at_rest: "at_rest (fst (dashboard_on je net Mounted (initial_dashboard, w)))"
  by (simp add: dashboard_on_def offers_def at_rest_def loadJobs_at_rest initial_dashboard_def initial_page_def)

text \<open>
  C39: the dashboard never hangs. Whatever the network answers and whatever the user does after the first load, no control stays disabled: between
  events nothing is loading, busy or saving, and the feed holds at most fifty events.
\<close>

theorem dashboard_never_hangs:
  "at_rest (fst (dashboard_run je net (Mounted # evs) (initial_dashboard, w)))"
  by (simp add: dashboard_run_at_rest mounted_at_rest)

end
