(* ===== verification/Job_Table.thy ===== *)
theory Job_Table
  imports Job_Service
begin

text \<open>
  The abstract specification of the job service: a table of jobs, with no cache, no executions and no
  clock. \<open>table_step\<close> says which answer and which new table an operation may give; the theorem is
  a data refinement with the table of the database as the abstraction, lifted to sequences of
  operations by the locale \<open>refinement\<close>.
\<close>

section \<open>Operations and answers\<close>

datatype job_op =
  CreateOp create_input
| UpdateOp string job_patch
| PauseOp string bool
| DeleteOp string
| BulkOp "string list" bool
| GetOp string
| ListOp

datatype job_answer =
  AJob job
| AMaybe "job option"
| ADeleted bool
| ACount int
| AJobs "job list"
| AFail err

definition perform_op :: "cron_parser \<Rightarrow> url_parser \<Rightarrow> env \<Rightarrow> job_op \<Rightarrow> job_answer prog" where
  "perform_op cp parse cfg op = try_catch
     (case op of
        CreateOp ci \<Rightarrow> bind (createJob cp parse cfg ci) (\<lambda>j. Ret (AJob j))
      | UpdateOp i p \<Rightarrow> bind (updateJob cp parse cfg i p) (\<lambda>j. Ret (AMaybe j))
      | PauseOp i b \<Rightarrow> bind (setPaused cp parse cfg i b) (\<lambda>j. Ret (AMaybe j))
      | DeleteOp i \<Rightarrow> bind (deleteJob i) (\<lambda>b. Ret (ADeleted b))
      | BulkOp ids b \<Rightarrow> bind (bulkSetEnabled ids b) (\<lambda>n. Ret (ACount n))
      | GetOp i \<Rightarrow> bind (getJobById i) (\<lambda>j. Ret (AMaybe j))
      | ListOp \<Rightarrow> bind listJobs (\<lambda>js. Ret (AJobs js)))
     (\<lambda>e. Ret (AFail e))"

section \<open>The abstract table\<close>

type_synonym job_table = "string \<Rightarrow> job option"

definition new_row :: "env \<Rightarrow> create_input \<Rightarrow> string \<Rightarrow> time \<Rightarrow> job" where
  "new_row cfg ci i t = \<lparr>job_id = i, job_name = ci_name ci, cronExpression = ci_cronExpression ci,
     callbackUrl = ci_callbackUrl ci, timezone = option_get_or (ci_timezone ci) ''UTC'',
     maxRetries = ci_maxRetries ci, backoffMs = ci_backoffMs ci,
     callbackTimeoutMs = option_get_or (ci_callbackTimeoutMs ci) (DEFAULT_CALLBACK_TIMEOUT_MS cfg),
     enabled = option_get_or (ci_enabled ci) True, paused = option_get_or (ci_paused ci) False,
     consecutiveDeadCount = 0, createdAt = t, updatedAt = t\<rparr>"

text \<open>The errors of a creation: an unsafe URL, or a schedule that does not parse.\<close>

definition create_refused :: "cron_parser \<Rightarrow> create_input \<Rightarrow> err \<Rightarrow> bool" where
  "create_refused cp ci e \<longleftrightarrow> (\<exists>m. e = UnsafeCallbackUrlError m) \<or>
     cp_parse cp (ci_cronExpression ci) (tz_or_utc (option_get_or (ci_timezone ci) ''UTC'')) = Some e"

text \<open>The errors of an update: an unsafe URL, or a schedule that does not parse.\<close>

definition update_refused :: "cron_parser \<Rightarrow> string \<Rightarrow> job_patch \<Rightarrow> job_table \<Rightarrow> err \<Rightarrow> bool" where
  "update_refused cp i p T e \<longleftrightarrow> (\<exists>m. e = UnsafeCallbackUrlError m \<and> jp_callbackUrl p \<noteq> None) \<or>
     (\<exists>old. T i = Some old \<and> new_cron_error cp p old = Some e)"

definition table_update :: "cron_parser \<Rightarrow> string \<Rightarrow> job_patch \<Rightarrow> job_table \<Rightarrow> job_answer \<Rightarrow> job_table \<Rightarrow> bool" where
  "table_update cp i p T a T' = (case a of
     AMaybe (Some j) \<Rightarrow> (\<exists>old t. T i = Some old \<and> new_cron_error cp p old = None \<and>
       j = (apply_job_patch p old)\<lparr>updatedAt := t\<rparr> \<and> T' = T(i \<mapsto> j))
   | AMaybe None \<Rightarrow> T i = None \<and> T' = T
   | AFail e \<Rightarrow> update_refused cp i p T e \<and> T' = T
   | _ \<Rightarrow> False)"

fun table_step :: "cron_parser \<Rightarrow> env \<Rightarrow> job_op \<Rightarrow> job_table \<Rightarrow> job_answer \<Rightarrow> job_table \<Rightarrow> bool" where
  "table_step cp cfg (CreateOp ci) T a T' = (case a of
     AJob j \<Rightarrow> (\<exists>i t. T i = None \<and> j = new_row cfg ci i t \<and> T' = T(i \<mapsto> j))
   | AFail e \<Rightarrow> create_refused cp ci e \<and> T' = T
   | _ \<Rightarrow> False)"
| "table_step cp cfg (UpdateOp i p) T a T' = table_update cp i p T a T'"
| "table_step cp cfg (PauseOp i b) T a T' =
     table_update cp i (no_job_patch\<lparr>jp_paused := Some b\<rparr>) T a T'"
| "table_step cp cfg (DeleteOp i) T a T' \<longleftrightarrow> a = ADeleted (T i \<noteq> None) \<and> T' = T(i := None)"
| "table_step cp cfg (BulkOp ids b) T a T' \<longleftrightarrow> a = ACount (int (card {i \<in> set ids. T i \<noteq> None})) \<and>
     (\<exists>t. T' = (\<lambda>i. if i \<in> set ids then map_option (\<lambda>j. j\<lparr>enabled := b, updatedAt := t\<rparr>) (T i) else T i))"
| "table_step cp cfg (GetOp i) T a T' \<longleftrightarrow> a = AMaybe (T i) \<and> T' = T"
| "table_step cp cfg ListOp T a T' \<longleftrightarrow> T' = T \<and> (\<exists>js. a = AJobs js \<and> distinct (map job_id js) \<and>
     set js = {j. T (job_id j) = Some j} \<and> sorted (map (\<lambda>j. - createdAt j) js))"

section \<open>Refinement of a sequence of operations\<close>

fun steps_of :: "('op \<Rightarrow> 'a \<Rightarrow> 'r \<Rightarrow> 'a \<Rightarrow> bool) \<Rightarrow> 'op list \<Rightarrow> 'a \<Rightarrow> 'r list \<Rightarrow> 'a \<Rightarrow> bool" where
  "steps_of step [] T [] T' \<longleftrightarrow> T' = T"
| "steps_of step (op # ops) T (r # rs) T' \<longleftrightarrow> (\<exists>U. step op T r U \<and> steps_of step ops U rs T')"
| "steps_of step _ T _ T' \<longleftrightarrow> False"

fun run_ops :: "('op \<Rightarrow> 'w \<Rightarrow> 'r \<times> 'w) \<Rightarrow> 'op list \<Rightarrow> 'w \<Rightarrow> 'r list \<times> 'w" where
  "run_ops f [] w = ([], w)"
| "run_ops f (op # ops) w = (let (r, w1) = f op w; (rs, w2) = run_ops f ops w1 in (r # rs, w2))"

locale refinement =
  fixes ok :: "'c \<Rightarrow> 'w \<Rightarrow> bool"
    and perform :: "'c \<Rightarrow> 'op \<Rightarrow> 'w \<Rightarrow> 'r \<times> 'w"
    and abs :: "'c \<Rightarrow> 'w \<Rightarrow> 'a"
    and step :: "'c \<Rightarrow> 'op \<Rightarrow> 'a \<Rightarrow> 'r \<Rightarrow> 'a \<Rightarrow> bool"
  assumes simulates: "ok c w \<Longrightarrow> perform c op w = (r, w') \<Longrightarrow> step c op (abs c w) r (abs c w')"
    and keeps_ok: "ok c w \<Longrightarrow> perform c op w = (r, w') \<Longrightarrow> ok c w'"
begin

lemma sequence_refines:
  "ok c w \<Longrightarrow> run_ops (perform c) ops w = (rs, w') \<Longrightarrow> steps_of (step c) ops (abs c w) rs (abs c w')"
proof (induction ops arbitrary: w rs)
  case (Cons op ops)
  obtain r w1 rs' where one: "perform c op w = (r, w1)" and rest: "run_ops (perform c) ops w1 = (rs', w')" "rs = r # rs'"
    using Cons.prems(2) by (auto simp: Let_def split: prod.splits)
  from Cons.IH [OF keeps_ok [OF Cons.prems(1) one] rest(1)] simulates [OF Cons.prems(1) one] rest(2)
  show ?case by auto
qed simp

end

section \<open>The job service refines the table\<close>

record 'w job_context =
  jx_svc :: "'w services"
  jx_view :: "'w view"
  jx_cron :: cron_parser
  jx_url :: url_parser
  jx_env :: env

definition job_ok :: "'w job_context \<Rightarrow> 'w \<Rightarrow> bool" where
  "job_ok c w \<longleftrightarrow> reliable (jx_svc c) (jx_view c) \<and> tables_wf (jx_view c w)"

definition job_perform :: "'w job_context \<Rightarrow> job_op \<Rightarrow> 'w \<Rightarrow> job_answer \<times> 'w" where
  "job_perform c op w = (case run (jx_svc c) (perform_op (jx_cron c) (jx_url c) (jx_env c) op) w of
     (Inl e, w') \<Rightarrow> (AFail e, w') | (Inr a, w') \<Rightarrow> (a, w'))"

definition job_abs :: "'w job_context \<Rightarrow> 'w \<Rightarrow> job_table" where
  "job_abs c w = st_jobs (jx_view c w)"

definition job_spec :: "'w job_context \<Rightarrow> job_op \<Rightarrow> job_table \<Rightarrow> job_answer \<Rightarrow> job_table \<Rightarrow> bool" where
  "job_spec c = table_step (jx_cron c) (jx_env c)"

text \<open>Each operation, fault-free, takes a step of the table.\<close>

definition op_refined :: "cron_parser \<Rightarrow> env \<Rightarrow> job_op \<Rightarrow> store \<Rightarrow> job_answer outcome \<Rightarrow> store \<Rightarrow> bool" where
  "op_refined cp cfg op s res s' \<longleftrightarrow> (\<exists>a. res = Inr a \<and> table_step cp cfg op (st_jobs s) a (st_jobs s'))"

lemma wp_answer:
  assumes "wp p Q s" "\<And>a s'. Q (Inr a) s' \<Longrightarrow> R (Inr (f a)) s'" "\<And>e s'. Q (Inl e) s' \<Longrightarrow> R (Inr (g e)) s'"
  shows "wp (try_catch (bind p (\<lambda>a. Ret (f a))) (\<lambda>e. Ret (g e))) R s"
  using assms(1) by (simp, elim wp_mono) (auto simp: assms(2,3) split: sum.splits)

lemma table_wf_fresh: "tables_wf s \<Longrightarrow> i \<notin> st_ids s \<Longrightarrow> st_jobs s i = None"
  by (auto simp: tables_wf_def) (metis not_None_eq)

lemma update_refines: "update_effect cp i p s (Inr j) s' \<Longrightarrow> table_update cp i p (st_jobs s) (AMaybe j) (st_jobs s')"
  "update_effect cp i p s (Inl e) s' \<Longrightarrow> table_update cp i p (st_jobs s) (AFail e) (st_jobs s')"
  by (auto simp: update_effect_def table_update_def update_refused_def split: option.splits)

lemma create_refines:
  assumes "create_effect cfg ci s (Inr j) s'" "tables_wf s"
  shows "\<exists>i t. st_jobs s i = None \<and> j = new_row cfg ci i t \<and> st_jobs s' = (st_jobs s)(i \<mapsto> j)"
proof -
  from assms(1) obtain t where ins: "job_inserted (create_data cfg ci) j (s\<lparr>st_clock := t\<rparr>) (s'\<lparr>st_kv := st_kv s, st_clock := t\<rparr>)"
    and fresh: "job_id j \<notin> st_ids s" by (auto simp: create_effect_def)
  from ins have "j = new_row cfg ci (job_id j) t" by (simp add: job_inserted_def new_row_def create_data_def)
  moreover from ins have "st_jobs s' = (st_jobs s)(job_id j \<mapsto> j)"
    by (auto simp: job_inserted_def dest: arg_cong [of _ _ st_jobs])
  ultimately show ?thesis using table_wf_fresh [OF assms(2) fresh] by blast
qed

lemma create_failed: "create_effect cfg ci s (Inl e) s' \<Longrightarrow> st_jobs s' = st_jobs s"
  by (simp add: create_effect_def) (metis store.select_convs(1) store.surjective store.update_convs(11))

lemma bulk_table:
  "st_jobs (enable_jobs ids b (s\<lparr>st_clock := t\<rparr>)) =
     (\<lambda>i. if i \<in> set ids then map_option (\<lambda>j. j\<lparr>enabled := b, updatedAt := t\<rparr>) (st_jobs s i) else st_jobs s i)"
  by (rule ext) (simp add: enable_jobs_def)

lemma createJob_refused:
  "wp (createJob cp parse cfg ci) (\<lambda>res s'. \<forall>e. res = Inl e \<longrightarrow> create_refused cp ci e) s"
proof -
  have made: "wp (bind (call_job (JobCreate (create_data cfg ci))) (\<lambda>job. bind (cacheJobConfig job) (\<lambda>_. Ret job)))
      (\<lambda>res s'. \<forall>e. res = Inl e \<longrightarrow> create_refused cp ci e) u" for u
    by (simp add: later_def)
  show ?thesis
    unfolding createJob_def
    by (simp only: wp_bind wp_assertValidCron)
      (auto simp: create_refused_def made [unfolded create_refused_def wp_bind] later_def
        split: option.split intro!: wp_ensureSafeCallback)
qed

lemma perform_op_refines:
  assumes "tables_wf s"
  shows "wp (perform_op cp parse cfg op) (op_refined cp cfg op s) s"
proof (cases op)
  case (CreateOp ci)
  show ?thesis
    unfolding perform_op_def CreateOp job_op.case
    by (rule wp_answer [OF wp_conj [THEN iffD2, OF conjI, OF createJob_wp createJob_refused]])
      (auto simp: op_refined_def create_failed dest!: create_refines [OF _ assms])
next
  case (UpdateOp i p)
  show ?thesis
    unfolding perform_op_def UpdateOp job_op.case
    by (rule wp_answer [OF updateJob_wp [OF assms]]) (auto simp: op_refined_def update_refines)
next
  case (PauseOp i b)
  show ?thesis
    unfolding perform_op_def PauseOp job_op.case setPaused_def
    by (rule wp_answer [OF updateJob_wp [OF assms]]) (auto simp: op_refined_def update_refines)
next
  case (DeleteOp i)
  show ?thesis
    unfolding perform_op_def DeleteOp job_op.case
    by (rule wp_answer [OF deleteJob_wp]) (auto simp: op_refined_def delete_effect_def)
next
  case (BulkOp ids b)
  show ?thesis
    unfolding perform_op_def BulkOp job_op.case
    by (rule wp_answer [OF bulkSetEnabled_wp]) (use bulk_table in \<open>auto simp: op_refined_def bulk_effect_def\<close>)
next
  case (GetOp i)
  then show ?thesis by (simp add: perform_op_def getJobById_def op_refined_def later_def)
next
  case ListOp
  then show ?thesis by (simp add: perform_op_def listJobs_def op_refined_def later_def)
qed

interpretation job_table: refinement job_ok job_perform job_abs job_spec
proof
  fix c :: "'w job_context" and op w r w'
  assume ok: "job_ok c w" and run: "job_perform c op w = (r, w')"
  obtain res where res: "run (jx_svc c) (perform_op (jx_cron c) (jx_url c) (jx_env c) op) w = (res, w')"
    "r = (case res of Inl e \<Rightarrow> AFail e | Inr a \<Rightarrow> a)"
    using run by (auto simp: job_perform_def split: prod.splits sum.splits)
  from ok have svc: "reliable (jx_svc c) (jx_view c)" and wf: "tables_wf (jx_view c w)" by (simp_all add: job_ok_def)
  from wp_run [OF svc perform_op_refines [OF wf] res(1)] res(2)
  show "job_spec c op (job_abs c w) r (job_abs c w')" by (auto simp: op_refined_def job_spec_def job_abs_def)
  show "job_ok c w'"
    using run_kept [OF reliable_ok [OF svc] wf res(1)] svc by (simp add: job_ok_def tables_kept_def)
qed

text \<open>
  C7: the job service is a table. Every sequence of creations, updates, pauses, deletions, bulk switches and reads, run without
  faults on PostgreSQL with the Redis cache in between, gives exactly answers that the abstract
  table of jobs gives for that sequence, and ends in the same table.
\<close>

theorem job_service_refines_table:
  assumes "reliable svc V" "tables_wf (V w)"
    "run_ops (job_perform \<lparr>jx_svc = svc, jx_view = V, jx_cron = cp, jx_url = parse, jx_env = cfg\<rparr>) ops w = (as, w')"
  shows "steps_of (table_step cp cfg) ops (st_jobs (V w)) as (st_jobs (V w'))"
  using job_table.sequence_refines [OF _ assms(3)] assms(1,2) by (simp add: job_ok_def job_spec_def job_abs_def)

theorem job_service_refines_table_witness:
  "fst (run_ops (job_perform \<lparr>jx_svc = ref_svc, jx_view = ref_view, jx_cron = minute_parser, jx_url = one_host, jx_env = default_env\<rparr>)
     [DeleteOp ''id-0'', GetOp ''id-0'', DeleteOp ''id-0''] (ref_start [sample_job] 0 0)) =
   [ADeleted True, AMaybe None, ADeleted False]"
proof -
  let ?c = "\<lparr>jx_svc = ref_svc, jx_view = ref_view, jx_cron = minute_parser, jx_url = one_host, jx_env = default_env\<rparr>"
    and ?ops = "[DeleteOp ''id-0'', GetOp ''id-0'', DeleteOp ''id-0'']" and ?w = "ref_start [sample_job] 0 0"
  obtain as w' where run: "run_ops (job_perform ?c) ?ops ?w = (as, w')" by fastforce
  have "length as = 3" using run by (auto simp: Let_def split: prod.splits)
  then obtain a b c where as: "as = [a, b, c]" by (auto simp: numeral_3_eq_3 length_Suc_conv)
  have row: "st_jobs (ref_view ?w) ''id-0'' = Some sample_job" by (simp add: ref_view_def ref_start_def sample_job_def)
  from job_service_refines_table [OF ref_svc_reliable sample_start_wf run] row show ?thesis
    unfolding run as by simp
qed

end
