(* ===== verification/Dashboard_Api.thy ===== *)
theory Dashboard_Api
  imports Dashboard_View Job_Table Api_Server "HOL-Library.Countable"
begin

text \<open>
  The dashboard against the API: \<open>fetch\<close> is the API process of theory \<open>Api_Server\<close>, reached through the
  rewrite of \<open>frontend/next.config.ts\<close>. The dashboard sends no API key. What its client reads of a response
  body is a parameter, since \<open>JSON.stringify\<close> and \<open>JSON.parse\<close> are the engine's: \<open>wire_ok\<close> says that reading the text of a list of jobs
  gives that list.
\<close>

section \<open>The network\<close>

definition server_method :: "call_method \<Rightarrow> http_method" where
  "server_method m = (case m of CGet \<Rightarrow> GET | CPost \<Rightarrow> POST | CPut \<Rightarrow> PUT | CDelete \<Rightarrow> DELETE)"

definition app_request_of :: "http_call \<Rightarrow> app_request" where
  "app_request_of c = \<lparr>hr_method = server_method (hc_method c), hr_path = hc_path c, hr_query = (\<lambda>_. QAbsent),
     hr_body = hc_body c, hr_auth = \<lparr>ah_authorization = None, ah_x_api_key = None\<rparr>, ar_body_error = None\<rparr>"

definition api_net :: "'w services \<Rightarrow> server \<Rightarrow> (body \<Rightarrow> string) \<Rightarrow> 'w net" where
  "api_net svc sv wire = (\<lambda>c w. case run svc (serve_request sv (app_request_of c)) w of
     (Inl e, w') \<Rightarrow> (Inl (err_text e), w')
   | (Inr r, w') \<Rightarrow> (Inr \<lparr>cr_status = rs_status r, cr_text = wire (rs_body r)\<rparr>, w'))"

section \<open>With API keys configured\<close>

text \<open>A network that refuses every request to the management API.\<close>

definition refuses :: "'w net \<Rightarrow> bool" where
  "refuses net \<longleftrightarrow> (\<forall>c w. hc_path c \<noteq> [] \<and> hd (hc_path c) = ''jobs'' \<longrightarrow>
     (\<exists>r. net c w = (Inr r, w) \<and> \<not> res_ok (cr_status r)))"

definition fails :: "('a, 'w) client \<Rightarrow> bool" where
  "fails m \<longleftrightarrow> (\<forall>w. \<exists>msg. m w = (Inl msg, w))"

lemma refuses_send:
  assumes "refuses net" "\<And>r. \<not> res_ok (cr_status r) \<Longrightarrow> \<exists>msg. f r = Inl msg"
  shows "fails (send net (call meth (''jobs'' # rest) b) f)"
  unfolding fails_def
proof
  fix w
  obtain r where r: "net (call meth (''jobs'' # rest) b) w = (Inr r, w)" "\<not> res_ok (cr_status r)"
    using assms(1) [unfolded refuses_def, rule_format, of "call meth (''jobs'' # rest) b" w] by (auto simp: call_def)
  with assms(2) [OF r(2)] show "\<exists>msg. send net (call meth (''jobs'' # rest) b) f w = (Inl msg, w)"
    by (auto simp: send_def)
qed

lemma refused_client:
  assumes "refuses net"
  shows "fails (fetchJobs je net)" "fails (createJob_call je net data)" "fails (deleteJob_call net i)"
    "fails (triggerJob_call je net i)" "fails (pauseJob_call je net i)" "fails (resumeJob_call je net i)"
    "fails (toggleJob_call je net i b)"
  unfolding fetchJobs_def createJob_call_def deleteJob_call_def triggerJob_call_def pauseJob_call_def resumeJob_call_def
    toggleJob_call_def
  by (rule refuses_send [OF assms], simp split: sum.split)+

lemma refused_load:
  assumes "refuses net"
  shows "\<exists>msg. loadJobs je net (pg, w) = (pg\<lparr>pg_error := Some msg, pg_loading := False\<rparr>, w)"
  using refused_client(1) [OF assms, of je] by (auto simp: loadJobs_def fails_def Let_def dest!: spec [of _ w])

text \<open>Nothing gets through: the world stays as it is and the page shows no jobs.\<close>

definition blank :: "'w \<Rightarrow> dashboard \<times> 'w \<Rightarrow> bool" where
  "blank w dw \<longleftrightarrow> pg_jobs (db_page (fst dw)) = [] \<and> snd dw = w"

lemma refused_blank:
  assumes "refuses net" "blank w dw"
  shows "blank w (dashboard_on je net ev dw)"
proof -
  obtain d where dw: "dw = (d, w)" "pg_jobs (db_page d) = []" using assms(2) by (cases dw) (auto simp: blank_def)
  obtain msg where load: "loadJobs je net (db_page d, w) = ((db_page d)\<lparr>pg_error := Some msg, pg_loading := False\<rparr>, w)"
    using refused_load [OF assms(1)] by blast
  obtain msg2 where create: "createJob_call je net (form_json (md_form (db_modal d))) w = (Inl msg2, w)"
    using refused_client(2) [OF assms(1)] unfolding fails_def by blast
  show ?thesis
    by (cases ev) (auto simp: dw(1) dashboard_on_def blank_def offers_def dw(2) on_page_def load submit_def handleSubmit_def create)
qed

lemma refused_run: "refuses net \<Longrightarrow> blank w dw \<Longrightarrow> blank w (dashboard_run je net evs dw)"
  by (induction evs arbitrary: dw) (simp_all add: refused_blank)

lemma keys_refuse:
  assumes "parseKeys (ac_env (sv_api sv)) \<noteq> []" "\<And>req r. sv_limiter sv req = Some r \<Longrightarrow> \<not> res_ok (rs_status r)"
  shows "refuses (api_net svc sv wire)"
  unfolding refuses_def
proof (intro allI impI)
  fix c :: http_call and w
  assume c: "hc_path c \<noteq> [] \<and> hd (hc_path c) = ''jobs''"
  have "requireApiKey (ac_env (sv_api sv)) \<lparr>ah_authorization = None, ah_x_api_key = None\<rparr> = Auth401"
    using assms(1) by (simp add: requireApiKey_def provided_key_def bearer_token_def)
  then show "\<exists>r. api_net svc sv wire c w = (Inr r, w) \<and> \<not> res_ok (cr_status r)"
    using c assms(2)
    by (auto simp: api_net_def serve_request_def dispatch_def jobs_chain_def app_request_of_def http_request.truncate_def
        unauthorized_def respond_def res_ok_def neq_Nil_conv split: option.split)
qed


section \<open>With an open API\<close>

definition open_server :: "server \<Rightarrow> bool" where
  "open_server sv \<longleftrightarrow> parseKeys (ac_env (sv_api sv)) = [] \<and> (\<forall>req. sv_limiter sv req = None)"

definition wire_ok :: "js_engine \<Rightarrow> (body \<Rightarrow> string) \<Rightarrow> bool" where
  "wire_ok je wire \<longleftrightarrow> (\<forall>js. je_jobs je (wire (BJobs js)) = Inr js) \<and> (\<forall>j. \<exists>v. je_json je (wire (BJob j)) = Inr v)"

definition jobs_request :: "http_call \<Rightarrow> http_request" where
  "jobs_request c = http_request.truncate ((app_request_of c)\<lparr>hr_path := tl (hc_path c)\<rparr>)"

text \<open>A call of the dashboard ends with what its handler does.\<close>

definition handler_response :: "response outcome \<Rightarrow> response" where
  "handler_response res = (case res of Inr r \<Rightarrow> r | Inl e \<Rightarrow> error_response e)"

lemma open_serve:
  assumes "open_server sv" "hc_path c = ''jobs'' # rest" "route (sv_api sv) (jobs_request c) = Some h"
  shows "serve_request sv (app_request_of c) = try_catch h (\<lambda>e. Ret (error_response e))"
  using assms
  by (simp add: serve_request_def dispatch_def jobs_chain_def jobs_request_def app_request_of_def open_server_def requireApiKey_def)

lemma open_call:
  assumes "reliable svc V" "open_server sv" "hc_path c = ''jobs'' # rest" "route (sv_api sv) (jobs_request c) = Some h"
    "wp h Q (V w)"
  obtains res w' where "api_net svc sv wire c w =
      (Inr \<lparr>cr_status = rs_status (handler_response res), cr_text = wire (rs_body (handler_response res))\<rparr>, w')" "Q res (V w')"
proof -
  obtain res w' where run: "run svc h w = (res, w')" by fastforce
  have "api_net svc sv wire c w =
      (Inr \<lparr>cr_status = rs_status (handler_response res), cr_text = wire (rs_body (handler_response res))\<rparr>, w')"
    unfolding api_net_def open_serve [OF assms(2-4)] by (simp add: run_try_catch run handler_response_def split: sum.split)
  with wp_run [OF assms(1,5) run] that show thesis by blast
qed

text \<open>The list of all jobs of a table, newest first.\<close>

definition listing :: "job_table \<Rightarrow> job list \<Rightarrow> bool" where
  "listing T js \<longleftrightarrow> distinct (map job_id js) \<and> set js = {j. T (job_id j) = Some j} \<and>
     sorted (map (\<lambda>j. - createdAt j) js)"

lemma load_lists:
  assumes "reliable svc V" "open_server sv" "wire_ok je wire"
  obtains js w' where "loadJobs je (api_net svc sv wire) (pg, w) = (pg\<lparr>pg_jobs := js, pg_loading := False\<rparr>, w')"
    "listing (st_jobs (V w)) js" "st_jobs (V w') = st_jobs (V w)"
proof -
  let ?c = "call CGet [''jobs''] None"
  let ?Q = "\<lambda>res s'. \<exists>js. res = Inr (respond 200 (BJobs js)) \<and> listing (st_jobs (V w)) js \<and> st_jobs s' = st_jobs (V w)"
  have c: "hc_path ?c = ''jobs'' # []" "route (sv_api sv) (jobs_request ?c) = Some get_jobs"
    by (simp_all add: call_def route_def jobs_request_def app_request_of_def server_method_def http_request.truncate_def Let_def)
  have "wp get_jobs ?Q (V w)" by (auto simp: get_jobs_def listJobs_def later_def listing_def)
  from open_call [OF assms(1,2) c this] obtain res w' where r: "api_net svc sv wire ?c w =
      (Inr \<lparr>cr_status = rs_status (handler_response res), cr_text = wire (rs_body (handler_response res))\<rparr>, w')" "?Q res (V w')"
    by blast
  then obtain js where js: "res = Inr (respond 200 (BJobs js))" "listing (st_jobs (V w)) js" "st_jobs (V w') = st_jobs (V w)" by blast
  have "fetchJobs je (api_net svc sv wire) w = (Inr js, w')"
    using r(1) js(1) assms(3) by (simp add: fetchJobs_def send_def handler_response_def respond_def res_ok_def wire_ok_def)
  then have "loadJobs je (api_net svc sv wire) (pg, w) = (pg\<lparr>pg_jobs := js, pg_loading := False\<rparr>, w')"
    by (simp add: loadJobs_def Let_def)
  with js(2,3) that show thesis by blast
qed

section \<open>What a click on a row does\<close>

text \<open>The row after an action; \<open>None\<close> if the action deletes it. Toggling negates the flag that is shown.\<close>

definition action_row :: "string \<Rightarrow> job \<Rightarrow> job \<Rightarrow> time \<Rightarrow> job option" where
  "action_row a shown old t =
     (if a = ''pause'' then Some (old\<lparr>paused := True, updatedAt := t\<rparr>)
      else if a = ''resume'' then Some (old\<lparr>paused := False, updatedAt := t\<rparr>)
      else if a = ''toggle'' then Some (old\<lparr>enabled := \<not> enabled shown, updatedAt := t\<rparr>)
      else None)"

definition acted :: "string \<Rightarrow> job \<Rightarrow> string \<Rightarrow> job_table \<Rightarrow> job_table \<Rightarrow> bool" where
  "acted a shown i T T' \<longleftrightarrow> (case T i of None \<Rightarrow> T' = T | Some old \<Rightarrow> \<exists>t. T' = T(i := action_row a shown old t))"

text \<open>The handler of the action, with its answer.\<close>

definition answered :: "string \<Rightarrow> job \<Rightarrow> string \<Rightarrow> store \<Rightarrow> response outcome \<Rightarrow> store \<Rightarrow> bool" where
  "answered a shown i s res s' \<longleftrightarrow> acted a shown i (st_jobs s) (st_jobs s') \<and>
     (if st_jobs s i = None then res = Inr not_found
      else if a = ''delete'' then res = Inr (respond 204 BNone) else \<exists>j. res = Inr (respond 200 (BJob j)))"

definition plain_patch :: "job_patch \<Rightarrow> bool" where
  "plain_patch p \<longleftrightarrow> jp_cronExpression p = None \<and> jp_timezone p = None \<and> jp_callbackUrl p = None"

lemma patched_answer:
  assumes "tables_wf s" "a \<noteq> ''delete''" "plain_patch p" "\<And>old t. Some ((apply_job_patch p old)\<lparr>updatedAt := t\<rparr>) = action_row a shown old t"
  shows "wp (bind (updateJob cp parse cfg i p) (\<lambda>job. Ret (job_or_404 job))) (answered a shown i s) s"
proof -
  have ok: "answered a shown i s (case res of Inl e \<Rightarrow> Inl e | Inr job \<Rightarrow> Inr (job_or_404 job)) s'"
    if "update_effect cp i p s res s'" for res s'
    using that assms(2,3) assms(4) [symmetric]
    by (auto simp: update_effect_def plain_patch_def new_cron_error_def answered_def acted_def job_or_404_def
        split: sum.splits option.splits)
  show ?thesis
    unfolding wp_bind by (rule wp_mono [OF updateJob_wp [OF assms(1)]]) (auto dest: ok split: sum.splits)
qed

lemma deleted_answer:
  "a = ''delete'' \<Longrightarrow> wp (delete_job_route i) (answered a shown i s) s"
  unfolding delete_job_route_def wp_bind
  by (rule wp_mono [OF deleteJob_wp])
    (auto simp: delete_effect_def answered_def acted_def action_row_def split: sum.splits option.splits)

definition action_error :: "string \<Rightarrow> string" where
  "action_error a =
     (if a = ''pause'' then ''Pause failed (404)'' else if a = ''resume'' then ''Resume failed (404)''
      else if a = ''toggle'' then ''Update failed (404)'' else ''Delete failed (404)'')"

lemma answered_call:
  assumes "reliable svc V" "open_server sv" "hc_path c = ''jobs'' # rest" "route (sv_api sv) (jobs_request c) = Some h"
    "wp h (answered a shown i (V w)) (V w)" "\<And>r. cr_status r = 404 \<Longrightarrow> f r = Inl (action_error a)"
    "\<And>r j. (if a = ''delete'' then cr_status r = 204 else cr_status r = 200 \<and> cr_text r = wire (BJob j)) \<Longrightarrow> f r = Inr ()"
  obtains w' where "send (api_net svc sv wire) c f w = (if st_jobs (V w) i = None then Inl (action_error a) else Inr (), w')"
    "acted a shown i (st_jobs (V w)) (st_jobs (V w'))"
proof -
  from open_call [OF assms(1-5)] obtain res w' where r: "api_net svc sv wire c w =
      (Inr \<lparr>cr_status = rs_status (handler_response res), cr_text = wire (rs_body (handler_response res))\<rparr>, w')"
      "answered a shown i (V w) res (V w')" by blast
  have "f \<lparr>cr_status = rs_status (handler_response res), cr_text = wire (rs_body (handler_response res))\<rparr> =
      (if st_jobs (V w) i = None then Inl (action_error a) else Inr ())"
    using r(2) assms(6,7) by (auto simp: answered_def handler_response_def respond_def not_found_def split: if_splits)
  with r that show thesis by (simp add: send_def answered_def)
qed

lemma toggle_answer:
  assumes "tables_wf s" "b \<longleftrightarrow> \<not> enabled shown"
  shows "wp (put_job_route cp parse cfg i (Some (JObj [(''enabled'', JBool b)]))) (answered ''toggle'' shown i s) s"
proof -
  have "updateBody parse (Some (JObj [(''enabled'', JBool b)])) = Some (no_job_patch\<lparr>jp_enabled := Some b\<rparr>)"
    by (simp add: updateBody_def z_object_def update_fields_def field_def z_optional_def z_bool_def no_job_patch_def)
  then show ?thesis
    unfolding put_job_route_def parse_body_def using assms(2)
    by (simp del: wp_bind) (rule patched_answer [OF assms(1)],
      simp_all add: plain_patch_def no_job_patch_def action_row_def apply_job_patch_def)
qed

lemma paused_answer:
  "tables_wf s \<Longrightarrow> act = (if b then ''pause'' else ''resume'') \<Longrightarrow>
     wp (post_paused cp parse cfg b i) (answered act shown i s) s"
  unfolding post_paused_def setPaused_def
  by (rule patched_answer) (simp_all add: plain_patch_def no_job_patch_def action_row_def apply_job_patch_def)

lemma wire_ok_unit_json: "wire_ok je wire \<Longrightarrow> cr_text r = wire (BJob j) \<Longrightarrow> unit_json je r = Inr ()"
  by (auto simp: wire_ok_def unit_json_def dest!: spec [of _ j])

lemma int_to_string_404: "int_to_string 404 = ''404''"
  by code_simp

lemma row_routes:
  "route ac (jobs_request (call CPost [''jobs'', i, ''pause''] None)) = Some (post_paused (ac_cron ac) (ac_url ac) (ac_env ac) True i)"
  "route ac (jobs_request (call CPost [''jobs'', i, ''resume''] None)) = Some (post_paused (ac_cron ac) (ac_url ac) (ac_env ac) False i)"
  "route ac (jobs_request (call CPut [''jobs'', i] b)) = Some (put_job_route (ac_cron ac) (ac_url ac) (ac_env ac) i b)"
  "route ac (jobs_request (call CDelete [''jobs'', i] None)) = Some (delete_job_route i)"
  by (simp_all add: call_def route_def jobs_request_def app_request_of_def server_method_def http_request.truncate_def Let_def)

lemma action_answered:
  assumes "reliable svc V" "tables_wf (V w)" "open_server sv" "wire_ok je wire"
    "a \<in> {''pause'', ''resume'', ''toggle'', ''delete''}" "find (\<lambda>j. job_id j = i) jobs = Some shown"
  obtains w' where "action_call je (api_net svc sv wire) jobs i a w =
      (if st_jobs (V w) i = None then Inl (action_error a) else Inr (), w')"
    "acted a shown i (st_jobs (V w)) (st_jobs (V w'))"
proof -
  note errors = failed_with_def int_to_string_404 action_error_def res_ok_def
  note json = wire_ok_unit_json [OF assms(4)] and paused = paused_answer [OF assms(2)] and patch = toggle_answer [OF assms(2)]
  note result = that
  have finish: thesis
    if "action_call je (api_net svc sv wire) jobs i a = send (api_net svc sv wire) c f" "hc_path c = ''jobs'' # rest"
      "route (sv_api sv) (jobs_request c) = Some h" "wp h (answered a shown i (V w)) (V w)"
      "\<And>r. cr_status r = 404 \<Longrightarrow> f r = Inl (action_error a)"
      "\<And>r j. (if a = ''delete'' then cr_status r = 204 else cr_status r = 200 \<and> cr_text r = wire (BJob j)) \<Longrightarrow> f r = Inr ()"
    for c f h rest
    by (rule answered_call [where f = f and wire = wire, OF assms(1,3) that(2-4)])
      (rule that(5), assumption, rule that(6), assumption, rule result, simp add: that(1))
  consider "a = ''pause''" | "a = ''resume''" | "a = ''toggle''" | "a = ''delete''" using assms(5) by blast
  then show thesis
  proof cases
    case 1
    then have "action_call je (api_net svc sv wire) jobs i a = pauseJob_call je (api_net svc sv wire) i"
      by (simp add: action_call_def)
    with 1 show thesis
      by (intro finish [OF trans [OF _ pauseJob_call_def] _ row_routes(1)]) (auto simp: call_def errors json intro: paused)
  next
    case 2
    then have "action_call je (api_net svc sv wire) jobs i a = resumeJob_call je (api_net svc sv wire) i"
      by (simp add: action_call_def)
    with 2 show thesis
      by (intro finish [OF trans [OF _ resumeJob_call_def] _ row_routes(2)]) (auto simp: call_def errors json intro: paused)
  next
    case 3
    then have "action_call je (api_net svc sv wire) jobs i a = toggleJob_call je (api_net svc sv wire) i (\<not> enabled shown)"
      by (simp add: action_call_def assms(6))
    with 3 show thesis
      by (intro finish [OF trans [OF _ toggleJob_call_def] _ row_routes(3)]) (auto simp: call_def errors json intro: patch)
  next
    case 4
    then have "action_call je (api_net svc sv wire) jobs i a = deleteJob_call (api_net svc sv wire) i"
      by (simp add: action_call_def)
    with 4 show thesis
      by (intro finish [OF trans [OF _ deleteJob_call_def] _ row_routes(4)]) (auto simp: call_def errors intro: deleted_answer)
  qed
qed

text \<open>
  C16: a click on a row takes effect. When no API key is configured and nothing fails, clicking the pause, resume, toggle or delete button of a job
  changes exactly that job, as the button says, and the page then lists exactly the jobs of the database,
  newest first, without an error. If the job is gone meanwhile, nothing changes and the page says so.
\<close>

theorem row_click_takes_effect:
  assumes "reliable svc V" "tables_wf (V w)" "open_server sv" "wire_ok je wire"
    "a \<in> {''pause'', ''resume'', ''toggle'', ''delete''}" "offers d (RowClick i a)"
    "dashboard_on je (api_net svc sv wire) (RowClick i a) (d, w) = (d', w')"
  shows "\<exists>shown. find (\<lambda>j. job_id j = i) (pg_jobs (db_page d)) = Some shown \<and>
    acted a shown i (st_jobs (V w)) (st_jobs (V w')) \<and>
    (if st_jobs (V w) i = None
     then pg_error (db_page d') = Some (action_error a) \<and> pg_jobs (db_page d') = pg_jobs (db_page d)
     else pg_error (db_page d') = None \<and> listing (st_jobs (V w')) (pg_jobs (db_page d')))"
proof -
  let ?net = "api_net svc sv wire"
  obtain shown where shown: "find (\<lambda>j. job_id j = i) (pg_jobs (db_page d)) = Some shown"
    using assms(6) by (cases "find (\<lambda>j. job_id j = i) (pg_jobs (db_page d))") (auto simp: offers_def find_None_iff)
  obtain w1 where act: "action_call je ?net (pg_jobs (db_page d)) i a w =
      (if st_jobs (V w) i = None then Inl (action_error a) else Inr (), w1)"
      "acted a shown i (st_jobs (V w)) (st_jobs (V w1))"
    using action_answered [OF assms(1-5) shown] by blast
  obtain js w2 where load: "loadJobs je ?net ((db_page d)\<lparr>pg_busy := Some i, pg_error := None\<rparr>, w1) =
      ((db_page d)\<lparr>pg_busy := Some i, pg_error := None, pg_jobs := js, pg_loading := False\<rparr>, w2)"
      "listing (st_jobs (V w1)) js" "st_jobs (V w2) = st_jobs (V w1)"
    using load_lists [OF assms(1,3,4)] by blast
  show ?thesis
    using assms(6,7) act load shown
    by (cases "st_jobs (V w) i") (auto simp: dashboard_on_def on_page_def handleAction_def Let_def)
qed

section \<open>What submitting the form does\<close>

text \<open>The answer to a creation, and what it does to the table.\<close>

definition created_answer :: "server \<Rightarrow> job_form \<Rightarrow> store \<Rightarrow> response outcome \<Rightarrow> store \<Rightarrow> bool" where
  "created_answer sv f s res s' \<longleftrightarrow> (case res of
     Inr r \<Rightarrow> form_valid (ac_url (sv_api sv)) f \<and> (\<exists>i t. st_jobs s i = None \<and>
       st_jobs s' = (st_jobs s)(i \<mapsto> new_row (ac_env (sv_api sv)) (form_input f) i t) \<and>
       r = respond 201 (BJob (new_row (ac_env (sv_api sv)) (form_input f) i t)))
   | Inl e \<Rightarrow> st_jobs s' = st_jobs s \<and>
       (form_valid (ac_url (sv_api sv)) f \<longrightarrow> create_refused (ac_cron (sv_api sv)) (form_input f) e))"

lemma post_jobs_answer:
  assumes "tables_wf s"
  shows "wp (post_jobs (ac_cron (sv_api sv)) (ac_url (sv_api sv)) (ac_env (sv_api sv)) (Some (form_json f)))
    (created_answer sv f s) s"
proof (cases "form_valid (ac_url (sv_api sv)) f")
  case True
  then have "createBody (ac_url (sv_api sv)) (Some (form_json f)) = Some (form_input f)" by (simp add: createBody_form)
  then show ?thesis
    unfolding post_jobs_def parse_body_def
    by (simp del: wp_bind add: wp_bind [of "createJob cp parse cfg ci" for cp parse cfg ci],
        intro wp_mono [OF wp_conj [THEN iffD2, OF conjI, OF createJob_wp createJob_refused]])
      (auto simp: created_answer_def True create_failed dest!: create_refines [OF _ assms] split: sum.splits)
next
  case False
  then show ?thesis by (simp add: post_jobs_def parse_body_def createBody_form created_answer_def)
qed

lemma submit_answered:
  assumes "reliable svc V" "tables_wf (V w)" "open_server sv" "wire_ok je wire"
  obtains (saved) v w1 i t where "createJob_call je (api_net svc sv wire) (form_json f) w = (Inr v, w1)"
      "form_valid (ac_url (sv_api sv)) f" "st_jobs (V w) i = None"
      "st_jobs (V w1) = (st_jobs (V w))(i \<mapsto> new_row (ac_env (sv_api sv)) (form_input f) i t)"
  | (refused) m w1 e where "createJob_call je (api_net svc sv wire) (form_json f) w = (Inl m, w1)"
      "st_jobs (V w1) = st_jobs (V w)"
      "form_valid (ac_url (sv_api sv)) f \<longrightarrow> create_refused (ac_cron (sv_api sv)) (form_input f) e"
proof -
  let ?c = "call CPost [''jobs''] (Some (form_json f))"
  have c: "hc_path ?c = ''jobs'' # []" "route (sv_api sv) (jobs_request ?c) =
      Some (post_jobs (ac_cron (sv_api sv)) (ac_url (sv_api sv)) (ac_env (sv_api sv)) (Some (form_json f)))"
    by (simp_all add: call_def route_def jobs_request_def app_request_of_def server_method_def http_request.truncate_def Let_def)
  obtain res w1 where r: "api_net svc sv wire ?c w =
      (Inr \<lparr>cr_status = rs_status (handler_response res), cr_text = wire (rs_body (handler_response res))\<rparr>, w1)"
      "created_answer sv f (V w) res (V w1)"
    using open_call [OF assms(1,3) c post_jobs_answer [OF assms(2)]] by blast
  show thesis
  proof (cases res)
    case (Inl e)
    have "\<not> res_ok (rs_status (error_response e))"
      by (cases e) (simp_all add: error_response_def fallbackError_def respond_def res_ok_def)
    then obtain m where "createJob_call je (api_net svc sv wire) (form_json f) w = (Inl m, w1)"
      using r(1) Inl
      by (cases "je_json je (wire (rs_body (error_response e)))") (simp_all add: createJob_call_def send_def handler_response_def)
    from this show thesis by (rule refused [where e = e]) (use r(2) Inl in \<open>simp_all add: created_answer_def\<close>)
  next
    case (Inr resp)
    with r(2) obtain i t where row: "form_valid (ac_url (sv_api sv)) f" "st_jobs (V w) i = None"
      "st_jobs (V w1) = (st_jobs (V w))(i \<mapsto> new_row (ac_env (sv_api sv)) (form_input f) i t)"
      "resp = respond 201 (BJob (new_row (ac_env (sv_api sv)) (form_input f) i t))"
      by (auto simp: created_answer_def)
    from assms(4) obtain v where "je_json je (wire (BJob (new_row (ac_env (sv_api sv)) (form_input f) i t))) = Inr v"
      by (auto simp: wire_ok_def)
    then have "createJob_call je (api_net svc sv wire) (form_json f) w = (Inr v, w1)"
      using r(1) Inr row(4) by (simp add: createJob_call_def send_def handler_response_def respond_def res_ok_def)
    then show thesis using row by (intro saved)
  qed
qed


text \<open>Jobs are countable, so a text can stand for a list of jobs.\<close>

instance job_ext :: (countable) countable
  by (rule countable_classI [of "\<lambda>j. to_nat ((job_id j, job_name j, cronExpression j, callbackUrl j, timezone j),
    (maxRetries j, backoffMs j, callbackTimeoutMs j, enabled j, paused j), (consecutiveDeadCount j, createdAt j, updatedAt j, job.more j))"])
    simp

definition sample_wire :: "body \<Rightarrow> string" where
  "sample_wire b = (case b of BJobs js \<Rightarrow> replicate (to_nat js) CHR ''x'' | _ \<Rightarrow> [])"

definition sample_engine :: js_engine where
  "sample_engine = \<lparr>je_json = (\<lambda>_. Inr JNull), je_jobs = (\<lambda>s. Inr (from_nat (length s))), je_string = (\<lambda>_. []), je_null_error = []\<rparr>"

lemma sample_wire_ok: "wire_ok sample_engine sample_wire"
  by (simp add: wire_ok_def sample_engine_def sample_wire_def)

definition open_sample :: server where
  "open_sample = sample_server\<lparr>sv_api := sample_api\<rparr>"

definition sample_dashboard :: dashboard where
  "sample_dashboard = initial_dashboard\<lparr>db_page := initial_page\<lparr>pg_jobs := [sample_job], pg_loading := False\<rparr>\<rparr>"

lemma open_sample_open: "open_server open_sample"
  by (simp add: open_server_def open_sample_def sample_server_def sample_api_def parseKeys_def nonempty_keys_def default_env_def trim_def)

theorem row_click_takes_effect_witness:
  "case dashboard_on sample_engine (api_net ref_svc open_sample sample_wire) (RowClick ''id-0'' ''toggle'')
      (sample_dashboard, ref_start [sample_job] 0 0) of (d', w') \<Rightarrow>
     (\<exists>t. st_jobs (ref_view w') ''id-0'' = Some (sample_job\<lparr>enabled := False, updatedAt := t\<rparr>)) \<and>
     pg_error (db_page d') = None \<and> listing (st_jobs (ref_view w')) (pg_jobs (db_page d'))"
proof -
  let ?w = "ref_start [sample_job] 0 0"
  obtain d' w' where run: "dashboard_on sample_engine (api_net ref_svc open_sample sample_wire) (RowClick ''id-0'' ''toggle'')
      (sample_dashboard, ?w) = (d', w')" by fastforce
  have jobs: "pg_jobs (db_page sample_dashboard) = [sample_job]" "pg_loading (db_page sample_dashboard) = False"
    "pg_busy (db_page sample_dashboard) = None" "job_id sample_job = ''id-0''" "enabled sample_job"
    by (simp_all add: sample_dashboard_def initial_page_def sample_job_def)
  then have offer: "offers sample_dashboard (RowClick ''id-0'' ''toggle'')"
    by (simp add: offers_def job_buttons_def Let_def)
  have row: "st_jobs (ref_view ?w) ''id-0'' = Some sample_job" by (simp add: ref_view_def ref_start_def sample_job_def)
  from row_click_takes_effect [OF ref_svc_reliable sample_start_wf open_sample_open sample_wire_ok _ offer run] jobs row
  show ?thesis unfolding run by (auto simp: acted_def action_row_def)
qed



end
