(* ===== verification/Pipeline.thy ===== *)
theory Pipeline
  imports Scheduler Worker Job_Service
begin

text \<open>
  The pipeline of a scheduled fire: the scan of \<open>src/scheduler.ts\<close> puts an entry on the queue, and BullMQ's first delivery
  of that entry to \<open>src/worker.ts\<close> calls the job's URL. The theorem composes the effects of \<open>tick\<close> and of
  \<open>processExecutionJob\<close>; what connects them is that a scan leaves the cached jobs as they are.
\<close>

section \<open>Programs that leave a Redis key alone\<close>

fun leaves_key :: "string \<Rightarrow> req \<Rightarrow> bool" where
  "leaves_key k (RedisSet k' v x) = (k' \<noteq> k)"
| "leaves_key k (RedisSetNX k' v x) = (k' \<noteq> k)"
| "leaves_key k (RedisDel k') = (k' \<noteq> k)"
| "leaves_key k (RedisPexpire k' t) = (k' \<noteq> k)"
| "leaves_key k (RedisEval sc k') = (k' \<noteq> k)"
| "leaves_key k _ = True"

lemma ok_effect_key: "ok_effect q r s s' \<Longrightarrow> leaves_key k q \<Longrightarrow> st_kv s' k = st_kv s k"
  by (cases q) (auto simp: ok_effect_def exec_inserted_def job_inserted_def enable_jobs_def delete_job_def
      split: if_splits option.splits)

lemma script_effect_key:
  "script_effect p n s s' \<Longrightarrow> calls_only (leaves_key k) p \<Longrightarrow> st_kv s' k = st_kv s k"
proof (induction p arbitrary: s)
  case (Call q c)
  then obtain r u where "ok_effect q r s u" "script_effect (c r) n u s'" by auto
  with Call.IH [of "c r" u] Call.prems(2) ok_effect_key show ?case by fastforce
qed simp_all

lemma done_effect_key:
  assumes "done_effect q r s s'" "leaves_key k q"
  shows "st_kv s' k = st_kv s k"
proof (cases q)
  case (RedisEval sc k')
  then have "calls_only (leaves_key k) (lua_program sc k')"
    using assms(2) by (cases sc) (auto simp: RELEASE_SCRIPT_def RENEW_SCRIPT_def intro!: calls_only_bind)
  with RedisEval assms(1) show ?thesis by (auto simp: done_effect_def dest: script_effect_key)
qed (use assms in \<open>auto simp: done_effect_def dest: ok_effect_key\<close>)

lemma attempted_key [simp]: "st_kv (attempted q s) = st_kv s"
  by (simp add: attempted_def split: req.split)

lemma call_effect_key:
  assumes "call_effect q r s s'" "leaves_key k q"
  shows "st_kv s' k = st_kv s k"
proof -
  from assms(1) obtain t where inst: "instant_effect q r (s\<lparr>st_clock := t\<rparr>) s'" by (auto simp: call_effect_def)
  then consider "s' = attempted q (s\<lparr>st_clock := t\<rparr>)" | r' where "done_effect q r' (s\<lparr>st_clock := t\<rparr>) s'"
    by (auto simp: instant_effect_def fail_effect_def split: resp.splits)
  then show ?thesis by cases (simp_all add: done_effect_key [OF _ assms(2)])
qed

lemma run_leaves_key:
  assumes "services_ok svc V" "calls_only (leaves_key k) p" "run svc p w = (res, w')"
  shows "st_kv (V w') k = st_kv (V w) k"
  using assms(2,3)
proof (induction p arbitrary: w)
  case (Call q c)
  obtain r u where u: "svc q w = (r, u)" by fastforce
  have "st_kv (V u) k = st_kv (V w) k"
    using call_effect_key [OF services_okD [OF assms(1) u]] Call.prems(1) by simp
  with Call.IH [of "c r" u] Call.prems u show ?case by simp
qed simp_all

section \<open>A scan leaves the cached jobs alone\<close>

lemma config_not_lock: "jobLockKey i f \<noteq> jobConfigKey k"
  by (simp add: jobLockKey_def jobConfigKey_def)

lemma tick_leaves_config: "calls_only (leaves_key (jobConfigKey k)) (tick cp cfg)"
proof -
  have lock: "calls_only (leaves_key (jobConfigKey k)) (acquireJobLock i f ttl)"
    "calls_only (leaves_key (jobConfigKey k)) (releaseJobLock l)" for i f ttl l
    by (auto simp: acquireJobLock_def releaseJobLock_def config_not_lock Let_def intro!: calls_only_bind)
  have create: "calls_only (leaves_key (jobConfigKey k)) (createScheduledExecution i t)" for i t
    by (auto simp: createScheduledExecution_def intro!: calls_only_bind calls_only_try_catch)
  have "calls_only (leaves_key (jobConfigKey k)) (fire_slot_of_job cfg j slot)" for j slot
    by (auto simp: fire_slot_of_job_def lock create intro!: calls_only_bind calls_only_try_catch split: option.split)
  then have "calls_only (leaves_key (jobConfigKey k)) (tick_job cp cfg j)" for j
    by (auto simp: tick_job_def intro!: calls_only_bind split: option.split)
  then show ?thesis by (auto simp: tick_def intro!: calls_only_bind calls_only_for_each)
qed

text \<open>While the cache is coherent, a reader at any later time gets the row of the table.\<close>

lemma coherent_read:
  assumes "cache_coherent s" "st_clock s \<le> t" "st_kv u (jobConfigKey i) = st_kv s (jobConfigKey i)"
    "st_jobs u i = st_jobs s i" "st_jobs s i = Some j"
  shows "read_job u t i = Some j"
proof -
  have "c = j" if "parse_cached (live_at (st_kv s) t (jobConfigKey i)) = Some c" for c
  proof -
    from that obtain d where "st_kv s (jobConfigKey i) = Some (JobJson c, d)" "t < d"
      by (auto simp: parse_cached_def live_at_def split: option.splits rvalue.splits if_splits)
    with assms(1,2,5) show ?thesis unfolding cache_coherent_def by (metis option.inject order_le_less_trans)
  qed
  with assms(3-5) show ?thesis by (auto simp: read_job_def live_at_def split: option.split)
qed

section \<open>From the due slot to the callback\<close>

definition first_delivery :: "exec_job_data \<times> jobs_options \<Rightarrow> bull_job" where
  "first_delivery entry = \<lparr>bj_data = fst entry, bj_attemptsMade = 0, bj_attempts = Some (jo_attempts (snd entry))\<rparr>"

text \<open>The queue entries that a scan added.\<close>

definition new_entries :: "store \<Rightarrow> store \<Rightarrow> (exec_job_data \<times> jobs_options) list" where
  "new_entries s s' = drop (length (st_queue s)) (st_queue s')"

lemma scan_fires:
  assumes "reliable svc V" "tables_wf (V w)" "cache_coherent (V w)"
    "\<And>j. j \<in> active_jobs (V w) \<Longrightarrow> lock_ttl_valid (computeJobLockTtlSeconds cfg j)"
    "run svc (tick cp cfg) w = (res, w1)" "j \<in> active_jobs (V w)" "fire_wanted cp cfg (V w) (V w1) j slot"
  obtains e where "fire_entry (j, slot, e) \<in> set (new_entries (V w) (V w1))" "st_execs (V w1) (exec_id e) = Some e"
    "exec_jobId e = job_id j" "scheduledFor e = Some slot" "st_jobs (V w1) (job_id j) = Some j"
    "\<And>t. st_clock (V w1) \<le> t \<Longrightarrow> read_job (V w1) t (job_id j) = Some j"
proof -
  from wp_run [OF assms(1) tick_wp [OF assms(2,4)] assms(5)] obtain js fs where
    js: "set js = active_jobs (V w)" and inv: "scan_inv cp cfg (V w) js fs (V w1)" by blast
  from inv assms(6,7) js obtain e where e: "(j, slot, e) \<in> set fs" unfolding scan_inv_def by blast
  have row: "fire_ok cp cfg (V w) (V w1) (j, slot, e)" and queue: "st_queue (V w1) = st_queue (V w) @ map fire_entry fs"
    and jobs: "st_jobs (V w1) = st_jobs (V w)" and time: "st_clock (V w) \<le> st_clock (V w1)"
    using inv e unfolding scan_inv_def by (blast, simp_all)
  have j: "st_jobs (V w) (job_id j) = Some j" using assms(6) by (auto simp: active_jobs_def)
  have kv: "st_kv (V w1) (jobConfigKey (job_id j)) = st_kv (V w) (jobConfigKey (job_id j))"
    by (rule run_leaves_key [OF reliable_ok [OF assms(1)] tick_leaves_config assms(5)])
  have read: "read_job (V w1) t (job_id j) = Some j" if "st_clock (V w1) \<le> t" for t
    by (rule coherent_read [OF assms(3) _ kv _ j]) (use that time jobs in simp_all)
  show thesis
    by (rule that [of e]) (use row queue jobs e j read in \<open>simp_all add: fire_ok_def new_entries_def\<close>)
qed

text \<open>
  C5: a due slot is called back. In a fault-free run with a coherent cache, an active job that is due for a slot throughout a
  scan, with the slot unclaimed and its lock free, gets an entry on the queue; and the first delivery of that
  entry sends exactly one request, to the URL of the job and signed over its body, and ends the execution of
  that slot as SUCCESS after a 2xx answer, and otherwise as FAILED, or as DEAD if the job has no retries.
\<close>

theorem due_slot_called_back:
  assumes "reliable svc V" "tables_wf (V w)" "cache_coherent (V w)"
    "\<And>j. j \<in> active_jobs (V w) \<Longrightarrow> lock_ttl_valid (computeJobLockTtlSeconds cfg j)"
    "run svc (tick cp cfg) w = (res, w1)" "j \<in> active_jobs (V w)" "fire_wanted cp cfg (V w) (V w1) j slot"
  shows "\<exists>entry \<in> set (new_entries (V w) (V w1)).
    let w2 = snd (run svc (processExecutionJob hmac cfg (first_delivery entry)) w1) in
    \<exists>f x e. st_fetched (V w2) = st_fetched (V w1) @ [(f, x)] \<and> fr_url f = callbackUrl j \<and>
      fr_signature f = hmac (CRONHIVE_SIGNING_SECRET cfg) (fr_body f) \<and>
      st_execs (V w2) (ej_executionId (fst entry)) = Some e \<and> exec_jobId e = job_id j \<and> scheduledFor e = Some slot \<and>
      status e = (if callback_ok x then SUCCESS else if maxRetries j \<le> 0 then DEAD else FAILED)"
proof -
  obtain e where e: "fire_entry (j, slot, e) \<in> set (new_entries (V w) (V w1))" "st_execs (V w1) (exec_id e) = Some e"
      "exec_jobId e = job_id j" "scheduledFor e = Some slot" "st_jobs (V w1) (job_id j) = Some j"
      "\<And>t. st_clock (V w1) \<le> t \<Longrightarrow> read_job (V w1) t (job_id j) = Some j"
    using scan_fires [OF assms] by blast
  let ?entry = "fire_entry (j, slot, e)" and ?bj = "first_delivery (fire_entry (j, slot, e))"
  have j: "enabled j" using assms(6) by (auto simp: active_jobs_def active_def)
  have bj: "ej_jobId (bj_data ?bj) = job_id j" "ej_executionId (bj_data ?bj) = exec_id e" "bj_attemptsMade ?bj = 0"
      "bj_attempts ?bj = Some (maxRetries j + 1)" "ej_executionId (fst ?entry) = exec_id e"
    by (simp_all add: first_delivery_def fire_entry_def slot_job_data_def executionJobOptions_def)
  obtain r w2 where run2: "run svc (processExecutionJob hmac cfg ?bj) w1 = (r, w2)" by fastforce
  from processExecutionJob_effect [OF assms(1) run2] have "attempt_effect hmac cfg ?bj j e j (V w1) r (V w2)"
    using e(2,5,6) j unfolding bj by fastforce
  then obtain x e' where eff: "st_fetched (V w2) = st_fetched (V w1) @ [(attempt_request hmac cfg ?bj j e, x)]"
    "st_execs (V w2) = (st_execs (V w1))(exec_id e \<mapsto> e')" "exec_jobId e' = exec_jobId e" "scheduledFor e' = scheduledFor e"
    "status e' = attempt_status ?bj x"
    unfolding attempt_effect_def Let_def bj by blast
  have "fr_url (attempt_request hmac cfg ?bj j e) = callbackUrl j" "fr_signature (attempt_request hmac cfg ?bj j e) =
      hmac (CRONHIVE_SIGNING_SECRET cfg) (fr_body (attempt_request hmac cfg ?bj j e))"
    by (simp_all add: attempt_request_def signed_request_def)
  moreover have "status e' = (if callback_ok x then SUCCESS else if maxRetries j \<le> 0 then DEAD else FAILED)"
    using eff(5) by (simp add: attempt_status_def is_final_def bj)
  ultimately show ?thesis
    using eff e(1,3,4) by (intro bexI [of _ ?entry]) (auto simp: Let_def run2 bj)
qed

theorem due_slot_called_back_witness:
  "let w = ref_start [sample_job] 60500 0; w1 = snd (run ref_svc (tick minute_parser default_env) w) in
   \<exists>entry \<in> set (new_entries (ref_view w) (ref_view w1)).
     let w2 = snd (run ref_svc (processExecutionJob (\<lambda>k m. k @ m) default_env (first_delivery entry)) w1) in
     \<exists>f x. st_fetched (ref_view w2) = st_fetched (ref_view w1) @ [(f, x)] \<and> fr_url f = ''https://example.com/hook''"
proof -
  let ?w = "ref_start [sample_job] 60500 0"
  obtain res w1 where run: "run ref_svc (tick minute_parser default_env) ?w = (res, w1)" by fastforce
  have job: "sample_job \<in> active_jobs (ref_view ?w)" by (simp add: sample_start)
  have ttl: "j \<in> active_jobs (ref_view ?w) \<Longrightarrow> lock_ttl_valid (computeJobLockTtlSeconds default_env j)" for j
    using sample_ttl by (simp add: sample_start)
  have url: "callbackUrl sample_job = ''https://example.com/hook''" by (simp add: sample_job_def)
  from due_slot_called_back [OF ref_svc_reliable sample_start(2) sample_coherent ttl run job sample_wanted [OF run], of "\<lambda>k m. k @ m"]
  show ?thesis unfolding Let_def run snd_conv url by blast
qed

section \<open>A success whose announcement fails\<close>

definition is_success_event :: "req \<Rightarrow> bool" where
  "is_success_event q \<longleftrightarrow> (case q of RedisPublish c (JobSuccess p) \<Rightarrow> True | _ \<Rightarrow> False)"

lemma unannounced_success:
  "\<exists>w1 e row. run (faulty_svc is_success_event) (processExecutionJob (\<lambda>k m. []) default_env (sample_delivery 0 3))
      (pending_world [Status 200, Status 500]) = (Inl outage, w1) \<and>
    find_exec (rw_execs w1) ''id-1'' = Some e \<and> status e = SUCCESS \<and> length (rw_fetched w1) = 1 \<and>
    find_job (rw_jobs w1) ''id-0'' = Some row \<and> enabled row \<and> rw_kv w1 = (\<lambda>_. None)"
  by (simp add: processExecutionJob_def load_job_def getCachedJob_def run_attempt_def publishEvent_def invokeCallback_def
      on_success_def resetDeadStreak_def run_bind run_try_catch prog_defs is_success_event_def faulty_svc_def ref_call_def Let_def
      pending_world_def sample_delivery_def ref_start_def live_at_def parse_cached_def sample_exec_def sample_job_def
      ref_update_exec_def ref_update_job_def ref_fetch_def find_exec_def find_job_def signed_request_def res_ok_def put_exec_def
      put_job_def patch_defs)

text \<open>
  An attempt that recorded SUCCESS fails when publishing its event fails; BullMQ then delivers the execution again,
  and the next attempt repeats the callback of an execution that had succeeded.
\<close>

theorem unannounced_success_repeats_callback:
  "let w1 = snd (run (faulty_svc is_success_event) (processExecutionJob (\<lambda>k m. []) default_env (sample_delivery 0 3))
      (pending_world [Status 200, Status 500]));
     w2 = snd (run ref_svc (processExecutionJob (\<lambda>k m. []) default_env (sample_delivery 1 3)) w1)
   in map_option status (find_exec (rw_execs w1) ''id-1'') = Some SUCCESS \<and> length (rw_fetched w2) = 2"
proof -
  obtain w1 e row where w1: "run (faulty_svc is_success_event) (processExecutionJob (\<lambda>k m. []) default_env (sample_delivery 0 3))
      (pending_world [Status 200, Status 500]) = (Inl outage, w1)" "find_exec (rw_execs w1) ''id-1'' = Some e" "status e = SUCCESS"
      "length (rw_fetched w1) = 1" "find_job (rw_jobs w1) ''id-0'' = Some row" "enabled row" "rw_kv w1 = (\<lambda>_. None)"
    using unannounced_success by blast
  obtain r w2 where run2: "run ref_svc (processExecutionJob (\<lambda>k m. []) default_env (sample_delivery 1 3)) w1 = (r, w2)" by fastforce
  have "reads_enabled (ref_view w1) (ej_jobId (bj_data (sample_delivery 1 3)))"
    using w1(5-7) by (simp add: reads_enabled_def read_job_def live_at_def parse_cached_def sample_delivery_def)
  moreover have "st_execs (ref_view w1) (ej_executionId (bj_data (sample_delivery 1 3))) = Some e"
    "st_jobs (ref_view w1) (ej_jobId (bj_data (sample_delivery 1 3))) = Some row"
    using w1(2,5) by (simp_all add: sample_delivery_def)
  ultimately obtain f where "st_fetched (ref_view w2) = st_fetched (ref_view w1) @ [f]"
    using enabled_attempt [OF ref_svc_reliable run2] by metis
  then have "rw_fetched w2 = rw_fetched w1 @ [f]" by simp
  with w1 run2 show ?thesis by simp
qed

end
