(* ===== verification/Metrics.thy ===== *)
theory Metrics
  imports Schema Js_Number
begin

text \<open>
  \<open>src/lib/metrics.ts\<close>: the Prometheus series of CronHive. The registry and the exposition format are prom-client's;
  the code defines which series exist, and each metric update of the handlers (type \<open>metric\<close>) goes to one of them.
\<close>

datatype metric_kind = Counter | Histogram "rat list" | Gauge

record metric_def =
  mx_name :: string
  mx_help :: string
  mx_kind :: metric_kind
  mx_labels :: "string list"

definition executionsTotal :: metric_def where
  "executionsTotal = \<lparr>mx_name = ''cronhive_executions_total'', mx_help = ''Total job executions by terminal status'',
     mx_kind = Counter, mx_labels = [''status'']\<rparr>"

definition executionDuration :: metric_def where
  "executionDuration = \<lparr>mx_name = ''cronhive_execution_duration_seconds'', mx_help = ''Wall-clock duration of a callback invocation'',
     mx_kind = Histogram [5 / 1000, 25 / 1000, 1 / 10, 1 / 2, 1, 5 / 2, 5, 10, 30, 60], mx_labels = [''status'']\<rparr>"

definition callbackAttemptsTotal :: metric_def where
  "callbackAttemptsTotal = \<lparr>mx_name = ''cronhive_callback_attempts_total'', mx_help = ''Total callback attempts (including retries)'',
     mx_kind = Counter, mx_labels = [''outcome'']\<rparr>"

definition schedulerTicksTotal :: metric_def where
  "schedulerTicksTotal = \<lparr>mx_name = ''cronhive_scheduler_ticks_total'', mx_help = ''Number of scheduler scan ticks'',
     mx_kind = Counter, mx_labels = []\<rparr>"

definition slotsEnqueuedTotal :: metric_def where
  "slotsEnqueuedTotal = \<lparr>mx_name = ''cronhive_slots_enqueued_total'', mx_help = ''Cron fire-slots successfully enqueued for execution'',
     mx_kind = Counter, mx_labels = []\<rparr>"

definition slotsDedupedTotal :: metric_def where
  "slotsDedupedTotal = \<lparr>mx_name = ''cronhive_slots_deduped_total'',
     mx_help = ''Fire-slots skipped because they were already claimed (double-fire prevented)'', mx_kind = Counter, mx_labels = []\<rparr>"

definition schedulerTickDuration :: metric_def where
  "schedulerTickDuration = \<lparr>mx_name = ''cronhive_scheduler_tick_duration_seconds'', mx_help = ''Duration of a single scheduler scan tick'',
     mx_kind = Histogram [1 / 1000, 1 / 100, 5 / 100, 1 / 10, 1 / 2, 1, 5], mx_labels = []\<rparr>"

definition circuitOpenTotal :: metric_def where
  "circuitOpenTotal = \<lparr>mx_name = ''cronhive_circuit_open_total'',
     mx_help = ''Number of times a job'' @ [CHR 0x27] @ ''s circuit breaker opened (job auto-disabled)'',
     mx_kind = Counter, mx_labels = []\<rparr>"

definition isLeaderGauge :: metric_def where
  "isLeaderGauge = \<lparr>mx_name = ''cronhive_scheduler_is_leader'',
     mx_help = ''1 if this scheduler instance currently holds leadership, else 0'', mx_kind = Gauge, mx_labels = []\<rparr>"

definition registry :: "metric_def list" where
  "registry = [executionsTotal, executionDuration, callbackAttemptsTotal, schedulerTicksTotal, slotsEnqueuedTotal,
     slotsDedupedTotal, schedulerTickDuration, circuitOpenTotal, isLeaderGauge]"

text \<open>The series that an update goes to, with the values of its labels.\<close>

definition status_label :: "ExecutionStatus \<Rightarrow> string" where
  "status_label st = (case st of PENDING \<Rightarrow> ''PENDING'' | RUNNING \<Rightarrow> ''RUNNING'' | SUCCESS \<Rightarrow> ''SUCCESS''
     | FAILED \<Rightarrow> ''FAILED'' | DEAD \<Rightarrow> ''DEAD'')"

fun metric_series :: "metric \<Rightarrow> metric_def \<times> string list" where
  "metric_series (ExecutionsTotal st) = (executionsTotal, [status_label st])"
| "metric_series (ExecutionDuration st ms) = (executionDuration, [status_label st])"
| "metric_series (CallbackAttemptsTotal oc) = (callbackAttemptsTotal, [oc])"
| "metric_series SchedulerTicksTotal = (schedulerTicksTotal, [])"
| "metric_series SlotsEnqueuedTotal = (slotsEnqueuedTotal, [])"
| "metric_series SlotsDedupedTotal = (slotsDedupedTotal, [])"
| "metric_series SchedulerTickDurationEnd = (schedulerTickDuration, [])"
| "metric_series CircuitOpenTotal = (circuitOpenTotal, [])"
| "metric_series (IsLeaderGauge n) = (isLeaderGauge, [])"

lemmas metric_defs = executionsTotal_def executionDuration_def callbackAttemptsTotal_def schedulerTicksTotal_def
  slotsEnqueuedTotal_def slotsDedupedTotal_def schedulerTickDuration_def circuitOpenTotal_def isLeaderGauge_def

text \<open>
  Registering never fails and neither does an update: prom-client refuses a second series of one name, histogram buckets
  out of order, and label values that do not match the labels of the series.
\<close>

lemma registry_distinct: "distinct (map mx_name registry)"
  by (simp add: registry_def metric_defs)

lemma buckets_ascending: "m \<in> set registry \<Longrightarrow> mx_kind m = Histogram bs \<Longrightarrow> sorted bs \<and> distinct bs"
  by (auto simp: registry_def metric_defs)

lemma series_registered: "fst (metric_series m) \<in> set registry"
  "length (snd (metric_series m)) = length (mx_labels (fst (metric_series m)))"
  by (cases m; simp add: registry_def metric_defs)+

end
