(* ===== verification/Spec2Isabelle.thy ===== *)
theory Spec2Isabelle
  imports Call_Bounds Dashboard_Api Pipeline Metrics
begin

text \<open>
  A verification development of CronHive (\<open>src/\<close>), a distributed cron service: schedulers find the jobs that are due and put
  their executions on a queue, workers take them off and call the jobs' URLs, an HTTP API manages the jobs, and a
  dashboard shows them. The state is in PostgreSQL (tables \<open>Job\<close> and \<open>Execution\<close>), in Redis (locks, the leader's lease,
  cached jobs, the events channel) and in BullMQ (the queues \<open>execution\<close> and \<open>deadletter\<close>).

  \<^bold>\<open>How a program is modelled.\<close> TypeScript computes locally and awaits services. Local code is a function on the source's
  own data: interfaces are records with the source's fields, unions are datatypes, JavaScript numbers are doubles as exact
  rationals with NaN and infinities (theory \<open>Js_Number\<close>, with rounding to nearest even wherever the source's
  arithmetic can round), identifiers and texts are strings, times are milliseconds as \<open>int\<close>. A handler is a
  program: a tree of the calls it awaits and of the responses it may get (theory \<open>Service_Calls\<close>), with
  \<open>bind\<close> for \<open>await\<close>, \<open>Throw\<close> and \<open>try_catch\<close> for exceptions and \<open>for_each\<close> for loops. No loop of the source is
  unbounded, so no fuel is needed anywhere: every function is total, and \<open>handlers_end\<close> bounds the calls of each handler. The two
  Lua scripts are code of the repository and are translated as well (\<open>Redis_Scripts\<close>).

  \<^bold>\<open>What is a parameter.\<close> The services are a function \<open>svc\<close>, the state they keep is read through a view \<open>V\<close> into the record
  \<open>store\<close> (theory \<open>Service_Contract\<close>). The named hypothesis \<open>services_ok svc V\<close> is the documented behaviour of Prisma, Redis, BullMQ,
  \<open>fetch\<close>, DNS and the clock, where any call may fail, may take effect although it fails, and may take any time;
  \<open>reliable svc V\<close> excludes failures other than constraint violations, refused arguments, HTTP and DNS failures. \<open>Reference_Services\<close>
  defines concrete services, proves both contracts of them, and carries the witnesses. Other parameters are \<open>cron-parser\<close> (its
  contract is \<open>cron_ok\<close> in \<open>Cron_Utils\<close>), HMAC-SHA256, \<open>new URL\<close>, the calendar step of \<open>setDate\<close>, the rate limiter,
  the body parser, the JSON engine of the browser (\<open>wire_ok\<close> in \<open>Dashboard_Api\<close>) and its \<open>toLocaleTimeString\<close>.

  \<^bold>\<open>Theories and sources.\<close>
  \<^item> \<open>CronHive_Prelude\<close>, \<open>Js_Number\<close>, \<open>Json_Text\<close>: strings, numbers and JSON text of JavaScript, shared lemmas and \<open>prog_defs\<close>.
  \<^item> \<open>Schema\<close>: \<open>prisma/schema.prisma\<close>, and the payload types of \<open>lib/queues.ts\<close>, \<open>lib/events.ts\<close> and \<open>lib/metrics.ts\<close>;
    \<open>Metrics\<close>: the series of \<open>lib/metrics.ts\<close>; \<open>Connections\<close>: \<open>lib/redis.ts\<close>, \<open>lib/prisma.ts\<close>, \<open>lib/logger.ts\<close>.
  \<^item> \<open>Env_Config\<close>: \<open>config/env.ts\<close>. \<open>Queues\<close>: \<open>lib/queues.ts\<close>. \<open>Lock_Ttl\<close>: \<open>lib/lock-ttl.ts\<close>. \<open>Cron_Utils\<close>: \<open>lib/cron-utils.ts\<close>.
  \<^item> \<open>Job_Lock\<close>: \<open>lib/lock.ts\<close>. \<open>Job_Cache\<close>: \<open>lib/job-cache.ts\<close> and \<open>lib/events.ts\<close>. \<open>Leader\<close>: \<open>lib/leader.ts\<close>.
  \<^item> \<open>Execution_Service\<close>, \<open>Callback_Service\<close>, \<open>Job_Service\<close>: the files of that name in \<open>services/\<close>; \<open>Ssrf\<close>: \<open>lib/ssrf.ts\<close>;
    \<open>Auth\<close>: \<open>lib/auth.ts\<close>.
  \<^item> \<open>Scheduler\<close>: \<open>scheduler.ts\<close> (the scan, and \<open>run\<close>); \<open>Worker\<close>: \<open>worker.ts\<close> (one delivery); \<open>Processes\<close>: \<open>main\<close> and
    \<open>shutdown\<close> of both and of \<open>server.ts\<close>, with the timers and signals of a scheduler process.
  \<^item> \<open>Json_Schema\<close>, \<open>Jobs_Router\<close>: the zod schemas and the handlers of \<open>routes/jobs.router.ts\<close>; \<open>Jobs_Api\<close>: what they guarantee;
    \<open>Api_Server\<close>: \<open>server.ts\<close> (routing, error handlers, event relay) and \<open>lib/metrics-server.ts\<close>.
  \<^item> \<open>Dashboard\<close>: \<open>frontend/src\<close>, the feed, the client, the page's state and the form; \<open>Dashboard_View\<close>: what its components show
    and what every control does; \<open>Dashboard_Api\<close>: the dashboard with the API behind its \<open>fetch\<close>.
  \<^item> \<open>Fault_Free\<close>: the calculus \<open>wp\<close> for runs against reliable services; \<open>Interleaving\<close>: clusters of programs, interleaved at their calls
    and crashed at any of them; \<open>Cluster\<close>: the programs of CronHive as such a cluster; \<open>Pipeline\<close>: a scan followed by a delivery;
    \<open>Job_Table\<close>: the abstract specification of the job service; \<open>Call_Bounds\<close>: termination.

  \<^bold>\<open>Interfaces.\<close> Where one part relies on another, the contract is a locale, interpreted on the code's model in the theory of the
  provider: \<open>slot_source\<close> (a due slot is stable between fires: \<open>cron\<close> in \<open>Cron_Utils\<close>), \<open>fire_lock\<close> (an owner-token lock with
  expiry: \<open>joblock\<close> in \<open>Job_Lock\<close>), \<open>lease\<close> (leadership: \<open>leader\<close> in \<open>Leader\<close>, against services that may fail),
  \<open>enqueue_discipline\<close> (an entry is enqueued only by the program that created its row, once: \<open>cronhive\<close> in \<open>Cluster\<close>) and
  \<open>refinement\<close> (a simulation lifted to sequences: \<open>job_table\<close> in \<open>Job_Table\<close>).

  \<^bold>\<open>What is shown.\<close>
  \<^item> Firing: no interleaving, failure or crash of any number of processes enqueues a scheduled slot twice
    (\<open>cluster_enqueues_slot_once\<close>); a fault-free scan fires exactly the due, unclaimed slots of the active jobs (\<open>tick_fires_due_slots\<close>), and
    the first delivery of such an entry sends one signed callback and finishes the execution (\<open>due_slot_called_back\<close>). The converse of
    the guarantee is shown too: a row whose enqueueing failed is never enqueued later (\<open>claimed_slot_never_enqueued\<close>).
  \<^item> Deliveries: the outcome of one attempt, of a whole sequence of failing attempts ending in one dead letter, the streak and the
    circuit breaker, deliveries that must do nothing, and the stale cached copy that gets round the breaker.
  \<^item> Coordination: exclusion of the fire-slot lock and of the lease while they live, releases by past owners, the hand-over after
    a stop; the lock lifetime covers the retry budget, and can exceed what Redis accepts.
  \<^item> Slots: when two ticks agree on a slot, when a fire is caught and when it is lost.
  \<^item> Jobs: every operation keeps the cache equal to the table, the stored jobs within the schemas, and refines the abstract table; an
    update that committed can be reported as missing.
  \<^item> API: every request gets one answer, without a key nothing is reached, the trigger on all its branches, and paging
    that gives the whole history exactly once.
  \<^item> Guards and configuration: the IPv4 test is membership in the CIDR blocks as words, an accepted URL resolved only to public
    addresses, exactly the configured keys pass, a loaded configuration satisfies its bounds.
  \<^item> Processes: what a scheduler process starts, and that a shutdown closes everything in order or does not exit.
  \<^item> Dashboard: it never hangs, its form and the API's schema agree, a click on a row does what the button says,
    submitting the form creates one job or none, and with an API key configured nothing of it works.

  \<^bold>\<open>Bounds.\<close> Lengths and limits are those of the code: fifty events in the feed, pages of 1 to 100 entries and page numbers up to
  \<open>2 ^ 53\<close> (beyond, doubles are not exact), expiry times up to \<open>2 ^ 63 - 1\<close> milliseconds, 22 calls per delivery, 6 per
  trigger, \<open>3 + 7 n\<close> per scan of \<open>n\<close> jobs. A scan or delivery of the theorems on fault-free runs is not interleaved with other
  writers; the theorems on clusters have no such assumption. Campaigns of one instance are taken not to overlap.

  \<^bold>\<open>Not modelled.\<close> Log output; what the clients of Redis, Prisma and pino do with the options they
  are given (\<open>Connections\<close> has the options; their calls are the parameter \<open>svc\<close>); helmet, CORS and request logging, which do not change which handler answers; BullMQ's own
  scheduling of deliveries (a delivery is a record \<open>bull_job\<close>); constant markup and styles of the dashboard, the page frame
  (\<open>layout.tsx\<close>) and React's scheduling of updates: a handler of the page is taken to its end before the next event; tests and build
  files.
\<close>

end
